(* ===== verification/Prelude.thy ===== *)
theory Prelude
  imports Main "HOL-Library.Word"
begin

text \<open>
  Shared vocabulary of the development.

  A Go function that may fail and that changes some store is a \<open>prog\<close>: it takes the
  store and returns an error or a value together with the store it leaves behind.
  The store is returned on the error side too, because a Go function that fails
  half way keeps the effects of the statements that had already succeeded.

  The second half holds the SQL shaped list operations used by the stores (a table is
  the list of its rows) and the facts about them that the component proofs share.
\<close>

section \<open>Identifiers, instants, durations\<close>

type_synonym uuid = "128 word"

text \<open>Instants are nanoseconds since the Unix epoch, durations nanoseconds
  (\<open>time.Duration\<close> is an \<open>int64\<close> count of nanoseconds).\<close>

type_synonym instant = int
type_synonym duration = int

text \<open>Go strings and byte slices are byte sequences.\<close>

type_synonym bytes = "char list"

section \<open>Failing, state changing programs\<close>

type_synonym ('e, 's, 'a) prog = "'s \<Rightarrow> ('e + 'a) \<times> 's"

definition returnP :: "'a \<Rightarrow> ('e, 's, 'a) prog" where
  "returnP x s = (Inr x, s)"

definition failP :: "'e \<Rightarrow> ('e, 's, 'a) prog" where
  "failP e s = (Inl e, s)"

text \<open>Sequencing: the early return \<open>if err != nil { return err }\<close> of the code.\<close>

definition bindP :: "('e, 's, 'a) prog \<Rightarrow> ('a \<Rightarrow> ('e, 's, 'b) prog) \<Rightarrow> ('e, 's, 'b) prog" where
  "bindP m f s = (case m s of (Inl e, s') \<Rightarrow> (Inl e, s') | (Inr x, s') \<Rightarrow> f x s')"

text \<open>Handling both outcomes: \<open>x, err := m(); if err != nil { h } else { f }\<close>.\<close>

definition tryP ::
  "('e, 's, 'a) prog \<Rightarrow> ('e \<Rightarrow> ('d, 's, 'b) prog) \<Rightarrow> ('a \<Rightarrow> ('d, 's, 'b) prog) \<Rightarrow> ('d, 's, 'b) prog" where
  "tryP m h f s = (case m s of (Inl e, s') \<Rightarrow> h e s' | (Inr x, s') \<Rightarrow> f x s')"

text \<open>Rewriting the error, as \<open>fmt.Errorf\<close> does on the way up.\<close>

definition map_errP :: "('e \<Rightarrow> 'd) \<Rightarrow> ('e, 's, 'a) prog \<Rightarrow> ('d, 's, 'a) prog" where
  "map_errP g m s = (case m s of (Inl e, s') \<Rightarrow> (Inl (g e), s') | (Inr x, s') \<Rightarrow> (Inr x, s'))"

text \<open>Reading the store, and building a program from what it holds.\<close>

definition readP :: "('s \<Rightarrow> 'a) \<Rightarrow> ('e, 's, 'a) prog" where
  "readP g s = (Inr (g s), s)"

definition with_state :: "('s \<Rightarrow> ('e, 's, 'a) prog) \<Rightarrow> ('e, 's, 'a) prog" where
  "with_state f s = f s s"

text \<open>A loop over a slice whose body logs its error and goes on.\<close>

fun for_each_ignoring :: "('a \<Rightarrow> ('e, 's, unit) prog) \<Rightarrow> 'a list \<Rightarrow> 's \<Rightarrow> 's" where
  "for_each_ignoring body [] s = s"
| "for_each_ignoring body (x # xs) s = for_each_ignoring body xs (snd (body x s))"

lemma returnP_simps [simp]: "returnP x s = (Inr x, s)"
  by (simp add: returnP_def)

lemma failP_simps [simp]: "failP e s = (Inl e, s)"
  by (simp add: failP_def)

lemma readP_simps [simp]: "readP g s = (Inr (g s), s)"
  by (simp add: readP_def)

lemma with_state_simps [simp]: "with_state f s = f s s"
  by (simp add: with_state_def)

lemma bindP_Inr: "m s = (Inr x, s') \<Longrightarrow> bindP m f s = f x s'"
  by (simp add: bindP_def)

lemma bindP_Inl: "m s = (Inl e, s') \<Longrightarrow> bindP m f s = (Inl e, s')"
  by (simp add: bindP_def)

lemma bindP_assoc: "bindP (bindP m f) g = bindP m (\<lambda>x. bindP (f x) g)"
  by (rule ext) (auto simp: bindP_def split: prod.splits sum.splits)

lemma bindP_eq_Inr:
  "bindP m f s = (Inr y, t) \<longleftrightarrow> (\<exists>x s'. m s = (Inr x, s') \<and> f x s' = (Inr y, t))"
  by (auto simp: bindP_def split: prod.splits sum.splits)

lemma map_errP_eq_Inr: "map_errP g m s = (Inr y, t) \<longleftrightarrow> m s = (Inr y, t)"
  by (auto simp: map_errP_def split: prod.splits sum.splits)

lemma snd_map_errP [simp]: "snd (map_errP g m s) = snd (m s)"
  by (auto simp: map_errP_def split: prod.splits sum.splits)

section \<open>Preservation of predicates by programs\<close>

text \<open>\<open>preserves I m\<close>: whatever \<open>m\<close> returns, an error included, it leaves a store in
  which \<open>I\<close> holds if \<open>I\<close> held before.  The rules below are collected in
  \<open>preserves_intros\<close>, so that the proof for a composed operation is one
  \<open>intro\<close> over the facts of its parts.\<close>

named_theorems preserves_intros
named_theorems table_simps

definition preserves :: "('s \<Rightarrow> bool) \<Rightarrow> ('e, 's, 'a) prog \<Rightarrow> bool" where
  "preserves I m \<longleftrightarrow> (\<forall>s. I s \<longrightarrow> I (snd (m s)))"

lemma preservesI: "(\<And>s. I s \<Longrightarrow> I (snd (m s))) \<Longrightarrow> preserves I m"
  by (simp add: preserves_def)

lemma preservesD: "preserves I m \<Longrightarrow> I s \<Longrightarrow> I (snd (m s))"
  by (simp add: preserves_def)

lemma preservesD_eq: "preserves I m \<Longrightarrow> I s \<Longrightarrow> m s = (r, s') \<Longrightarrow> I s'"
  by (metis preservesD snd_conv)

lemma preserves_return [preserves_intros]: "preserves I (returnP x)"
  by (simp add: preserves_def)

lemma preserves_fail [preserves_intros]: "preserves I (failP e)"
  by (simp add: preserves_def)

lemma preserves_read [preserves_intros]: "preserves I (readP g)"
  by (simp add: preserves_def)

lemma preserves_with_state [preserves_intros]:
  "(\<And>t. preserves I (f t)) \<Longrightarrow> preserves I (with_state f)"
  by (simp add: preserves_def)

lemma preserves_bind [preserves_intros]:
  assumes "preserves I m" and "\<And>x. preserves I (f x)"
  shows "preserves I (bindP m f)"
  using assms
  by (fastforce simp: preserves_def bindP_def split: prod.splits sum.splits)

lemma preserves_try [preserves_intros]:
  assumes "preserves I m" and "\<And>e. preserves I (h e)" and "\<And>x. preserves I (f x)"
  shows "preserves I (tryP m h f)"
  using assms
  by (fastforce simp: preserves_def tryP_def split: prod.splits sum.splits)

lemma preserves_map_err [preserves_intros]: "preserves I m \<Longrightarrow> preserves I (map_errP g m)"
  by (simp add: preserves_def)

lemma preserves_if [preserves_intros]:
  "(b \<Longrightarrow> preserves I m) \<Longrightarrow> (\<not> b \<Longrightarrow> preserves I m') \<Longrightarrow> preserves I (if b then m else m')"
  by simp

lemma preserves_case_option [preserves_intros]:
  "preserves I m \<Longrightarrow> (\<And>x. preserves I (f x)) \<Longrightarrow> preserves I (case y of None \<Rightarrow> m | Some x \<Rightarrow> f x)"
  by (cases y) auto

lemma for_each_ignoring_preserves:
  assumes "\<And>x. preserves I (body x)" and "I s"
  shows "I (for_each_ignoring body xs s)"
  using assms(2) by (induction xs arbitrary: s) (auto intro: preservesD [OF assms(1)])

lemma for_each_ignoring_append:
  "for_each_ignoring body (xs @ ys) s = for_each_ignoring body ys (for_each_ignoring body xs s)"
  by (induction xs arbitrary: s) auto

section \<open>Leaving a list of processes\<close>

definition without :: "nat \<Rightarrow> 'a list \<Rightarrow> 'a list" where
  "without k xs = take k xs @ drop (Suc k) xs"

lemma split_at:
  assumes "k < length xs"
  obtains A B where "xs = A @ (xs ! k) # B" "without k xs = A @ B" "\<And>y. xs[k := y] = A @ y # B" "k = length A"
  using assms by (intro that [of "take k xs" "drop (Suc k) xs"])
    (simp_all add: without_def id_take_nth_drop [symmetric] upd_conv_take_nth_drop)

section \<open>Tables as row lists\<close>

text \<open>\<open>UPDATE t SET f WHERE p\<close> and \<open>DELETE FROM t WHERE p\<close>.\<close>

definition upd_where :: "('r \<Rightarrow> bool) \<Rightarrow> ('r \<Rightarrow> 'r) \<Rightarrow> 'r list \<Rightarrow> 'r list" where
  "upd_where p f rows = map (\<lambda>r. if p r then f r else r) rows"

definition del_where :: "('r \<Rightarrow> bool) \<Rightarrow> 'r list \<Rightarrow> 'r list" where
  "del_where p rows = filter (\<lambda>r. \<not> p r) rows"

text \<open>The row with a given key, \<open>SELECT \<dots> WHERE key = k\<close> on a unique column.\<close>

definition row_by :: "('r \<Rightarrow> 'k) \<Rightarrow> 'k \<Rightarrow> 'r list \<Rightarrow> 'r option" where
  "row_by key k rows = find (\<lambda>r. key r = k) rows"

lemma upd_where_Nil [simp]: "upd_where p f [] = []"
  by (simp add: upd_where_def)

lemma upd_where_Cons [simp]:
  "upd_where p f (r # rs) = (if p r then f r else r) # upd_where p f rs"
  by (simp add: upd_where_def)

lemma length_upd_where [simp]: "length (upd_where p f rows) = length rows"
  by (simp add: upd_where_def)

lemma set_upd_where: "set (upd_where p f rows) = (\<lambda>r. if p r then f r else r) ` set rows"
  by (simp add: upd_where_def)

lemma map_upd_where [table_simps]:
  "(\<And>r. p r \<Longrightarrow> g (f r) = g r) \<Longrightarrow> map g (upd_where p f rows) = map g rows"
  by (simp add: upd_where_def)

lemma ball_upd_where [table_simps]:
  "(\<forall>r \<in> set (upd_where p f rows). Q r) \<longleftrightarrow> (\<forall>r \<in> set rows. (p r \<longrightarrow> Q (f r)) \<and> (\<not> p r \<longrightarrow> Q r))"
  by (induction rows) auto

lemma bex_upd_where [table_simps]:
  "(\<exists>r \<in> set (upd_where p f rows). Q r) \<longleftrightarrow> (\<exists>r \<in> set rows. (p r \<and> Q (f r)) \<or> (\<not> p r \<and> Q r))"
  by (induction rows) auto

lemma upd_where_none: "(\<And>r. r \<in> set rows \<Longrightarrow> \<not> p r) \<Longrightarrow> upd_where p f rows = rows"
  by (induction rows) auto

lemma upd_where_cong_set:
  "(\<And>r. r \<in> set rows \<Longrightarrow> p r = q r) \<Longrightarrow> upd_where p f rows = upd_where q f rows"
  by (simp add: upd_where_def)

lemma row_by_Nil [simp]: "row_by key k [] = None"
  by (simp add: row_by_def)

lemma row_by_Cons [simp]:
  "row_by key k (r # rs) = (if key r = k then Some r else row_by key k rs)"
  by (simp add: row_by_def)

lemma row_by_append [simp]:
  "row_by key k (xs @ ys) = (case row_by key k xs of Some r \<Rightarrow> Some r | None \<Rightarrow> row_by key k ys)"
  by (induction xs) auto

lemma row_by_SomeD: "row_by key k rows = Some r \<Longrightarrow> r \<in> set rows \<and> key r = k"
  by (induction rows) (auto split: if_splits)

lemma row_by_None_iff: "row_by key k rows = None \<longleftrightarrow> k \<notin> key ` set rows"
  by (induction rows) auto

lemma row_by_unique:
  "distinct (map key rows) \<Longrightarrow> r \<in> set rows \<Longrightarrow> row_by key (key r) rows = Some r"
  by (induction rows) (auto simp: rev_image_eqI)

lemma unique_row:
  "distinct (map key rows) \<Longrightarrow> r \<in> set rows \<Longrightarrow> r' \<in> set rows \<Longrightarrow> key r = key r' \<Longrightarrow> r = r'"
  using row_by_unique by (metis option.inject)

lemma row_by_upd_where:
  assumes "\<And>r. p r \<Longrightarrow> key (f r) = key r"
  shows "row_by key k (upd_where p f rows) =
    map_option (\<lambda>r. if p r then f r else r) (row_by key k rows)"
  using assms by (induction rows) auto

end
