(* ===== verification/Go_Std.thy ===== *)
theory Go_Std
  imports Prelude
begin

text \<open>
  The parts of Go and of its standard library that the program's behaviour rests on:
  the wrap-around and the truncating division of \<open>int64\<close>, \<open>strconv.FormatInt\<close> and
  \<open>strconv.Atoi\<close>, \<open>strings.ToLower\<close> on ASCII, \<open>encoding/hex\<close>, and the conversion
  \<open>[]rune(s)\<close> of a byte string.
\<close>

section \<open>Machine integers\<close>

text \<open>\<open>int\<close> and \<open>int64\<close> are 64 bit two's complement.\<close>

definition wrap64 :: "int \<Rightarrow> int" where
  "wrap64 x = (x + 2 ^ 63) mod 2 ^ 64 - 2 ^ 63"

definition max_int64 :: int where "max_int64 = 2 ^ 63 - 1"
definition min_int64 :: int where "min_int64 = - (2 ^ 63)"

definition go_div :: "int \<Rightarrow> int \<Rightarrow> int" where
  "go_div a b = sgn a * sgn b * (\<bar>a\<bar> div \<bar>b\<bar>)"

lemma wrap64_id: "min_int64 \<le> x \<Longrightarrow> x \<le> max_int64 \<Longrightarrow> wrap64 x = x"
  by (simp add: wrap64_def min_int64_def max_int64_def)

lemma wrap64_range: "min_int64 \<le> wrap64 x \<and> wrap64 x \<le> max_int64"
proof -
  have "0 \<le> (x + 2 ^ 63) mod 2 ^ 64" and "(x + 2 ^ 63) mod 2 ^ 64 < (2 ^ 64 :: int)"
    by simp_all
  then show ?thesis by (simp add: wrap64_def min_int64_def max_int64_def)
qed

lemma wrap64_sint: "wrap64 x = sint (word_of_int x :: 64 word)"
  by (simp add: wrap64_def sint_sbintrunc' signed_take_bit_eq_take_bit_shift take_bit_eq_mod)

lemma go_div_nonneg: "0 \<le> a \<Longrightarrow> 0 < b \<Longrightarrow> go_div a b = a div b"
  by (cases "a = 0") (simp_all add: go_div_def)

section \<open>Decimal numbers\<close>

definition digit_char :: "nat \<Rightarrow> char" where
  "digit_char d = char_of (48 + d)"

fun nat_digits :: "nat \<Rightarrow> string" where
  "nat_digits n = (if n < 10 then [digit_char n] else nat_digits (n div 10) @ [digit_char (n mod 10)])"

declare nat_digits.simps [simp del]

definition FormatInt :: "int \<Rightarrow> string" where
  "FormatInt i = (if i < 0 then CHR ''-'' # nat_digits (nat (- i)) else nat_digits (nat i))"

definition is_digit :: "char \<Rightarrow> bool" where
  "is_digit c \<longleftrightarrow> 48 \<le> (of_char c :: nat) \<and> (of_char c :: nat) \<le> 57"

fun digits_val :: "nat \<Rightarrow> string \<Rightarrow> nat" where
  "digits_val acc [] = acc"
| "digits_val acc (c # cs) = digits_val (10 * acc + ((of_char c :: nat) - 48)) cs"

text \<open>\<open>strconv.Atoi\<close>: an optional sign, at least one digit, and a value that fits
  \<open>int64\<close>; \<open>None\<close> is a syntax or a range error.\<close>

definition Atoi :: "string \<Rightarrow> int option" where
  "Atoi s =
     (let (neg, ds) = (case s of [] \<Rightarrow> (False, [])
                       | c # cs \<Rightarrow> if c = CHR ''-'' then (True, cs)
                                   else if c = CHR ''+'' then (False, cs) else (False, s))
      in if ds = [] \<or> \<not> list_all is_digit ds then None
         else let v = (if neg then - int (digits_val 0 ds) else int (digits_val 0 ds))
              in if v < min_int64 \<or> v > max_int64 then None else Some v)"

lemma of_char_digit: "d < 10 \<Longrightarrow> (of_char (digit_char d) :: nat) = 48 + d"
  by (simp add: digit_char_def)

lemma is_digit_digit_char: "d < 10 \<Longrightarrow> is_digit (digit_char d)"
  by (simp add: is_digit_def of_char_digit)

lemma digits_val_append: "digits_val acc (xs @ ys) = digits_val (digits_val acc xs) ys"
  by (induction xs arbitrary: acc) auto

lemma nat_digits_ne [simp]: "nat_digits n \<noteq> []"
  by (subst nat_digits.simps) simp

lemma nat_digits_is_digit: "list_all is_digit (nat_digits n)"
proof (induction n rule: nat_digits.induct)
  case (1 n)
  then show ?case
    by (subst nat_digits.simps) (simp add: is_digit_digit_char)
qed

lemma digits_val_nat_digits: "digits_val 0 (nat_digits n) = n"
proof (induction n rule: nat_digits.induct)
  case (1 n)
  then show ?case
    by (subst nat_digits.simps) (simp add: digits_val_append of_char_digit)
qed

lemma digit_not_sign: "is_digit c \<Longrightarrow> c \<noteq> CHR ''-'' \<and> c \<noteq> CHR ''+'' \<and> c \<noteq> CHR ''.''"
  by (auto simp: is_digit_def)

lemma hd_nat_digits: "is_digit (hd (nat_digits n))"
  using nat_digits_is_digit [of n] nat_digits_ne [of n]
  by (metis list.set_sel(1) list_all_iff)

lemma Atoi_FormatInt:
  assumes "min_int64 \<le> i" and "i \<le> max_int64"
  shows "Atoi (FormatInt i) = Some i"
proof (cases "i < 0")
  case True
  with assms show ?thesis
    by (simp add: Atoi_def FormatInt_def nat_digits_is_digit digits_val_nat_digits)
next
  case False
  obtain c cs where c: "nat_digits (nat i) = c # cs"
    by (cases "nat_digits (nat i)") (auto dest: arg_cong [where f = length])
  with hd_nat_digits [of "nat i"] have "c \<noteq> CHR ''-''" "c \<noteq> CHR ''+''"
    by (auto dest: digit_not_sign)
  with False assms c nat_digits_is_digit [of "nat i"] digits_val_nat_digits [of "nat i"]
  show ?thesis by (simp add: Atoi_def FormatInt_def)
qed

lemma nat_digits_inj: "nat_digits m = nat_digits n \<Longrightarrow> m = n"
  by (metis digits_val_nat_digits)

lemma FormatInt_inj: "FormatInt i = FormatInt j \<Longrightarrow> i = j"
proof -
  assume eq: "FormatInt i = FormatInt j"
  have hd_ne: "hd (nat_digits n) \<noteq> CHR ''-''" for n
    using hd_nat_digits digit_not_sign by blast
  from eq hd_ne [of "nat i"] hd_ne [of "nat j"] show "i = j"
    by (auto simp: FormatInt_def dest: nat_digits_inj split: if_splits)
      (metis list.sel(1))+
qed

lemma dot_notin_nat_digits: "CHR ''.'' \<notin> set (nat_digits n)"
  using nat_digits_is_digit [of n] digit_not_sign by (auto simp: list_all_iff)

lemma dot_notin_FormatInt: "CHR ''.'' \<notin> set (FormatInt i)"
  by (simp add: FormatInt_def dot_notin_nat_digits)

section \<open>Strings\<close>

definition lower_char :: "char \<Rightarrow> char" where
  "lower_char c = (let n = (of_char c :: nat) in if 65 \<le> n \<and> n \<le> 90 then char_of (n + 32) else c)"

text \<open>\<open>strings.ToLower\<close>, which changes only the ASCII letters of an ASCII string.\<close>

definition ToLower :: "string \<Rightarrow> string" where
  "ToLower s = map lower_char s"

text \<open>\<open>[]rune(s)\<close>: UTF-8 decoding.  \<open>decode_rune\<close> gives the first code point and the
  number of bytes it takes; a byte that starts no valid sequence gives U+FFFD and counts
  for itself.\<close>

definition cont_byte :: "nat \<Rightarrow> bool" where
  "cont_byte b \<longleftrightarrow> 128 \<le> b \<and> b \<le> 191"

definition second_ok :: "nat \<Rightarrow> nat \<Rightarrow> bool" where
  "second_ok b0 b1 \<longleftrightarrow>
     (if b0 = 224 then 160 \<le> b1 \<and> b1 \<le> 191
      else if b0 = 237 then 128 \<le> b1 \<and> b1 \<le> 159
      else if b0 = 240 then 144 \<le> b1 \<and> b1 \<le> 191
      else if b0 = 244 then 128 \<le> b1 \<and> b1 \<le> 143
      else cont_byte b1)"

definition decode_rune :: "nat \<Rightarrow> nat list \<Rightarrow> nat \<times> nat" where
  "decode_rune b0 bs =
     (if b0 < 128 then (b0, 1)
      else if 194 \<le> b0 \<and> b0 \<le> 223 then
        (case bs of b1 # _ \<Rightarrow>
           if second_ok b0 b1 then ((b0 - 192) * 64 + (b1 - 128), 2) else (65533, 1)
         | _ \<Rightarrow> (65533, 1))
      else if 224 \<le> b0 \<and> b0 \<le> 239 then
        (case bs of b1 # b2 # _ \<Rightarrow>
           if second_ok b0 b1 \<and> cont_byte b2
           then ((b0 - 224) * 4096 + (b1 - 128) * 64 + (b2 - 128), 3) else (65533, 1)
         | _ \<Rightarrow> (65533, 1))
      else if 240 \<le> b0 \<and> b0 \<le> 244 then
        (case bs of b1 # b2 # b3 # _ \<Rightarrow>
           if second_ok b0 b1 \<and> cont_byte b2 \<and> cont_byte b3
           then ((b0 - 240) * 262144 + (b1 - 128) * 4096 + (b2 - 128) * 64 + (b3 - 128), 4)
           else (65533, 1)
         | _ \<Rightarrow> (65533, 1))
      else (65533, 1))"

fun decode_runes :: "nat list \<Rightarrow> nat list" where
  "decode_runes [] = []"
| "decode_runes (b # bs) = (let (r, w) = decode_rune b bs in r # decode_runes (drop (w - 1) bs))"

definition runes :: "bytes \<Rightarrow> nat list" where
  "runes s = decode_runes (map of_char s)"

lemma decode_runes_ascii: "list_all (\<lambda>b. b < 128) bs \<Longrightarrow> decode_runes bs = bs"
  by (induction bs rule: decode_runes.induct) (simp_all add: decode_rune_def)

lemma runes_ascii: "list_all (\<lambda>c. (of_char c :: nat) < 128) s \<Longrightarrow> runes s = map of_char s"
  by (simp add: runes_def decode_runes_ascii list_all_iff)

lemma length_decode_runes: "length (decode_runes bs) \<le> length bs"
proof (induction bs rule: decode_runes.induct)
  case (2 b bs)
  obtain r w where rw: "decode_rune b bs = (r, w)" by fastforce
  with 2 have "length (decode_runes (drop (w - 1) bs)) \<le> length (drop (w - 1) bs)" by simp
  also have "\<dots> \<le> length bs" by simp
  finally show ?case using rw by simp
qed simp

lemma runes_eq_Nil [simp]: "runes s = [] \<longleftrightarrow> s = []"
  by (cases s) (auto simp: runes_def split: prod.splits)

text \<open>\<open>utf8.Valid\<close>: no byte had to be replaced.  \<open>encode_rune\<close> is \<open>utf8.EncodeRune\<close> of a
  Unicode scalar value.\<close>

fun valid_runes :: "nat list \<Rightarrow> bool" where
  "valid_runes [] \<longleftrightarrow> True"
| "valid_runes (b # bs) \<longleftrightarrow>
     (let (r, w) = decode_rune b bs in (128 \<le> b \<longrightarrow> w \<noteq> 1) \<and> valid_runes (drop (w - 1) bs))"

definition valid_utf8 :: "bytes \<Rightarrow> bool" where
  "valid_utf8 s \<longleftrightarrow> valid_runes (map of_char s)"

definition encode_rune :: "nat \<Rightarrow> bytes" where
  "encode_rune r =
     (if r < 128 then [char_of r]
      else if r < 2048 then [char_of (192 + r div 64), char_of (128 + r mod 64)]
      else if r < 65536 then
        [char_of (224 + r div 4096), char_of (128 + r div 64 mod 64), char_of (128 + r mod 64)]
      else [char_of (240 + r div 262144), char_of (128 + r div 4096 mod 64),
            char_of (128 + r div 64 mod 64), char_of (128 + r mod 64)])"

definition scalar_value :: "nat \<Rightarrow> bool" where
  "scalar_value r \<longleftrightarrow> r < 55296 \<or> (57344 \<le> r \<and> r < 1114112)"

lemma valid_utf8_Nil [simp]: "valid_utf8 []"
  by (simp add: valid_utf8_def)

lemma valid_utf8_ascii: "(of_char c :: nat) < 128 \<Longrightarrow> valid_utf8 (c # s) = valid_utf8 s"
  by (simp add: valid_utf8_def decode_rune_def)

lemma valid_utf8_ascii_all: "list_all (\<lambda>c. (of_char c :: nat) < 128) s \<Longrightarrow> valid_utf8 s"
  by (induction s) (simp_all add: valid_utf8_ascii)

text \<open>A well formed sequence is decoded from its own bytes alone.\<close>

lemma decode_rune_local:
  assumes "decode_rune b bs = (r, w)" and "w \<noteq> 1"
  shows "decode_rune b (take (w - 1) bs @ t) = (r, w) \<and> 1 < w \<and> w \<le> Suc (length bs)"
  using assms
  by (cases bs; cases "tl bs"; cases "tl (tl bs)") (auto simp: decode_rune_def split: if_splits)

lemma valid_runes_append_rune:
  assumes "decode_rune b bs = (r, w)" and "w \<noteq> 1"
  shows "valid_runes (b # take (w - 1) bs @ t) = valid_runes t"
proof -
  have l: "decode_rune b (take (w - 1) bs @ t) = (r, w)" "1 < w" "w - 1 \<le> length bs"
    using decode_rune_local [OF assms, of t] by auto
  then have "min (length bs) (w - 1) = w - 1" by simp
  then have "drop (w - 1) (take (w - 1) bs @ t) = t" by simp
  then show ?thesis using l by simp
qed

lemma valid_utf8_rune:
  assumes "decode_rune (of_char c) (map of_char cs) = (r, w)" and "w \<noteq> 1"
  shows "valid_utf8 (c # take (w - 1) cs @ t) = valid_utf8 t"
  using valid_runes_append_rune [OF assms, of "map of_char t"] by (simp add: valid_utf8_def take_map)

lemma of_char_of_nat: "n < 256 \<Longrightarrow> (of_char (char_of n) :: nat) = n"
  by simp

lemma valid_runes_seq:
  "194 \<le> b0 \<Longrightarrow> b0 \<le> 223 \<Longrightarrow> second_ok b0 b1 \<Longrightarrow> valid_runes (b0 # b1 # t) = valid_runes t"
  "224 \<le> b0 \<Longrightarrow> b0 \<le> 239 \<Longrightarrow> second_ok b0 b1 \<Longrightarrow> cont_byte b2 \<Longrightarrow>
   valid_runes (b0 # b1 # b2 # t) = valid_runes t"
  "240 \<le> b0 \<Longrightarrow> b0 \<le> 244 \<Longrightarrow> second_ok b0 b1 \<Longrightarrow> cont_byte b2 \<Longrightarrow> cont_byte b3 \<Longrightarrow>
   valid_runes (b0 # b1 # b2 # b3 # t) = valid_runes t"
  by (simp_all add: decode_rune_def)

lemma cont_byte_add: "y < 64 \<Longrightarrow> cont_byte (128 + y)"
  by (simp add: cont_byte_def)

lemma base64_digits: "(r :: nat) = 4096 * (r div 4096) + 64 * (r div 64 mod 64) + r mod 64"
proof -
  have "r div 64 = 64 * (r div 64 div 64) + r div 64 mod 64" "r = 64 * (r div 64) + r mod 64"
    by (simp_all only: mult_div_mod_eq)
  moreover have "r div 64 div 64 = r div 4096" by (simp add: div_mult2_eq [symmetric])
  ultimately show ?thesis by linarith
qed

lemma valid_utf8_two:
  assumes "128 \<le> r" and "r < 2048"
  shows "valid_utf8 (encode_rune r @ t) = valid_utf8 t"
proof -
  define x where "x = r div 64"
  define y where "y = r mod 64"
  have b: "2 \<le> x" "x < 32" "y < 64" using assms by (auto simp: x_def y_def)
  have "encode_rune r = [char_of (192 + x), char_of (128 + y)]"
    using assms by (simp add: encode_rune_def x_def y_def)
  moreover have "valid_runes ((192 + x) # (128 + y) # u) = valid_runes u" for u
    using b by (intro valid_runes_seq(1)) (auto simp: second_ok_def cont_byte_def)
  ultimately show ?thesis using b by (simp add: valid_utf8_def of_char_of_nat del: valid_runes.simps of_char_of)
qed

lemma valid_utf8_three:
  assumes "2048 \<le> r" and "r < 65536" and "scalar_value r"
  shows "valid_utf8 (encode_rune r @ t) = valid_utf8 t"
proof -
  define x where "x = r div 4096"
  define y where "y = r div 64 mod 64"
  define z where "z = r mod 64"
  have r: "r = 4096 * x + 64 * y + z" using base64_digits [of r] by (simp add: x_def y_def z_def)
  have b: "x < 16" "y < 64" "z < 64" using assms by (auto simp: x_def y_def z_def)
  have c: "x = 0 \<longrightarrow> 32 \<le> y" "x = 13 \<longrightarrow> y < 32"
    using assms(1,3) b r by (auto simp: scalar_value_def)
  have "encode_rune r = [char_of (224 + x), char_of (128 + y), char_of (128 + z)]"
    using assms by (simp add: encode_rune_def x_def y_def z_def)
  moreover have "valid_runes ((224 + x) # (128 + y) # (128 + z) # u) = valid_runes u" for u
    using b c by (intro valid_runes_seq(2) cont_byte_add) (auto simp: second_ok_def cont_byte_def)
  ultimately show ?thesis using b by (simp add: valid_utf8_def of_char_of_nat del: valid_runes.simps of_char_of)
qed

lemma valid_utf8_four:
  assumes "65536 \<le> r" and "r < 1114112"
  shows "valid_utf8 (encode_rune r @ t) = valid_utf8 t"
proof -
  define x where "x = r div 262144"
  define y where "y = r div 4096 mod 64"
  define z where "z = r div 64 mod 64"
  define v where "v = r mod 64"
  have r: "r = 262144 * x + 4096 * y + 64 * z + v"
  proof -
    have "r div 64 = 4096 * x + 64 * y + z"
      using base64_digits [of "r div 64"] by (simp add: x_def y_def z_def div_mult2_eq [symmetric])
    moreover have "r = 64 * (r div 64) + v" unfolding v_def by (simp only: mult_div_mod_eq)
    ultimately show ?thesis by linarith
  qed
  have b: "x < 5" "y < 64" "z < 64" "v < 64" using assms by (auto simp: x_def y_def z_def v_def)
  have c: "x = 0 \<longrightarrow> 16 \<le> y" "x = 4 \<longrightarrow> y < 16" using assms b r by auto
  have "encode_rune r = [char_of (240 + x), char_of (128 + y), char_of (128 + z), char_of (128 + v)]"
    using assms by (simp add: encode_rune_def x_def y_def z_def v_def)
  moreover have "valid_runes ((240 + x) # (128 + y) # (128 + z) # (128 + v) # u) = valid_runes u" for u
    using b c by (intro valid_runes_seq(3) cont_byte_add) (auto simp: second_ok_def cont_byte_def)
  ultimately show ?thesis using b by (simp add: valid_utf8_def of_char_of_nat del: valid_runes.simps of_char_of)
qed

lemma valid_utf8_encode_rune:
  assumes "scalar_value r"
  shows "valid_utf8 (encode_rune r @ t) = valid_utf8 t"
proof -
  consider "r < 128" | "128 \<le> r" "r < 2048" | "2048 \<le> r" "r < 65536" | "65536 \<le> r" by linarith
  then show ?thesis
  proof cases
    case 1
    then show ?thesis by (simp add: encode_rune_def valid_utf8_ascii)
  next
    case 4
    with assms show ?thesis by (intro valid_utf8_four) (simp_all add: scalar_value_def)
  qed (use assms in \<open>simp_all add: valid_utf8_two valid_utf8_three\<close>)
qed

lemma nul_is_a_rune: "0 \<in> set bs \<Longrightarrow> 0 \<in> set (decode_runes bs)"
proof (induction bs rule: decode_runes.induct)
  case (2 b bs)
  obtain r w where rw: "decode_rune b bs = (r, w)" by fastforce
  have "0 \<notin> set (take (w - 1) bs)"
    using rw by (cases bs; cases "tl bs"; cases "tl (tl bs)")
      (auto simp: decode_rune_def second_ok_def cont_byte_def split: if_splits)
  then have "0 \<in> set bs \<Longrightarrow> 0 \<in> set (drop (w - 1) bs)" by (metis UnE append_take_drop_id set_append)
  moreover have "b = 0 \<Longrightarrow> r = 0" using rw by (simp add: decode_rune_def)
  ultimately show ?case using 2(1) [OF rw [symmetric] refl] 2(2) rw by auto
qed simp

lemma nul_byte_is_a_rune: "CHR 0x00 \<in> set s \<Longrightarrow> 0 \<in> set (runes s)"
  unfolding runes_def by (rule nul_is_a_rune) (force simp: image_iff)

section \<open>Hexadecimal\<close>

definition hex_digit :: "nat \<Rightarrow> char" where
  "hex_digit d = (if d < 10 then char_of (48 + d) else char_of (87 + d))"

definition hex_val :: "char \<Rightarrow> nat option" where
  "hex_val c = (let n = (of_char c :: nat) in
     if 48 \<le> n \<and> n \<le> 57 then Some (n - 48)
     else if 97 \<le> n \<and> n \<le> 102 then Some (n - 87)
     else if 65 \<le> n \<and> n \<le> 70 then Some (n - 55) else None)"

text \<open>\<open>hex.EncodeToString\<close>: two lower case digits for each byte.\<close>

definition hex_encode :: "bytes \<Rightarrow> string" where
  "hex_encode bs = concat (map (\<lambda>b. [hex_digit (of_char b div 16), hex_digit (of_char b mod 16)]) bs)"

text \<open>\<open>hex.DecodeString\<close>, what a receiver does with a secret it was shown.\<close>

fun hex_decode :: "string \<Rightarrow> bytes option" where
  "hex_decode [] = Some []"
| "hex_decode [c] = None"
| "hex_decode (c # d # cs) =
     (case (hex_val c, hex_val d, hex_decode cs) of
        (Some h, Some l, Some bs) \<Rightarrow> Some (char_of (16 * h + l) # bs)
      | _ \<Rightarrow> None)"

definition is_lower_hex :: "char \<Rightarrow> bool" where
  "is_lower_hex c \<longleftrightarrow> is_digit c \<or> (97 \<le> (of_char c :: nat) \<and> (of_char c :: nat) \<le> 102)"

lemma of_char_hex_digit:
  "d < 16 \<Longrightarrow> (of_char (hex_digit d) :: nat) = (if d < 10 then 48 + d else 87 + d)"
  by (simp add: hex_digit_def)

lemma hex_val_digit: "d < 16 \<Longrightarrow> hex_val (hex_digit d) = Some d"
  by (auto simp: hex_val_def of_char_hex_digit Let_def)

lemma is_lower_hex_digit: "d < 16 \<Longrightarrow> is_lower_hex (hex_digit d)"
  by (auto simp: is_lower_hex_def is_digit_def of_char_hex_digit)

lemma byte_lt: "(of_char c :: nat) < 256"
  using of_char_eq_iff nat_of_char_less_256 by simp

lemma byte_nibbles: "(of_char c :: nat) div 16 < 16" "(of_char c :: nat) mod 16 < 16"
  using byte_lt [of c] by (auto simp: less_mult_imp_div_less)

lemma hex_decode_encode: "hex_decode (hex_encode bs) = Some bs"
proof (induction bs)
  case Nil
  then show ?case by (simp add: hex_encode_def)
next
  case (Cons b bs)
  have "char_of (16 * (of_char b div 16) + of_char b mod 16 :: nat) = b"
    by (metis char_of_char mult_div_mod_eq)
  with Cons show ?case
    by (simp add: hex_encode_def hex_val_digit byte_nibbles)
qed

lemma hex_encode_inj: "hex_encode xs = hex_encode ys \<Longrightarrow> xs = ys"
  by (metis hex_decode_encode option.inject)

lemma length_hex_encode: "length (hex_encode bs) = 2 * length bs"
  by (induction bs) (simp_all add: hex_encode_def)

lemma hex_encode_lower: "list_all is_lower_hex (hex_encode bs)"
  by (induction bs) (simp_all add: hex_encode_def is_lower_hex_digit byte_nibbles)

end
