(* ===== verification/Domain.thy ===== *)
theory Domain
  imports Go_Std
begin

text \<open>
  The package \<open>internal/domain\<close>: the entities, the sentinel errors, the life cycle of a
  delivery (\<open>delivery.go\<close>), the outcome of an attempt (\<open>attempt.go\<close>), the circuit
  states (\<open>circuit_breaker.go\<close>), the URL check (\<open>endpoint.go\<close>) and the retry schedule
  (\<open>retry.go\<close>).

  Instants and random numbers are arguments: a function that reads the clock takes
  \<open>now\<close>, and \<open>applyJitter\<close> takes the function that stands for \<open>rand.Int63n\<close>.
  \<open>url.Parse\<close> is an argument of \<open>ValidateURL\<close>.
\<close>

section \<open>Errors\<close>

text \<open>The sentinels of \<open>errors.go\<close>, \<open>delivery.go\<close> and \<open>endpoint.go\<close>, the two of the
  service package, the sentinel of the event service, the driver's errors
  (\<open>pgx.ErrNoRows\<close>, a \<open>PgError\<close> with its SQLSTATE, a lost connection), and the chain
  made by \<open>fmt.Errorf("\<dots>%w")\<close>.\<close>

datatype err =
    ErrNotFound
  | ErrConflict
  | ErrUnprocessable
  | ErrInvalidURL
  | ErrInvalidTransition
  | ErrTenantNotFound
  | ErrTenantEndpointMismatch
  | ErrCachedResult
  | ErrNoRows
  | PgError string
  | ErrConn
  | ErrRand
  | ErrText string
  | Wrap string err

text \<open>\<open>errors.Is\<close> and the \<open>errors.As\<close> to a \<open>PgError\<close> walk the chain.\<close>

fun errors_is :: "err \<Rightarrow> err \<Rightarrow> bool" where
  "errors_is (Wrap m e) t \<longleftrightarrow> Wrap m e = t \<or> errors_is e t"
| "errors_is e t \<longleftrightarrow> e = t"

fun pg_code :: "err \<Rightarrow> string option" where
  "pg_code (Wrap m e) = pg_code e"
| "pg_code (PgError c) = Some c"
| "pg_code e = None"

abbreviation unique_violation :: string where "unique_violation \<equiv> ''23505''"
abbreviation fk_violation :: string where "fk_violation \<equiv> ''23503''"
abbreviation not_null_violation :: string where "not_null_violation \<equiv> ''23502''"
abbreviation check_violation :: string where "check_violation \<equiv> ''23514''"
abbreviation invalid_json :: string where "invalid_json \<equiv> ''22P02''"
abbreviation invalid_text :: string where "invalid_text \<equiv> ''22021''"
abbreviation invalid_limit :: string where "invalid_limit \<equiv> ''2201W''"
abbreviation invalid_offset :: string where "invalid_offset \<equiv> ''2201X''"

section \<open>Entities\<close>

record Tenant =
  tn_ID :: uuid
  tn_Name :: "string option"
  tn_CreatedAt :: instant

record Endpoint =
  ep_ID :: uuid
  ep_URL :: string
  ep_TenantID :: uuid
  ep_CreatedAt :: instant
  ep_SigningSecret :: "bytes option"

record Event =
  ev_ID :: uuid
  ev_EndpointID :: uuid
  ev_Payload :: bytes
  ev_SubmittedAt :: instant

text \<open>\<open>DeliveryStatus\<close> is a Go string type: beside its four constants it has the zero value.\<close>

datatype DeliveryStatus =
    StatusScheduled | StatusInFlight | StatusDelivered | StatusPermanentlyFailed | StatusZero

record Delivery =
  d_ID :: uuid
  d_EventID :: uuid
  d_EndpointID :: uuid
  d_Status :: DeliveryStatus
  d_AttemptCount :: int
  d_NextAttemptAt :: instant
  d_InFlightLeaseUntil :: "instant option"
  d_CreatedAt :: instant
  d_UpdatedAt :: instant
  d_SourceDeliveryID :: "uuid option"

datatype AttemptOutcome = OutcomeSuccess | OutcomeTransientFailure | OutcomePermanentFailure | OutcomeTimeout

record Attempt =
  a_ID :: uuid
  a_DeliveryID :: uuid
  a_Sequence :: int
  a_StartedAt :: instant
  a_CompletedAt :: "instant option"
  a_ResponseStatusCode :: "int option"
  a_Outcome :: AttemptOutcome
  a_ErrorReason :: "string option"

datatype CircuitState = CircuitClosed | CircuitOpen | CircuitHalfOpen

record CircuitBreakerInfo =
  cb_EndpointID :: uuid
  cb_State :: CircuitState
  cb_ConsecutiveFailures :: int
  cb_SuspendedUntil :: "instant option"

record DLQFilter =
  f_TenantID :: "uuid option"
  f_EndpointID :: "uuid option"

record DLQEntry =
  q_DeliveryID :: uuid
  q_EventID :: uuid
  q_EndpointID :: uuid
  q_TenantID :: uuid
  q_AttemptCount :: int
  q_FailedAt :: instant

text \<open>The string constants behind the three enumerations.\<close>

fun status_text :: "DeliveryStatus \<Rightarrow> string" where
  "status_text StatusScheduled = ''scheduled''"
| "status_text StatusInFlight = ''in_flight''"
| "status_text StatusDelivered = ''delivered''"
| "status_text StatusPermanentlyFailed = ''permanently_failed''"
| "status_text StatusZero = []"

fun outcome_text :: "AttemptOutcome \<Rightarrow> string" where
  "outcome_text OutcomeSuccess = ''success''"
| "outcome_text OutcomeTransientFailure = ''transient_failure''"
| "outcome_text OutcomePermanentFailure = ''permanent_failure''"
| "outcome_text OutcomeTimeout = ''timeout''"

fun circuit_text :: "CircuitState \<Rightarrow> string" where
  "circuit_text CircuitClosed = ''closed''"
| "circuit_text CircuitOpen = ''open''"
| "circuit_text CircuitHalfOpen = ''half_open''"

text \<open>The zero \<open>time.Time\<close>, 0001-01-01 00:00:00 UTC.\<close>

definition zero_time :: instant where
  "zero_time = - 62135596800 * 1000000000"

section \<open>Outcomes\<close>

definition IsTerminal :: "AttemptOutcome \<Rightarrow> bool" where
  "IsTerminal out \<longleftrightarrow> out = OutcomeSuccess \<or> out = OutcomePermanentFailure"

definition IsRetryable :: "AttemptOutcome \<Rightarrow> bool" where
  "IsRetryable out \<longleftrightarrow> out = OutcomeTransientFailure \<or> out = OutcomeTimeout"

lemma IsRetryable_iff_not_terminal: "IsRetryable out \<longleftrightarrow> \<not> IsTerminal out"
  by (cases out) (auto simp: IsRetryable_def IsTerminal_def)

section \<open>The life cycle of a delivery\<close>

text \<open>A method with a pointer receiver that returns an error: the new delivery on
  success; on failure the receiver is unchanged.\<close>

definition Delivery_MarkInFlight :: "instant \<Rightarrow> Delivery \<Rightarrow> err + Delivery" where
  "Delivery_MarkInFlight leaseUntil d =
     (if d_Status d \<noteq> StatusScheduled then Inl (Wrap (status_text (d_Status d) @ '' -> in_flight'') ErrInvalidTransition)
      else Inr (d\<lparr>d_Status := StatusInFlight, d_InFlightLeaseUntil := Some leaseUntil\<rparr>))"

definition Delivery_MarkDelivered :: "Delivery \<Rightarrow> err + Delivery" where
  "Delivery_MarkDelivered d =
     (if d_Status d \<noteq> StatusInFlight then Inl (Wrap (status_text (d_Status d) @ '' -> delivered'') ErrInvalidTransition)
      else Inr (d\<lparr>d_Status := StatusDelivered, d_InFlightLeaseUntil := None,
                 d_AttemptCount := d_AttemptCount d + 1\<rparr>))"

definition Delivery_MarkPermanentlyFailed :: "Delivery \<Rightarrow> err + Delivery" where
  "Delivery_MarkPermanentlyFailed d =
     (if d_Status d \<noteq> StatusInFlight
      then Inl (Wrap (status_text (d_Status d) @ '' -> permanently_failed'') ErrInvalidTransition)
      else Inr (d\<lparr>d_Status := StatusPermanentlyFailed, d_InFlightLeaseUntil := None,
                 d_AttemptCount := d_AttemptCount d + 1\<rparr>))"

definition Delivery_RescheduleAfter :: "duration \<Rightarrow> instant \<Rightarrow> Delivery \<Rightarrow> err + Delivery" where
  "Delivery_RescheduleAfter delay now d =
     (if d_Status d \<noteq> StatusInFlight
      then Inl (Wrap (status_text (d_Status d) @ '' -> scheduled (reschedule)'') ErrInvalidTransition)
      else Inr (d\<lparr>d_Status := StatusScheduled, d_InFlightLeaseUntil := None,
                 d_NextAttemptAt := now + delay, d_AttemptCount := d_AttemptCount d + 1\<rparr>))"

text \<open>The transition diagram the four methods are meant to enforce.\<close>

inductive lifecycle :: "DeliveryStatus \<Rightarrow> DeliveryStatus \<Rightarrow> bool" where
  claim: "lifecycle StatusScheduled StatusInFlight"
| deliver: "lifecycle StatusInFlight StatusDelivered"
| give_up: "lifecycle StatusInFlight StatusPermanentlyFailed"
| retry: "lifecycle StatusInFlight StatusScheduled"

inductive_simps lifecycle_from_delivered: "lifecycle StatusDelivered t"
inductive_simps lifecycle_from_failed: "lifecycle StatusPermanentlyFailed t"
inductive_simps lifecycle_from_scheduled: "lifecycle StatusScheduled t"
inductive_simps lifecycle_from_in_flight: "lifecycle StatusInFlight t"

code_pred lifecycle .

lemma lifecycle_final:
  "s \<in> {StatusDelivered, StatusPermanentlyFailed} \<Longrightarrow> \<not> lifecycle s t"
  by (auto simp: lifecycle_from_delivered lifecycle_from_failed)

text \<open>The delivery whose lease is set exactly while it is in flight.\<close>

definition lease_ok :: "Delivery \<Rightarrow> bool" where
  "lease_ok d \<longleftrightarrow> (d_InFlightLeaseUntil d \<noteq> None \<longleftrightarrow> d_Status d = StatusInFlight)"

lemmas lifecycle_methods =
  Delivery_MarkInFlight_def Delivery_MarkDelivered_def
  Delivery_MarkPermanentlyFailed_def Delivery_RescheduleAfter_def

section \<open>Endpoint URLs\<close>

record parsed_url =
  u_Scheme :: string
  u_Host :: string

text \<open>\<open>parse\<close> stands for \<open>url.Parse\<close>.\<close>

definition ValidateURL :: "(string \<Rightarrow> string + parsed_url) \<Rightarrow> string \<Rightarrow> err option" where
  "ValidateURL parse rawURL =
     (if rawURL = [] then Some (Wrap ''empty'' ErrInvalidURL)
      else if length rawURL > 2048 then Some (Wrap ''exceeds 2048 chars'' ErrInvalidURL)
      else case parse rawURL of
        Inl e \<Rightarrow> Some (Wrap e ErrInvalidURL)
      | Inr u \<Rightarrow>
          (let scheme = ToLower (u_Scheme u) in
           if scheme \<noteq> ''http'' \<and> scheme \<noteq> ''https''
           then Some (Wrap (''scheme must be http or https, got '' @ u_Scheme u) ErrInvalidURL)
           else if u_Host u = [] then Some (Wrap ''missing host'' ErrInvalidURL)
           else None))"

lemma ValidateURL_is_invalid_url:
  "ValidateURL parse s = Some e \<Longrightarrow> errors_is e ErrInvalidURL"
  by (auto simp: ValidateURL_def Let_def split: if_splits sum.splits)

lemma ValidateURL_ok_iff:
  "ValidateURL parse s = None \<longleftrightarrow>
     s \<noteq> [] \<and> length s \<le> 2048 \<and>
     (\<exists>u. parse s = Inr u \<and> ToLower (u_Scheme u) \<in> {''http'', ''https''} \<and> u_Host u \<noteq> [])"
  by (auto simp: ValidateURL_def Let_def split: sum.splits)

section \<open>Retry schedule\<close>

abbreviation millisecond :: duration where "millisecond \<equiv> 1000000"
abbreviation second :: duration where "second \<equiv> 1000000000"
abbreviation minute :: duration where "minute \<equiv> 60 * second"
abbreviation hour :: duration where "hour \<equiv> 60 * minute"

definition productionSchedule :: "duration list" where
  "productionSchedule =
     [1 * second, 5 * second, 30 * second, 5 * minute, 30 * minute, 2 * hour, 8 * hour, 24 * hour]"

definition MaxAttempts :: int where "MaxAttempts = 1 + 8"

text \<open>\<open>UseShortScheduleForTests\<close> installs a fast schedule and returns the one to restore.
  The package variable \<open>activeSchedule\<close> is the argument and the first result.\<close>

definition UseShortScheduleForTests :: "duration list \<Rightarrow> duration list \<times> duration list" where
  "UseShortScheduleForTests activeSchedule =
     ([10 * millisecond, 20 * millisecond, 40 * millisecond, 80 * millisecond,
       160 * millisecond, 320 * millisecond, 640 * millisecond, 1280 * millisecond], activeSchedule)"

text \<open>\<open>rnd n\<close> is the value drawn by \<open>rand.Int63n(n)\<close>, documented to lie in \<open>[0, n)\<close>
  for positive \<open>n\<close>.  The product is an \<open>int64\<close> product.\<close>

definition Int63n_range :: "(int \<Rightarrow> int) \<Rightarrow> bool" where
  "Int63n_range rnd \<longleftrightarrow> (\<forall>n > 0. 0 \<le> rnd n \<and> rnd n < n)"

definition applyJitter :: "(int \<Rightarrow> int) \<Rightarrow> duration \<Rightarrow> duration" where
  "applyJitter rnd base =
     (if base \<le> 0 then 0
      else let span = go_div (wrap64 (base * 30)) 100 in
        if span \<le> 0 then base
        else wrap64 (base + (rnd span - go_div span 2)))"

definition Delay :: "duration list \<Rightarrow> (int \<Rightarrow> int) \<Rightarrow> int \<Rightarrow> duration" where
  "Delay activeSchedule rnd attemptNumber =
     (if attemptNumber < 2 \<or> attemptNumber > MaxAttempts then 0
      else let idx = nat (attemptNumber - 2) in
        if idx \<ge> length activeSchedule then 0
        else applyJitter rnd (activeSchedule ! idx))"

text \<open>Jitter keeps a positive base that cannot overflow within 15 percent on either side,
  up to the rounding of one nanosecond.\<close>

lemma applyJitter_bounds:
  assumes "Int63n_range rnd" and "0 < base" and "base \<le> 2 ^ 57"
  shows "85 * base \<le> 100 * applyJitter rnd base \<and> 100 * applyJitter rnd base < 115 * base + 100"
proof (cases "base * 30 div 100 = 0")
  case True
  moreover have "wrap64 (base * 30) = base * 30"
    using assms by (intro wrap64_id) (auto simp: min_int64_def max_int64_def)
  ultimately show ?thesis using assms by (simp add: applyJitter_def go_div_nonneg)
next
  case False
  define span where "span = base * 30 div 100"
  have w: "wrap64 (base * 30) = base * 30"
    using assms by (intro wrap64_id) (auto simp: min_int64_def max_int64_def)
  have "0 \<le> span" using assms(2) by (simp add: span_def)
  with False have pos: "0 < span" by (simp add: span_def)
  have up: "100 * span \<le> 30 * base" by (simp add: span_def)
  have r: "0 \<le> rnd span" "rnd span < span"
    using assms(1) pos by (auto simp: Int63n_range_def)
  have half: "span - 1 \<le> 2 * (span div 2)" "2 * (span div 2) \<le> span" by presburger+
  have v: "wrap64 (base + (rnd span - span div 2)) = base + (rnd span - span div 2)"
    using assms(2,3) r up half pos
    by (intro wrap64_id) (auto simp: min_int64_def max_int64_def)
  have "applyJitter rnd base = base + (rnd span - span div 2)"
    using assms(2) pos w v by (simp add: applyJitter_def go_div_nonneg span_def [symmetric])
  then show ?thesis using r up half by simp
qed

lemma production_nth:
  "k < 8 \<Longrightarrow> 0 < productionSchedule ! k \<and> productionSchedule ! k \<le> 2 ^ 57"
  by (auto simp: productionSchedule_def less_Suc_eq numeral_eq_Suc)

lemma production_growth:
  "k < 7 \<Longrightarrow> 115 * productionSchedule ! k + 100 \<le> 85 * productionSchedule ! Suc k"
  by (auto simp: productionSchedule_def less_Suc_eq numeral_eq_Suc)

lemma Delay_production:
  "2 \<le> n \<Longrightarrow> n \<le> 9 \<Longrightarrow> Delay productionSchedule rnd n = applyJitter rnd (productionSchedule ! nat (n - 2))"
proof -
  assume n: "2 \<le> n" "n \<le> 9"
  then have "nat (n - 2) < 8" by linarith
  moreover have "length productionSchedule = 8" by (simp add: productionSchedule_def)
  ultimately show ?thesis using n by (simp add: Delay_def MaxAttempts_def Let_def)
qed

section \<open>Properties\<close>

text \<open>C33. Every back-off of the production schedule stays within 15 percent of its base, up to the
  rounding of one nanosecond, for every random source that draws in its documented range; the
  first attempt and the numbers beyond the budget have no delay.\<close>

theorem backoff_within_bounds:
  assumes "Int63n_range rnd"
  shows "(2 \<le> n \<and> n \<le> MaxAttempts \<longrightarrow>
      85 * productionSchedule ! nat (n - 2) \<le> 100 * Delay productionSchedule rnd n \<and>
      100 * Delay productionSchedule rnd n < 115 * productionSchedule ! nat (n - 2) + 100) \<and>
    (n < 2 \<or> MaxAttempts < n \<longrightarrow> Delay productionSchedule rnd n = 0)"
proof (intro conjI impI)
  assume "2 \<le> n \<and> n \<le> MaxAttempts"
  then have n: "2 \<le> n" "n \<le> 9" by (simp_all add: MaxAttempts_def)
  then have k: "nat (n - 2) < 8" by linarith
  show "85 * productionSchedule ! nat (n - 2) \<le> 100 * Delay productionSchedule rnd n"
    and "100 * Delay productionSchedule rnd n < 115 * productionSchedule ! nat (n - 2) + 100"
    using applyJitter_bounds [OF assms] production_nth [OF k] Delay_production [OF n] by simp_all
qed (auto simp: Delay_def)

theorem backoff_within_bounds_witness:
  "850000000 \<le> Delay productionSchedule (\<lambda>_. 0) 2 \<and> Delay productionSchedule (\<lambda>_. 0) 2 < 1150000001"
  using backoff_within_bounds [of "\<lambda>_. 0" 2]
  by (simp add: Int63n_range_def MaxAttempts_def productionSchedule_def)

text \<open>The back-off grows strictly from attempt to attempt, whatever the jitter draws each
  time.\<close>

theorem backoff_grows:
  assumes "Int63n_range rnd" and "Int63n_range rnd'" and "2 \<le> n" and "n < MaxAttempts"
  shows "Delay productionSchedule rnd n < Delay productionSchedule rnd' (n + 1)"
proof -
  have n: "2 \<le> n" "n \<le> 8" using assms(3,4) by (simp_all add: MaxAttempts_def)
  then have k: "nat (n - 2) < 7" "nat (n + 1 - 2) = Suc (nat (n - 2))" by linarith+
  have "100 * Delay productionSchedule rnd n < 115 * productionSchedule ! nat (n - 2) + 100"
    using applyJitter_bounds [OF assms(1)] production_nth k(1) Delay_production n by simp
  moreover have "85 * productionSchedule ! Suc (nat (n - 2)) \<le> 100 * Delay productionSchedule rnd' (n + 1)"
    using applyJitter_bounds [OF assms(2)] production_nth [of "Suc (nat (n - 2))"] k Delay_production [of "n + 1" rnd'] n
    by simp
  ultimately show ?thesis using production_growth [OF k(1)] by simp
qed

theorem backoff_grows_witness:
  "Delay productionSchedule (\<lambda>n. n - 1) 3 < Delay productionSchedule (\<lambda>_. 0) 4"
  using backoff_grows [of "\<lambda>n. n - 1" "\<lambda>_. 0" 3] by (simp add: Int63n_range_def MaxAttempts_def)

text \<open>The four methods of a delivery enforce its life cycle: a call succeeds exactly when the
  transition is in the diagram, moves along it, keeps the lease set exactly in flight and counts
  an attempt exactly when it leaves \<open>in_flight\<close>; a delivered or failed delivery can be moved by
  none of them.\<close>

theorem methods_enforce_lifecycle:
  "(\<forall>d'. Delivery_MarkInFlight lease d = Inr d' \<longrightarrow> lifecycle (d_Status d) (d_Status d') \<and> lease_ok d' \<and>
      d_AttemptCount d' = d_AttemptCount d) \<and>
   (\<forall>d'. Delivery_MarkDelivered d = Inr d' \<or> Delivery_MarkPermanentlyFailed d = Inr d' \<or>
      Delivery_RescheduleAfter delay now d = Inr d' \<longrightarrow> lifecycle (d_Status d) (d_Status d') \<and> lease_ok d' \<and>
      d_AttemptCount d' = d_AttemptCount d + 1) \<and>
   ((\<exists>e. Delivery_MarkInFlight lease d = Inl e) \<longleftrightarrow> \<not> lifecycle (d_Status d) StatusInFlight) \<and>
   ((\<exists>e. Delivery_MarkDelivered d = Inl e) \<longleftrightarrow> \<not> lifecycle (d_Status d) StatusDelivered) \<and>
   ((\<exists>e. Delivery_MarkPermanentlyFailed d = Inl e) \<longleftrightarrow> \<not> lifecycle (d_Status d) StatusPermanentlyFailed) \<and>
   ((\<exists>e. Delivery_RescheduleAfter delay now d = Inl e) \<longleftrightarrow> \<not> lifecycle (d_Status d) StatusScheduled) \<and>
   (d_Status d \<in> {StatusDelivered, StatusPermanentlyFailed} \<longrightarrow> (\<forall>st. \<not> lifecycle (d_Status d) st))"
  by (cases "d_Status d")
    (auto simp: lifecycle_methods lease_ok_def lifecycle_from_scheduled lifecycle_from_in_flight
      lifecycle_from_delivered lifecycle_from_failed elim: lifecycle.cases)

theorem methods_enforce_lifecycle_witness:
  "\<not> lifecycle StatusDelivered StatusScheduled \<and> lifecycle StatusScheduled StatusInFlight"
proof
  define d where "d = \<lparr>d_ID = 1, d_EventID = 1, d_EndpointID = 1, d_Status = StatusDelivered, d_AttemptCount = 1,
    d_NextAttemptAt = 0, d_InFlightLeaseUntil = None, d_CreatedAt = 0, d_UpdatedAt = 0, d_SourceDeliveryID = None\<rparr>"
  show "\<not> lifecycle StatusDelivered StatusScheduled"
    using methods_enforce_lifecycle [of 0 d 0 0] by (simp add: d_def)
  show "lifecycle StatusScheduled StatusInFlight"
    using methods_enforce_lifecycle [of 0 "d\<lparr>d_Status := StatusScheduled\<rparr>" 0 0]
    by (simp add: d_def Delivery_MarkInFlight_def)
qed

end
