(* ===== verification/Database.thy ===== *)
theory Database
  imports Domain
begin

text \<open>
  The PostgreSQL database the program keeps its state in: one record field per table of
  \<open>internal/store/migrations\<close> (a table is the list of its rows), the constraints the
  migrations declare, and statement execution.

  The clock of \<open>NOW()\<close> is the field \<open>now_ts\<close>.  Generated keys
  (\<open>gen_random_uuid()\<close>) come from the stream \<open>uuid_src\<close>, of which \<open>uuid_pos\<close> values
  have been used; nothing is assumed of the stream, the primary key check of an
  \<open>INSERT\<close> is part of the model.  The field \<open>faults\<close> says what becomes of the next
  statements sent over the connection: each one succeeds, is lost before it takes effect,
  or takes effect and loses its answer.  A theorem about every state is therefore a
  theorem about every pattern of connection failures.

  \<open>schema_ok\<close> is what the declared constraints guarantee; the insertions and updates
  below check them as the server does.  \<open>consistent\<close> adds what the program itself keeps
  true between columns.
\<close>

section \<open>Tables\<close>

text \<open>The enumeration type \<open>delivery_status\<close>; the queries spell "not terminal" as
  \<open>NOT IN ('delivered', 'permanently_failed')\<close>.\<close>

datatype delivery_status = Scheduled | InFlight | Delivered | PermanentlyFailed

fun terminal :: "delivery_status \<Rightarrow> bool" where
  "terminal Delivered = True"
| "terminal PermanentlyFailed = True"
| "terminal Scheduled = False"
| "terminal InFlight = False"

lemma terminal_iff: "terminal st \<longleftrightarrow> st = Delivered \<or> st = PermanentlyFailed"
  by (cases st) auto

lemma not_terminal_iff: "\<not> terminal st \<longleftrightarrow> st = Scheduled \<or> st = InFlight"
  by (cases st) auto

record tenant_row =
  tr_id :: uuid
  tr_name :: "string option"
  tr_created_at :: instant

record endpoint_row =
  er_id :: uuid
  er_url :: string
  er_created_at :: instant
  er_signing_secret :: bytes
  er_tenant_id :: uuid
  er_circuit_state :: CircuitState
  er_failure_count :: int
  er_suspended_until :: "instant option"
  er_sensitive_recovery :: bool
  er_probe_delivery_id :: "uuid option"

record event_row =
  vr_id :: uuid
  vr_endpoint_id :: uuid
  vr_tenant_id :: uuid
  vr_payload :: bytes
  vr_submitted_at :: instant

record delivery_row =
  dr_id :: uuid
  dr_event_id :: uuid
  dr_endpoint_id :: uuid
  dr_tenant_id :: uuid
  dr_status :: delivery_status
  dr_attempt_count :: int
  dr_next_attempt_at :: instant
  dr_lease_until :: "instant option"
  dr_created_at :: instant
  dr_updated_at :: instant
  dr_source_delivery_id :: "uuid option"

record attempt_row =
  ar_id :: uuid
  ar_delivery_id :: uuid
  ar_sequence :: int
  ar_started_at :: instant
  ar_completed_at :: "instant option"
  ar_response_status_code :: "int option"
  ar_outcome :: AttemptOutcome
  ar_error_reason :: "string option"

record idempotency_row =
  ir_id :: uuid
  ir_endpoint_id :: uuid
  ir_key :: string
  ir_payload_hash :: string
  ir_event_id :: "uuid option"
  ir_delivery_id :: "uuid option"
  ir_created_at :: instant
  ir_expires_at :: instant

datatype fault = Fine | LostRequest | LostAnswer

record db =
  tenants :: "tenant_row list"
  endpoints :: "endpoint_row list"
  events :: "event_row list"
  deliveries :: "delivery_row list"
  attempts :: "attempt_row list"
  idempotency_records :: "idempotency_row list"
  now_ts :: instant
  uuid_src :: "nat \<Rightarrow> uuid"
  uuid_pos :: nat
  faults :: "fault list"

type_synonym 'a dbprog = "(err, db, 'a) prog"

abbreviation tenant_ids :: "db \<Rightarrow> uuid set" where "tenant_ids s \<equiv> tr_id ` set (tenants s)"
abbreviation endpoint_ids :: "db \<Rightarrow> uuid set" where "endpoint_ids s \<equiv> er_id ` set (endpoints s)"
abbreviation event_ids :: "db \<Rightarrow> uuid set" where "event_ids s \<equiv> vr_id ` set (events s)"
abbreviation delivery_ids :: "db \<Rightarrow> uuid set" where "delivery_ids s \<equiv> dr_id ` set (deliveries s)"

section \<open>Statements, connection failures, transactions\<close>

definition stmt :: "'a dbprog \<Rightarrow> 'a dbprog" where
  "stmt f s =
     (case faults s of
        [] \<Rightarrow> f s
      | Fine # fs \<Rightarrow> f (s\<lparr>faults := fs\<rparr>)
      | LostRequest # fs \<Rightarrow> (Inl ErrConn, s\<lparr>faults := fs\<rparr>)
      | LostAnswer # fs \<Rightarrow> (Inl ErrConn, snd (f (s\<lparr>faults := fs\<rparr>))))"

lemma stmt_fine [simp]: "faults s = [] \<Longrightarrow> stmt f s = f s"
  by (simp add: stmt_def)

text \<open>Rolling back restores the tables; used key values and the connection's
  history are not restored.\<close>

definition rollback :: "db \<Rightarrow> db \<Rightarrow> db" where
  "rollback s0 s = s0\<lparr>uuid_pos := uuid_pos s, faults := faults s\<rparr>"

text \<open>\<open>store.InTx\<close>: begin, run, commit; roll back on an error of the body or of the
  commit.  A commit whose answer is lost has taken effect.  The body is a closure: the
  variable of the caller it assigns to is the second component of the state, and a
  rollback does not undo the assignment.\<close>

definition InTx :: "(err, db \<times> 'v, 'a) prog \<Rightarrow> (err, db \<times> 'v, 'a) prog" where
  "InTx fn sv =
     (case stmt (returnP ()) (fst sv) of
        (Inl e, s1) \<Rightarrow> (Inl (Wrap ''begin tx'' e), (s1, snd sv))
      | (Inr _, s1) \<Rightarrow>
          (case fn (s1, snd sv) of
             (Inl e, (s2, v)) \<Rightarrow> (Inl e, (rollback s1 s2, v))
           | (Inr x, (s2, v)) \<Rightarrow>
               (case faults s2 of
                  LostRequest # fs \<Rightarrow> (Inl (Wrap ''commit tx'' ErrConn), (rollback s1 (s2\<lparr>faults := fs\<rparr>), v))
                | LostAnswer # fs \<Rightarrow> (Inl (Wrap ''commit tx'' ErrConn), (s2\<lparr>faults := fs\<rparr>, v))
                | Fine # fs \<Rightarrow> (Inr x, (s2\<lparr>faults := fs\<rparr>, v))
                | [] \<Rightarrow> (Inr x, (s2, v)))))"

text \<open>A statement of the transaction, and an assignment to the captured variable.\<close>

definition liftV :: "'a dbprog \<Rightarrow> (err, db \<times> 'v, 'a) prog" where
  "liftV m sv = (case m (fst sv) of (r, s') \<Rightarrow> (r, (s', snd sv)))"

definition setV :: "'v \<Rightarrow> (err, db \<times> 'v, unit) prog" where
  "setV v sv = (Inr (), (fst sv, v))"

text \<open>A predicate on the tables does not look at the connection or at the key supply.\<close>

definition table_pred :: "(db \<Rightarrow> bool) \<Rightarrow> bool" where
  "table_pred I \<longleftrightarrow> (\<forall>s fs n. I (s\<lparr>faults := fs\<rparr>) = I s \<and> I (s\<lparr>uuid_pos := n\<rparr>) = I s)"

lemma preserves_stmt:
  assumes "table_pred I" and "preserves I f"
  shows "preserves I (stmt f)"
  using assms
  by (auto simp: preserves_def table_pred_def stmt_def split: list.splits fault.splits)

lemma faults_Nil_update [simp]: "faults s = [] \<Longrightarrow> s\<lparr>faults := []\<rparr> = s"
  by (cases s) simp

lemma stmt_cases_state:
  "snd (stmt f s) = snd (f (s\<lparr>faults := tl (faults s)\<rparr>)) \<or>
   snd (stmt f s) = s\<lparr>faults := tl (faults s)\<rparr>"
  by (cases "faults s") (auto simp: stmt_def split: fault.splits)

lemma stmt_Inr_D:
  "stmt f s = (Inr x, s') \<Longrightarrow> f (s\<lparr>faults := tl (faults s)\<rparr>) = (Inr x, s')"
  by (cases "faults s") (auto simp: stmt_def split: fault.splits)

text \<open>A transaction keeps what its body keeps whenever the body succeeds.\<close>

lemma InTx_keeps:
  assumes tp: "table_pred I" and fn: "\<And>s v x s' v'. I s \<Longrightarrow> fn (s, v) = (Inr x, (s', v')) \<Longrightarrow> I s'"
    and start: "I s"
  shows "I (fst (snd (InTx fn (s, v))))"
proof -
  have rb: "I (rollback a b) = I a" for a b
    using tp by (simp add: table_pred_def rollback_def)
  have fl: "I (a\<lparr>faults := fs\<rparr>) = I a" for a fs
    using tp by (simp add: table_pred_def)
  obtain r s1 where s1: "stmt (returnP ()) s = (r, s1)" by fastforce
  have "preserves I (stmt (returnP () :: unit dbprog))"
    by (rule preserves_stmt [OF tp preserves_return])
  from preservesD_eq [OF this start s1] have "I s1" .
  moreover obtain q s2 v2 where s2: "fn (s1, v) = (q, (s2, v2))"
    by (cases "fn (s1, v)") auto
  ultimately have "q = Inr x \<Longrightarrow> I s2" for x using fn by blast
  with \<open>I s1\<close> s1 s2 show ?thesis
    by (auto simp: InTx_def rb fl split: sum.splits list.splits fault.splits)
qed

lemma InTx_fine:
  assumes "faults s = []"
  shows "InTx fn (s, v) =
    (case fn (s, v) of
       (Inl e, (s2, v2)) \<Rightarrow> (Inl e, (rollback s s2, v2))
     | (Inr x, (s2, v2)) \<Rightarrow>
         (case faults s2 of
            LostRequest # fs \<Rightarrow> (Inl (Wrap ''commit tx'' ErrConn), (rollback s (s2\<lparr>faults := fs\<rparr>), v2))
          | LostAnswer # fs \<Rightarrow> (Inl (Wrap ''commit tx'' ErrConn), (s2\<lparr>faults := fs\<rparr>, v2))
          | Fine # fs \<Rightarrow> (Inr x, (s2\<lparr>faults := fs\<rparr>, v2))
          | [] \<Rightarrow> (Inr x, (s2, v2))))"
  using assms by (simp add: InTx_def)

section \<open>Constraints\<close>

definition keys_ok :: "db \<Rightarrow> bool" where
  "keys_ok s \<longleftrightarrow>
     distinct (map tr_id (tenants s)) \<and> distinct (map er_id (endpoints s)) \<and>
     distinct (map vr_id (events s)) \<and> distinct (map dr_id (deliveries s)) \<and>
     distinct (map ar_id (attempts s)) \<and> distinct (map ir_id (idempotency_records s))"

definition refs_ok :: "db \<Rightarrow> bool" where
  "refs_ok s \<longleftrightarrow>
     (\<forall>e \<in> set (endpoints s). er_tenant_id e \<in> tenant_ids s \<and>
        (\<forall>p. er_probe_delivery_id e = Some p \<longrightarrow> p \<in> delivery_ids s)) \<and>
     (\<forall>v \<in> set (events s). vr_endpoint_id v \<in> endpoint_ids s \<and> vr_tenant_id v \<in> tenant_ids s) \<and>
     (\<forall>d \<in> set (deliveries s). dr_event_id d \<in> event_ids s \<and> dr_endpoint_id d \<in> endpoint_ids s \<and>
        dr_tenant_id d \<in> tenant_ids s \<and>
        (\<forall>p. dr_source_delivery_id d = Some p \<longrightarrow> p \<in> delivery_ids s)) \<and>
     (\<forall>a \<in> set (attempts s). ar_delivery_id a \<in> delivery_ids s) \<and>
     (\<forall>i \<in> set (idempotency_records s). ir_endpoint_id i \<in> endpoint_ids s \<and>
        (\<forall>v. ir_event_id i = Some v \<longrightarrow> v \<in> event_ids s) \<and>
        (\<forall>d. ir_delivery_id i = Some d \<longrightarrow> d \<in> delivery_ids s))"

text \<open>The unique partial index \<open>idx_deliveries_one_active_replay\<close>.\<close>

definition active_replay :: "delivery_row \<Rightarrow> bool" where
  "active_replay d \<longleftrightarrow> dr_source_delivery_id d \<noteq> None \<and>
     (dr_status d = Scheduled \<or> dr_status d = InFlight)"

definition replay_index_ok :: "delivery_row list \<Rightarrow> bool" where
  "replay_index_ok rows \<longleftrightarrow> distinct (map dr_source_delivery_id (filter active_replay rows))"

definition uniques_ok :: "db \<Rightarrow> bool" where
  "uniques_ok s \<longleftrightarrow>
     distinct (map (\<lambda>a. (ar_delivery_id a, ar_sequence a)) (attempts s)) \<and>
     distinct (map (\<lambda>i. (ir_endpoint_id i, ir_key i)) (idempotency_records s)) \<and>
     replay_index_ok (deliveries s)"

definition schema_ok :: "db \<Rightarrow> bool" where
  "schema_ok s \<longleftrightarrow> keys_ok s \<and> refs_ok s \<and> uniques_ok s"

text \<open>The \<open>CHECK\<close> constraints; \<open>length\<close> of a \<open>TEXT\<close> counts characters.\<close>

definition url_check :: "string \<Rightarrow> bool" where
  "url_check url \<longleftrightarrow> take 7 (ToLower url) = ''http://'' \<or> take 8 (ToLower url) = ''https://''"

definition name_check :: "string option \<Rightarrow> bool" where
  "name_check name \<longleftrightarrow> (case name of None \<Rightarrow> True | Some n \<Rightarrow> 1 \<le> length (runes n) \<and> length (runes n) \<le> 255)"

text \<open>What the server takes as the value of a \<open>TEXT\<close> parameter: valid UTF-8 without NUL.\<close>

definition text_ok :: "string \<Rightarrow> bool" where
  "text_ok s \<longleftrightarrow> valid_utf8 s \<and> CHR 0x00 \<notin> set s"

lemma text_ok_ascii: "list_all (\<lambda>c. 0 < (of_char c :: nat) \<and> (of_char c :: nat) < 128) s \<Longrightarrow> text_ok s"
  by (auto simp: text_ok_def list_all_iff intro!: valid_utf8_ascii_all)

section \<open>Insertions\<close>

text \<open>\<open>insert_row\<close> takes the next generated key, builds the row and checks it: the error
  code of the first violated constraint, or the row, appended to its table.\<close>

definition insert_row ::
  "(uuid \<Rightarrow> 'r) \<Rightarrow> (db \<Rightarrow> 'r \<Rightarrow> string option) \<Rightarrow> ('r \<Rightarrow> db \<Rightarrow> db) \<Rightarrow> 'r dbprog" where
  "insert_row mk check add s =
     (let i = uuid_src s (uuid_pos s); s1 = s\<lparr>uuid_pos := Suc (uuid_pos s)\<rparr>; r = mk i in
      case check s1 r of Some code \<Rightarrow> (Inl (PgError code), s1) | None \<Rightarrow> (Inr r, add r s1))"

definition check_tenant :: "db \<Rightarrow> tenant_row \<Rightarrow> string option" where
  "check_tenant s r =
     (if \<not> pred_option text_ok (tr_name r) then Some invalid_text
      else if \<not> name_check (tr_name r) then Some check_violation
      else if tr_id r \<in> tenant_ids s then Some unique_violation else None)"

definition check_endpoint :: "db \<Rightarrow> endpoint_row \<Rightarrow> string option" where
  "check_endpoint s r =
     (if \<not> text_ok (er_url r) then Some invalid_text
      else if \<not> url_check (er_url r) then Some check_violation
      else if er_id r \<in> endpoint_ids s then Some unique_violation
      else if er_tenant_id r \<notin> tenant_ids s then Some fk_violation else None)"

definition check_event :: "db \<Rightarrow> event_row \<Rightarrow> string option" where
  "check_event s r =
     (if vr_id r \<in> event_ids s then Some unique_violation
      else if vr_endpoint_id r \<notin> endpoint_ids s \<or> vr_tenant_id r \<notin> tenant_ids s then Some fk_violation
      else None)"

definition check_delivery :: "db \<Rightarrow> delivery_row \<Rightarrow> string option" where
  "check_delivery s r =
     (if dr_id r \<in> delivery_ids s \<or> \<not> replay_index_ok (deliveries s @ [r]) then Some unique_violation
      else if dr_event_id r \<notin> event_ids s \<or> dr_endpoint_id r \<notin> endpoint_ids s \<or>
              dr_tenant_id r \<notin> tenant_ids s \<or>
              (case dr_source_delivery_id r of None \<Rightarrow> False | Some p \<Rightarrow> p \<notin> insert (dr_id r) (delivery_ids s))
           then Some fk_violation else None)"

definition check_attempt :: "db \<Rightarrow> attempt_row \<Rightarrow> string option" where
  "check_attempt s r =
     (if ar_id r \<in> ar_id ` set (attempts s) \<or>
         (ar_delivery_id r, ar_sequence r) \<in> (\<lambda>a. (ar_delivery_id a, ar_sequence a)) ` set (attempts s)
      then Some unique_violation
      else if ar_delivery_id r \<notin> delivery_ids s then Some fk_violation else None)"

definition insert_tenant :: "(uuid \<Rightarrow> tenant_row) \<Rightarrow> tenant_row dbprog" where
  "insert_tenant mk = insert_row mk check_tenant (\<lambda>r s. s\<lparr>tenants := tenants s @ [r]\<rparr>)"

definition insert_endpoint :: "(uuid \<Rightarrow> endpoint_row) \<Rightarrow> endpoint_row dbprog" where
  "insert_endpoint mk = insert_row mk check_endpoint (\<lambda>r s. s\<lparr>endpoints := endpoints s @ [r]\<rparr>)"

definition insert_event :: "(uuid \<Rightarrow> event_row) \<Rightarrow> event_row dbprog" where
  "insert_event mk = insert_row mk check_event (\<lambda>r s. s\<lparr>events := events s @ [r]\<rparr>)"

definition insert_delivery :: "(uuid \<Rightarrow> delivery_row) \<Rightarrow> delivery_row dbprog" where
  "insert_delivery mk = insert_row mk check_delivery (\<lambda>r s. s\<lparr>deliveries := deliveries s @ [r]\<rparr>)"

definition insert_attempt :: "(uuid \<Rightarrow> attempt_row) \<Rightarrow> attempt_row dbprog" where
  "insert_attempt mk = insert_row mk check_attempt (\<lambda>r s. s\<lparr>attempts := attempts s @ [r]\<rparr>)"

section \<open>Updates\<close>

text \<open>\<open>UPDATE deliveries\<close>: the unique partial index is checked on the new rows.  The
  result is the number of rows updated.\<close>

definition update_deliveries ::
  "(delivery_row \<Rightarrow> bool) \<Rightarrow> (delivery_row \<Rightarrow> delivery_row) \<Rightarrow> int dbprog" where
  "update_deliveries p f s =
     (let rows = upd_where p f (deliveries s) in
      if replay_index_ok rows
      then (Inr (int (length (filter p (deliveries s)))), s\<lparr>deliveries := rows\<rparr>)
      else (Inl (PgError unique_violation), s))"

definition probe_refs_ok :: "db \<Rightarrow> endpoint_row list \<Rightarrow> bool" where
  "probe_refs_ok s rows \<longleftrightarrow>
     (\<forall>e \<in> set rows. case er_probe_delivery_id e of None \<Rightarrow> True | Some p \<Rightarrow> p \<in> delivery_ids s)"

lemma probe_refs_ok_iff:
  "probe_refs_ok s rows \<longleftrightarrow>
     (\<forall>e \<in> set rows. \<forall>q. er_probe_delivery_id e = Some q \<longrightarrow> q \<in> delivery_ids s)"
  by (auto simp: probe_refs_ok_def split: option.splits)

definition update_endpoints ::
  "(endpoint_row \<Rightarrow> bool) \<Rightarrow> (endpoint_row \<Rightarrow> endpoint_row) \<Rightarrow> int dbprog" where
  "update_endpoints p f s =
     (let rows = upd_where p f (endpoints s) in
      if probe_refs_ok s rows
      then (Inr (int (length (filter p (endpoints s)))), s\<lparr>endpoints := rows\<rparr>)
      else (Inl (PgError fk_violation), s))"

section \<open>What the program keeps true\<close>

definition lease_row_ok :: "delivery_row \<Rightarrow> bool" where
  "lease_row_ok d \<longleftrightarrow> (dr_lease_until d \<noteq> None \<longleftrightarrow> dr_status d = InFlight)"

definition delivery_linked :: "db \<Rightarrow> delivery_row \<Rightarrow> bool" where
  "delivery_linked s d \<longleftrightarrow>
     (\<exists>e \<in> set (endpoints s). er_id e = dr_endpoint_id d \<and> er_tenant_id e = dr_tenant_id d) \<and>
     (\<exists>v \<in> set (events s). vr_id v = dr_event_id d \<and> vr_endpoint_id v = dr_endpoint_id d)"

definition circuit_ok :: "endpoint_row \<Rightarrow> bool" where
  "circuit_ok e \<longleftrightarrow>
     (er_circuit_state e = CircuitOpen \<longleftrightarrow> er_suspended_until e \<noteq> None) \<and>
     (er_probe_delivery_id e \<noteq> None \<longrightarrow> er_circuit_state e = CircuitHalfOpen) \<and>
     (er_sensitive_recovery e \<longrightarrow> er_circuit_state e = CircuitClosed \<and> er_failure_count e = 0) \<and>
     0 \<le> er_failure_count e"

definition idempotency_complete :: "db \<Rightarrow> idempotency_row \<Rightarrow> bool" where
  "idempotency_complete s i \<longleftrightarrow>
     (\<exists>d \<in> set (deliveries s). ir_delivery_id i = Some (dr_id d) \<and>
        ir_event_id i = Some (dr_event_id d) \<and> ir_endpoint_id i = dr_endpoint_id d)"

definition consistent :: "db \<Rightarrow> bool" where
  "consistent s \<longleftrightarrow>
     (\<forall>d \<in> set (deliveries s). lease_row_ok d \<and> delivery_linked s d) \<and>
     (\<forall>e \<in> set (endpoints s). circuit_ok e) \<and>
     (\<forall>i \<in> set (idempotency_records s). idempotency_complete s i)"

definition db_ok :: "db \<Rightarrow> bool" where
  "db_ok s \<longleftrightarrow> schema_ok s \<and> consistent s"

definition empty_db :: "instant \<Rightarrow> (nat \<Rightarrow> uuid) \<Rightarrow> db" where
  "empty_db t src = \<lparr>tenants = [], endpoints = [], events = [], deliveries = [], attempts = [],
     idempotency_records = [], now_ts = t, uuid_src = src, uuid_pos = 0, faults = []\<rparr>"

lemmas schema_defs = schema_ok_def keys_ok_def refs_ok_def uniques_ok_def
lemmas db_ok_defs = db_ok_def schema_defs consistent_def

lemma db_ok_empty: "db_ok (empty_db t src)"
  by (simp add: db_ok_defs empty_db_def replay_index_ok_def)

lemma table_pred_schema: "table_pred schema_ok"
  by (simp add: table_pred_def schema_defs)

lemma table_pred_db_ok: "table_pred db_ok"
  by (simp add: table_pred_def db_ok_defs delivery_linked_def idempotency_complete_def)

lemma db_ok_clock [simp]: "db_ok (s\<lparr>now_ts := t\<rparr>) = db_ok s"
  by (simp add: db_ok_defs delivery_linked_def idempotency_complete_def)

lemma preserves_stmt_db_ok [preserves_intros]: "preserves db_ok f \<Longrightarrow> preserves db_ok (stmt f)"
  by (rule preserves_stmt [OF table_pred_db_ok])

subsection \<open>Queries and updates that keep it\<close>

definition keeps_delivery_keys :: "(delivery_row \<Rightarrow> delivery_row) \<Rightarrow> bool" where
  "keeps_delivery_keys f \<longleftrightarrow>
     (\<forall>r. dr_id (f r) = dr_id r \<and> dr_event_id (f r) = dr_event_id r \<and>
          dr_endpoint_id (f r) = dr_endpoint_id r \<and> dr_tenant_id (f r) = dr_tenant_id r \<and>
          dr_source_delivery_id (f r) = dr_source_delivery_id r \<and> dr_created_at (f r) = dr_created_at r)"

definition keeps_endpoint_keys :: "(endpoint_row \<Rightarrow> endpoint_row) \<Rightarrow> bool" where
  "keeps_endpoint_keys f \<longleftrightarrow> (\<forall>r. er_id (f r) = er_id r \<and> er_tenant_id (f r) = er_tenant_id r \<and> er_url (f r) = er_url r)"

lemma keys_image_upd:
  "keeps_delivery_keys f \<Longrightarrow> dr_id ` set (upd_where p f rows) = dr_id ` set rows"
  by (metis (no_types, lifting) keeps_delivery_keys_def list.set_map map_upd_where)

lemma endpoint_keys_image_upd:
  "keeps_endpoint_keys f \<Longrightarrow> er_id ` set (upd_where p f rows) = er_id ` set rows"
  by (metis (no_types, lifting) keeps_endpoint_keys_def list.set_map map_upd_where)

lemma db_ok_set_deliveries:
  assumes ok: "db_ok s" and keys: "keeps_delivery_keys f"
    and idx: "replay_index_ok (upd_where p f (deliveries s))"
    and lease: "\<And>r. r \<in> set (deliveries s) \<Longrightarrow> p r \<Longrightarrow> lease_row_ok r \<Longrightarrow> lease_row_ok (f r)"
  shows "db_ok (s\<lparr>deliveries := upd_where p f (deliveries s)\<rparr>)"
proof -
  note k = keys [unfolded keeps_delivery_keys_def]
  have ids: "dr_id ` set (upd_where p f (deliveries s)) = delivery_ids s"
    by (rule keys_image_upd [OF keys])
  have "map dr_id (upd_where p f (deliveries s)) = map dr_id (deliveries s)"
    using k by (simp add: map_upd_where)
  then have "schema_ok (s\<lparr>deliveries := upd_where p f (deliveries s)\<rparr>)"
    using ok idx k by (simp add: db_ok_def schema_defs ids ball_upd_where)
  moreover have "idempotency_complete (s\<lparr>deliveries := upd_where p f (deliveries s)\<rparr>) i"
    if "idempotency_complete s i" for i
    using that k by (simp add: idempotency_complete_def bex_upd_where) blast
  ultimately show ?thesis
    using ok lease k by (simp add: db_ok_def consistent_def delivery_linked_def ball_upd_where)
qed

lemma preserves_update_deliveries:
  assumes "keeps_delivery_keys f" and "\<And>r. p r \<Longrightarrow> lease_row_ok r \<Longrightarrow> lease_row_ok (f r)"
  shows "preserves db_ok (update_deliveries p f)"
  using assms by (auto simp: preserves_def update_deliveries_def Let_def intro: db_ok_set_deliveries)

lemma db_ok_set_endpoints:
  assumes ok: "db_ok s" and keys: "keeps_endpoint_keys f"
    and probes: "probe_refs_ok s (upd_where p f (endpoints s))"
    and circ: "\<And>r. r \<in> set (endpoints s) \<Longrightarrow> p r \<Longrightarrow> circuit_ok r \<Longrightarrow> circuit_ok (f r)"
  shows "db_ok (s\<lparr>endpoints := upd_where p f (endpoints s)\<rparr>)"
proof -
  note k = keys [unfolded keeps_endpoint_keys_def]
  have ids: "er_id ` set (upd_where p f (endpoints s)) = endpoint_ids s"
    by (rule endpoint_keys_image_upd [OF keys])
  have "map er_id (upd_where p f (endpoints s)) = map er_id (endpoints s)"
    using k by (simp add: map_upd_where)
  moreover have "\<forall>e \<in> set (upd_where p f (endpoints s)). er_tenant_id e \<in> tenant_ids s \<and>
      (\<forall>q. er_probe_delivery_id e = Some q \<longrightarrow> q \<in> delivery_ids s)"
    using ok probes k by (simp add: db_ok_def schema_defs probe_refs_ok_iff ball_upd_where)
  ultimately have "schema_ok (s\<lparr>endpoints := upd_where p f (endpoints s)\<rparr>)"
    using ok by (simp add: db_ok_def schema_defs ids)
  moreover have "delivery_linked (s\<lparr>endpoints := upd_where p f (endpoints s)\<rparr>) d"
    if "delivery_linked s d" for d
    using that k by (simp add: delivery_linked_def bex_upd_where) blast
  ultimately show ?thesis
    using ok circ by (simp add: db_ok_def consistent_def idempotency_complete_def ball_upd_where)
qed

lemma preserves_update_endpoints:
  assumes "keeps_endpoint_keys f" and "\<And>r. p r \<Longrightarrow> circuit_ok r \<Longrightarrow> circuit_ok (f r)"
  shows "preserves db_ok (update_endpoints p f)"
  using assms by (auto simp: preserves_def update_endpoints_def Let_def intro: db_ok_set_endpoints)

text \<open>In a database whose constraints hold, an update that leaves the probe column alone or
  clears it is never refused.\<close>

lemma update_endpoints_ok:
  assumes "schema_ok s"
    and "\<And>r. p r \<Longrightarrow> er_probe_delivery_id (f r) = er_probe_delivery_id r \<or> er_probe_delivery_id (f r) = None"
  shows "update_endpoints p f s =
    (Inr (int (length (filter p (endpoints s)))), s\<lparr>endpoints := upd_where p f (endpoints s)\<rparr>)"
proof -
  have "q \<in> delivery_ids s"
    if "r \<in> set (endpoints s)" "p r" "er_probe_delivery_id (f r) = Some q" for r q
    using assms that by (fastforce simp: schema_defs)
  then have "probe_refs_ok s (upd_where p f (endpoints s))"
    using assms(1) by (auto simp: probe_refs_ok_iff ball_upd_where schema_defs)
  then show ?thesis by (simp add: update_endpoints_def Let_def)
qed

subsection \<open>Insertions that keep it\<close>

lemma db_ok_uuid_pos [simp]: "db_ok (s\<lparr>uuid_pos := n\<rparr>) = db_ok s"
  using table_pred_db_ok by (simp add: table_pred_def)

lemma db_ok_faults [simp]: "db_ok (s\<lparr>faults := fs\<rparr>) = db_ok s"
  using table_pred_db_ok by (simp add: table_pred_def)

lemma insert_row_Inr:
  "insert_row mk check add s = (Inr r, s') \<longleftrightarrow>
     r = mk (uuid_src s (uuid_pos s)) \<and> check (s\<lparr>uuid_pos := Suc (uuid_pos s)\<rparr>) r = None \<and>
     s' = add r (s\<lparr>uuid_pos := Suc (uuid_pos s)\<rparr>)"
  by (auto simp: insert_row_def Let_def split: option.splits)

lemma insert_row_Inl:
  "insert_row mk check add s = (Inl e, s') \<longleftrightarrow>
     (\<exists>c. e = PgError c \<and> check (s\<lparr>uuid_pos := Suc (uuid_pos s)\<rparr>) (mk (uuid_src s (uuid_pos s))) = Some c) \<and>
     s' = s\<lparr>uuid_pos := Suc (uuid_pos s)\<rparr>"
  by (auto simp: insert_row_def Let_def split: option.splits)

lemma preserves_insert_row:
  assumes "\<And>s i. db_ok s \<Longrightarrow> check s (mk i) = None \<Longrightarrow> db_ok (add (mk i) s)"
  shows "preserves db_ok (insert_row mk check add)"
  using assms by (auto simp: preserves_def insert_row_def Let_def split: option.splits)

lemma db_ok_add_tenant: "db_ok s \<Longrightarrow> check_tenant s r = None \<Longrightarrow> db_ok (s\<lparr>tenants := tenants s @ [r]\<rparr>)"
  by (auto simp: db_ok_defs check_tenant_def delivery_linked_def idempotency_complete_def split: if_splits)

lemma db_ok_add_endpoint:
  "db_ok s \<Longrightarrow> check_endpoint s r = None \<Longrightarrow> circuit_ok r \<Longrightarrow> er_probe_delivery_id r = None \<Longrightarrow>
   db_ok (s\<lparr>endpoints := endpoints s @ [r]\<rparr>)"
  by (auto simp: db_ok_defs check_endpoint_def delivery_linked_def idempotency_complete_def split: if_splits)

lemma db_ok_add_event: "db_ok s \<Longrightarrow> check_event s r = None \<Longrightarrow> db_ok (s\<lparr>events := events s @ [r]\<rparr>)"
  by (auto simp: db_ok_defs check_event_def delivery_linked_def idempotency_complete_def split: if_splits)

lemma db_ok_add_delivery:
  assumes "db_ok s" and "check_delivery s r = None" and "lease_row_ok r" and "delivery_linked s r"
  shows "db_ok (s\<lparr>deliveries := deliveries s @ [r]\<rparr>)"
proof -
  have "idempotency_complete (s\<lparr>deliveries := deliveries s @ [r]\<rparr>) i" if "idempotency_complete s i" for i
    using that by (auto simp: idempotency_complete_def)
  moreover have "delivery_linked (s\<lparr>deliveries := deliveries s @ [r]\<rparr>) d = delivery_linked s d" for d
    by (simp add: delivery_linked_def)
  moreover have "schema_ok (s\<lparr>deliveries := deliveries s @ [r]\<rparr>)"
    using assms(1,2)
    by (auto simp: db_ok_def schema_defs check_delivery_def split: if_splits option.splits)
  ultimately show ?thesis using assms by (auto simp: db_ok_def consistent_def)
qed

lemma insert_delivery_db_ok:
  assumes "db_ok s" and "\<And>i. lease_row_ok (mk i)" and "\<And>i. delivery_linked s (mk i)"
  shows "db_ok (snd (insert_delivery mk s))"
proof -
  define s1 where "s1 = s\<lparr>uuid_pos := Suc (uuid_pos s)\<rparr>"
  have "db_ok s1" using assms(1) by (simp add: s1_def)
  moreover have "delivery_linked s1 (mk i)" for i
    using assms(3) [of i] by (simp add: s1_def delivery_linked_def)
  ultimately show ?thesis
    using db_ok_add_delivery assms(2)
    by (auto simp: insert_delivery_def insert_row_def Let_def s1_def [symmetric] split: option.splits)
qed

lemma db_ok_add_attempt: "db_ok s \<Longrightarrow> check_attempt s r = None \<Longrightarrow> db_ok (s\<lparr>attempts := attempts s @ [r]\<rparr>)"
  by (auto simp: db_ok_defs check_attempt_def delivery_linked_def idempotency_complete_def split: if_splits)

lemma preserves_insert_tenant [preserves_intros]: "preserves db_ok (insert_tenant mk)"
  unfolding insert_tenant_def by (rule preserves_insert_row) (rule db_ok_add_tenant)

lemma preserves_insert_endpoint:
  "(\<And>i. circuit_ok (mk i) \<and> er_probe_delivery_id (mk i) = None) \<Longrightarrow> preserves db_ok (insert_endpoint mk)"
  unfolding insert_endpoint_def by (rule preserves_insert_row) (auto intro: db_ok_add_endpoint)

lemma preserves_insert_event [preserves_intros]: "preserves db_ok (insert_event mk)"
  unfolding insert_event_def by (rule preserves_insert_row) (rule db_ok_add_event)

lemma preserves_insert_attempt [preserves_intros]: "preserves db_ok (insert_attempt mk)"
  unfolding insert_attempt_def by (rule preserves_insert_row) (rule db_ok_add_attempt)

end
