(* ===== verification/Go_Crypto.thy ===== *)
theory Go_Crypto
  imports Go_Std
begin

unbundle bit_operations_syntax

text \<open>
  The hash functions of the standard library that the program calls: \<open>crypto/sha256\<close>
  (FIPS 180-4), \<open>crypto/hmac\<close> over it (RFC 2104) and \<open>hash/fnv\<close>'s 64 bit FNV-1a.
  They are executable; no cryptographic strength is claimed of them.  What the program's
  correctness needs is that they are functions of their input and the length of their
  output, and that is what the lemmas say.
\<close>

section \<open>SHA-256\<close>

type_synonym u32 = "32 word"

text \<open>The round constants and the initial state, in decimal.\<close>

definition sha256_k :: "u32 list" where
  "sha256_k = [
     1116352408, 1899447441, 3049323471, 3921009573, 961987163, 1508970993, 2453635748, 2870763221,
     3624381080, 310598401, 607225278, 1426881987, 1925078388, 2162078206, 2614888103, 3248222580,
     3835390401, 4022224774, 264347078, 604807628, 770255983, 1249150122, 1555081692, 1996064986,
     2554220882, 2821834349, 2952996808, 3210313671, 3336571891, 3584528711, 113926993, 338241895,
     666307205, 773529912, 1294757372, 1396182291, 1695183700, 1986661051, 2177026350, 2456956037,
     2730485921, 2820302411, 3259730800, 3345764771, 3516065817, 3600352804, 4094571909, 275423344,
     430227734, 506948616, 659060556, 883997877, 958139571, 1322822218, 1537002063, 1747873779,
     1955562222, 2024104815, 2227730452, 2361852424, 2428436474, 2756734187, 3204031479, 3329325298]"

type_synonym sha_state = "u32 \<times> u32 \<times> u32 \<times> u32 \<times> u32 \<times> u32 \<times> u32 \<times> u32"

definition sha256_init :: sha_state where
  "sha256_init = (1779033703, 3144134277, 1013904242, 2773480762,
                  1359893119, 2600822924, 528734635, 1541459225)"

definition small_sigma0 :: "u32 \<Rightarrow> u32" where
  "small_sigma0 x = word_rotr 7 x XOR word_rotr 18 x XOR drop_bit 3 x"

definition small_sigma1 :: "u32 \<Rightarrow> u32" where
  "small_sigma1 x = word_rotr 17 x XOR word_rotr 19 x XOR drop_bit 10 x"

definition big_sigma0 :: "u32 \<Rightarrow> u32" where
  "big_sigma0 x = word_rotr 2 x XOR word_rotr 13 x XOR word_rotr 22 x"

definition big_sigma1 :: "u32 \<Rightarrow> u32" where
  "big_sigma1 x = word_rotr 6 x XOR word_rotr 11 x XOR word_rotr 25 x"

text \<open>The message schedule, the newest word first.\<close>

fun extend_schedule :: "nat \<Rightarrow> u32 list \<Rightarrow> u32 list" where
  "extend_schedule 0 ws = ws"
| "extend_schedule (Suc n) ws =
     extend_schedule n ((small_sigma1 (ws ! 1) + ws ! 6 + small_sigma0 (ws ! 14) + ws ! 15) # ws)"

definition sha_round :: "u32 \<times> u32 \<Rightarrow> sha_state \<Rightarrow> sha_state" where
  "sha_round kw st = (case (kw, st) of ((k, w), (a, b, c, d, e, f, g, h)) \<Rightarrow>
     let t1 = h + big_sigma1 e + ((e AND f) XOR (NOT e AND g)) + k + w;
         t2 = big_sigma0 a + ((a AND b) XOR (a AND c) XOR (b AND c))
     in (t1 + t2, a, b, c, d + t1, e, f, g))"

definition bytes_word :: "bytes \<Rightarrow> u32" where
  "bytes_word bs = fold (\<lambda>b w. push_bit 8 w OR of_nat (of_char b)) bs 0"

fun words_of :: "nat \<Rightarrow> bytes \<Rightarrow> u32 list" where
  "words_of 0 bs = []"
| "words_of (Suc n) bs = bytes_word (take 4 bs) # words_of n (drop 4 bs)"

definition sha_block :: "bytes \<Rightarrow> sha_state \<Rightarrow> sha_state" where
  "sha_block block st =
     (let ws = rev (extend_schedule 48 (rev (words_of 16 block)));
          (a', b', c', d', e', f', g', h') = fold sha_round (zip sha256_k ws) st;
          (a, b, c, d, e, f, g, h) = st
      in (a + a', b + b', c + c', d + d', e + e', f + f', g + g', h + h'))"

definition be_bytes :: "nat \<Rightarrow> int \<Rightarrow> bytes" where
  "be_bytes n v = map (\<lambda>k. char_of (v div 256 ^ k)) (rev [0..<n])"

definition sha_pad :: "bytes \<Rightarrow> bytes" where
  "sha_pad m = m @ char_of (128 :: nat) # replicate ((55 + 64 - length m mod 64) mod 64) (char_of (0 :: nat))
     @ be_bytes 8 (8 * int (length m))"

fun sha_blocks :: "nat \<Rightarrow> bytes \<Rightarrow> sha_state \<Rightarrow> sha_state" where
  "sha_blocks 0 bs st = st"
| "sha_blocks (Suc n) bs st = sha_blocks n (drop 64 bs) (sha_block (take 64 bs) st)"

definition word_bytes :: "u32 \<Rightarrow> bytes" where
  "word_bytes w = be_bytes 4 (uint w)"

fun digest :: "sha_state \<Rightarrow> bytes" where
  "digest (a, b, c, d, e, f, g, h) = concat (map word_bytes [a, b, c, d, e, f, g, h])"

definition sha256 :: "bytes \<Rightarrow> bytes" where
  "sha256 m = digest (sha_blocks (length (sha_pad m) div 64) (sha_pad m) sha256_init)"

lemma length_word_bytes: "length (word_bytes w) = 4"
  by (simp add: word_bytes_def be_bytes_def)

lemma length_digest: "length (digest st) = 32"
  by (cases st rule: digest.cases) (simp add: length_word_bytes)

lemma length_sha256: "length (sha256 m) = 32"
  by (simp add: sha256_def length_digest)

lemma sha_pad_blocks: "64 dvd length (sha_pad m)"
proof -
  define r where "r = length m mod 64"
  have r: "r < 64" by (simp add: r_def)
  have "(length m + 9 + (55 + 64 - r)) mod 64 = (r + 9 + (55 + 64 - r)) mod 64"
    unfolding r_def by (metis mod_add_left_eq)
  also have "r + 9 + (55 + 64 - r) = 128" using r by simp
  finally have "(length m + 9 + (55 + 64 - r) mod 64) mod 64 = 0"
    by (simp add: mod_add_right_eq)
  then show ?thesis
    by (simp add: sha_pad_def be_bytes_def r_def [symmetric] mod_eq_0_iff_dvd ac_simps)
qed

section \<open>HMAC\<close>

definition xor_byte :: "nat \<Rightarrow> char \<Rightarrow> char" where
  "xor_byte m c = char_of (m XOR of_char c)"

definition hmac_key :: "bytes \<Rightarrow> bytes" where
  "hmac_key secret =
     (let k = (if length secret > 64 then sha256 secret else secret)
      in k @ replicate (64 - length k) (char_of (0 :: nat)))"

definition hmac_sha256 :: "bytes \<Rightarrow> bytes \<Rightarrow> bytes" where
  "hmac_sha256 secret m =
     (let k = hmac_key secret
      in sha256 (map (xor_byte 0x5c) k @ sha256 (map (xor_byte 0x36) k @ m)))"

lemma length_hmac_sha256: "length (hmac_sha256 secret m) = 32"
  by (simp add: hmac_sha256_def Let_def length_sha256)

lemma length_hmac_key: "length (hmac_key secret) = 64"
  by (simp add: hmac_key_def Let_def length_sha256)

section \<open>FNV-1a\<close>

type_synonym u64 = "64 word"

definition fnv64a_step :: "char \<Rightarrow> u64 \<Rightarrow> u64" where
  "fnv64a_step b h = (h XOR of_nat (of_char b)) * 0x100000001b3"

definition fnv64a :: "bytes \<Rightarrow> u64" where
  "fnv64a bs = fold fnv64a_step bs 0xcbf29ce484222325"

lemma fnv64a_append: "fnv64a (xs @ ys) = fold fnv64a_step ys (fnv64a xs)"
  by (simp add: fnv64a_def)

end
