(* ===== verification/Idempotency_Store.thy ===== *)
theory Idempotency_Store
  imports Database Go_Crypto
begin

text \<open>
  \<open>internal/store/idempotency_store.go\<close>: the idempotency records, read and written inside
  the transaction of a submission.

  A record is claimed without its event and delivery and completed in the same
  transaction; \<open>db_ok_but\<close> is the database invariant with the claimed key exempted in
  between.
\<close>

section \<open>Operations\<close>

record IdempotencyRecord =
  ix_PayloadHash :: string
  ix_EventID :: uuid
  ix_DeliveryID :: uuid
  ix_ExpiresAt :: instant
  ix_Complete :: bool

text \<open>The advisory lock's key: FNV-1a over the sixteen bytes of the id and the key, read as
  a signed integer.\<close>

definition lockKey :: "uuid \<Rightarrow> string \<Rightarrow> int" where
  "lockKey endpointID key = sint (fnv64a (be_bytes 16 (uint endpointID) @ key))"

definition PayloadHash :: "bytes \<Rightarrow> string" where
  "PayloadHash rawBody = hex_encode (sha256 rawBody)"

text \<open>The lock serialises the transactions that use the same lock key.  The wait is a
  matter of the interleaved runs of theory \<open>Submissions\<close>; where a transaction is one step, taking
  the lock has no effect beyond the statement itself.\<close>

definition IdempotencyTxStore_AcquireAdvisoryLock :: "uuid \<Rightarrow> string \<Rightarrow> unit dbprog" where
  "IdempotencyTxStore_AcquireAdvisoryLock endpointID key =
     map_errP (Wrap ''advisory lock'') (stmt (returnP ()))"

definition has_key :: "uuid \<Rightarrow> string \<Rightarrow> idempotency_row \<Rightarrow> bool" where
  "has_key endpointID key i \<longleftrightarrow> ir_endpoint_id i = endpointID \<and> ir_key i = key"

definition scanIdempotency :: "idempotency_row \<Rightarrow> IdempotencyRecord" where
  "scanIdempotency i = \<lparr>ix_PayloadHash = ir_payload_hash i,
     ix_EventID = (case ir_event_id i of None \<Rightarrow> 0 | Some v \<Rightarrow> v),
     ix_DeliveryID = (case ir_delivery_id i of None \<Rightarrow> 0 | Some d \<Rightarrow> d),
     ix_ExpiresAt = ir_expires_at i,
     ix_Complete = (ir_event_id i \<noteq> None \<and> ir_delivery_id i \<noteq> None)\<rparr>"

text \<open>A record is valid up to and including its expiry.\<close>

definition valid_record :: "uuid \<Rightarrow> string \<Rightarrow> db \<Rightarrow> idempotency_row option" where
  "valid_record endpointID key s =
     find (\<lambda>i. has_key endpointID key i \<and> now_ts s \<le> ir_expires_at i) (idempotency_records s)"

definition IdempotencyTxStore_Lookup :: "uuid \<Rightarrow> string \<Rightarrow> IdempotencyRecord option dbprog" where
  "IdempotencyTxStore_Lookup endpointID key =
     map_errP (Wrap ''idempotency lookup'')
       (stmt (readP (\<lambda>s. map_option scanIdempotency (valid_record endpointID key s))))"

definition window :: duration where "window = 24 * hour"

definition reclaimed_row :: "string \<Rightarrow> instant \<Rightarrow> idempotency_row \<Rightarrow> idempotency_row" where
  "reclaimed_row payloadHash expires i = i\<lparr>ir_payload_hash := payloadHash, ir_expires_at := expires,
     ir_event_id := None, ir_delivery_id := None\<rparr>"

text \<open>\<open>INSERT \<dots> ON CONFLICT (endpoint_id, idempotency_key) DO UPDATE \<dots> WHERE expires_at < NOW()\<close>.\<close>

definition upsert_claim :: "uuid \<Rightarrow> string \<Rightarrow> string \<Rightarrow> unit dbprog" where
  "upsert_claim endpointID key payloadHash s =
     (let i = uuid_src s (uuid_pos s); s1 = s\<lparr>uuid_pos := Suc (uuid_pos s)\<rparr>; expires = now_ts s + window in
      if i \<in> ir_id ` set (idempotency_records s) then (Inl (PgError unique_violation), s1)
      else if list_ex (has_key endpointID key) (idempotency_records s)
      then (Inr (), s1\<lparr>idempotency_records :=
             upd_where (\<lambda>r. has_key endpointID key r \<and> ir_expires_at r < now_ts s)
               (reclaimed_row payloadHash expires) (idempotency_records s)\<rparr>)
      else if endpointID \<notin> endpoint_ids s then (Inl (PgError fk_violation), s1)
      else (Inr (), s1\<lparr>idempotency_records := idempotency_records s @
             [\<lparr>ir_id = i, ir_endpoint_id = endpointID, ir_key = key, ir_payload_hash = payloadHash,
               ir_event_id = None, ir_delivery_id = None, ir_created_at = now_ts s,
               ir_expires_at = expires\<rparr>]\<rparr>))"

definition IdempotencyTxStore_Claim :: "uuid \<Rightarrow> string \<Rightarrow> string \<Rightarrow> unit dbprog" where
  "IdempotencyTxStore_Claim endpointID key payloadHash =
     map_errP (Wrap ''idempotency claim'') (stmt (upsert_claim endpointID key payloadHash))"

definition completed_row :: "uuid \<Rightarrow> uuid \<Rightarrow> idempotency_row \<Rightarrow> idempotency_row" where
  "completed_row eventID deliveryID i = i\<lparr>ir_event_id := Some eventID, ir_delivery_id := Some deliveryID\<rparr>"

definition set_complete :: "uuid \<Rightarrow> string \<Rightarrow> uuid \<Rightarrow> uuid \<Rightarrow> unit dbprog" where
  "set_complete endpointID key eventID deliveryID s =
     (if list_ex (has_key endpointID key) (idempotency_records s) \<and>
         (eventID \<notin> event_ids s \<or> deliveryID \<notin> delivery_ids s)
      then (Inl (PgError fk_violation), s)
      else (Inr (), s\<lparr>idempotency_records :=
             upd_where (has_key endpointID key) (completed_row eventID deliveryID) (idempotency_records s)\<rparr>))"

definition IdempotencyTxStore_Complete :: "uuid \<Rightarrow> string \<Rightarrow> uuid \<Rightarrow> uuid \<Rightarrow> unit dbprog" where
  "IdempotencyTxStore_Complete endpointID key eventID deliveryID =
     map_errP (Wrap ''idempotency complete'') (stmt (set_complete endpointID key eventID deliveryID))"

section \<open>The invariant with exempted keys\<close>

definition db_ok_but :: "(uuid \<times> string) set \<Rightarrow> db \<Rightarrow> bool" where
  "db_ok_but K s \<longleftrightarrow> schema_ok s \<and>
     (\<forall>d \<in> set (deliveries s). lease_row_ok d \<and> delivery_linked s d) \<and>
     (\<forall>e \<in> set (endpoints s). circuit_ok e) \<and>
     (\<forall>i \<in> set (idempotency_records s). (ir_endpoint_id i, ir_key i) \<notin> K \<longrightarrow> idempotency_complete s i)"

lemma db_ok_but_empty: "db_ok_but {} s \<longleftrightarrow> db_ok s"
  by (simp add: db_ok_but_def db_ok_def consistent_def)

lemma db_ok_but_weaken: "db_ok s \<Longrightarrow> db_ok_but K s"
  by (simp add: db_ok_but_def db_ok_def consistent_def)

lemma table_pred_db_ok_but: "table_pred (db_ok_but K)"
  by (simp add: table_pred_def db_ok_but_def schema_defs delivery_linked_def idempotency_complete_def)

lemma db_ok_but_simps [simp]:
  "db_ok_but K (s\<lparr>uuid_pos := n\<rparr>) = db_ok_but K s" "db_ok_but K (s\<lparr>faults := fs\<rparr>) = db_ok_but K s"
  using table_pred_db_ok_but by (auto simp: table_pred_def)

lemma db_ok_but_add_event:
  "db_ok_but K s \<Longrightarrow> check_event s r = None \<Longrightarrow> db_ok_but K (s\<lparr>events := events s @ [r]\<rparr>)"
  by (auto simp: db_ok_but_def schema_defs check_event_def delivery_linked_def idempotency_complete_def
      split: if_splits)

lemma db_ok_but_add_delivery:
  assumes "db_ok_but K s" and "check_delivery s r = None" and "lease_row_ok r" and "delivery_linked s r"
  shows "db_ok_but K (s\<lparr>deliveries := deliveries s @ [r]\<rparr>)"
proof -
  have "idempotency_complete (s\<lparr>deliveries := deliveries s @ [r]\<rparr>) i" if "idempotency_complete s i" for i
    using that by (auto simp: idempotency_complete_def)
  moreover have "delivery_linked (s\<lparr>deliveries := deliveries s @ [r]\<rparr>) d = delivery_linked s d" for d
    by (simp add: delivery_linked_def)
  moreover have "schema_ok (s\<lparr>deliveries := deliveries s @ [r]\<rparr>)"
    using assms(1,2)
    by (auto simp: db_ok_but_def schema_defs check_delivery_def split: if_splits option.splits)
  ultimately show ?thesis using assms by (auto simp: db_ok_but_def)
qed

lemma map_key_upd:
  "(\<And>i. ir_id (f i) = ir_id i \<and> ir_endpoint_id (f i) = ir_endpoint_id i \<and> ir_key (f i) = ir_key i) \<Longrightarrow>
   map ir_id (upd_where p f rows) = map ir_id rows \<and>
   map (\<lambda>i. (ir_endpoint_id i, ir_key i)) (upd_where p f rows) = map (\<lambda>i. (ir_endpoint_id i, ir_key i)) rows"
  by (simp add: map_upd_where)

lemma upsert_claim_ok:
  assumes ok: "db_ok s" and up: "upsert_claim e k h s = (Inr (), s')"
  shows "db_ok_but {(e, k)} s'"
proof (cases "list_ex (has_key e k) (idempotency_records s)")
  case True
  then have s': "s' = s\<lparr>uuid_pos := Suc (uuid_pos s), idempotency_records :=
      upd_where (\<lambda>r. has_key e k r \<and> ir_expires_at r < now_ts s)
        (reclaimed_row h (now_ts s + window)) (idempotency_records s)\<rparr>"
    using up by (auto simp: upsert_claim_def Let_def split: if_splits)
  have "\<exists>i \<in> set (idempotency_records s). has_key e k i"
    using True by (simp add: list_ex_iff)
  then have e: "e \<in> endpoint_ids s"
    using ok by (auto simp: db_ok_defs has_key_def)
  show ?thesis
    using ok e map_key_upd [of "reclaimed_row h (now_ts s + window)"]
    by (simp add: s' db_ok_but_def db_ok_defs ball_upd_where reclaimed_row_def has_key_def
        delivery_linked_def idempotency_complete_def)
next
  case False
  then have key: "(e, k) \<notin> (\<lambda>i. (ir_endpoint_id i, ir_key i)) ` set (idempotency_records s)"
    by (auto simp: list_ex_iff has_key_def)
  from False up show ?thesis
    using ok key
    by (auto simp: upsert_claim_def Let_def db_ok_but_def db_ok_defs delivery_linked_def
        idempotency_complete_def split: if_splits)
qed

lemma set_complete_ok:
  assumes ok: "db_ok_but {(e, k)} s" and up: "set_complete e k v d s = (Inr (), s')"
    and row: "r \<in> set (deliveries s)" "dr_id r = d" "dr_event_id r = v" "dr_endpoint_id r = e"
    and ev: "v \<in> event_ids s"
  shows "db_ok s'"
proof -
  have s': "s' = s\<lparr>idempotency_records :=
      upd_where (has_key e k) (completed_row v d) (idempotency_records s)\<rparr>"
    using up by (auto simp: set_complete_def split: if_splits)
  have "idempotency_complete s' (completed_row v d i)" if "has_key e k i" for i
    using that row by (auto simp: s' idempotency_complete_def completed_row_def has_key_def)
  moreover have "idempotency_complete s' i = idempotency_complete s i" for i
    by (simp add: s' idempotency_complete_def)
  moreover have "schema_ok s'"
    using ok ev row map_key_upd [of "completed_row v d"]
    by (simp add: s' db_ok_but_def schema_defs ball_upd_where completed_row_def) blast
  moreover have "delivery_linked s' x = delivery_linked s x" for x
    by (simp add: s' delivery_linked_def)
  ultimately show ?thesis
    using ok by (auto simp: db_ok_def consistent_def s' ball_upd_where db_ok_but_def has_key_def)
qed

end
