(* ===== verification/Sample.thy ===== *)
theory Sample
  imports Database
begin

text \<open>
  A small database on which the theorems of the development are instantiated: one tenant
  with one endpoint, one event, a delivery in flight after two attempts and one that failed
  permanently.
\<close>

definition sample_endpoint :: endpoint_row where
  "sample_endpoint = \<lparr>er_id = 10, er_url = ''https://a.test/'', er_created_at = 0, er_signing_secret = ''k'',
     er_tenant_id = 1, er_circuit_state = CircuitClosed, er_failure_count = 0, er_suspended_until = None,
     er_sensitive_recovery = False, er_probe_delivery_id = None\<rparr>"

definition sample_event :: event_row where
  "sample_event = \<lparr>vr_id = 20, vr_endpoint_id = 10, vr_tenant_id = 1, vr_payload = ''{}'', vr_submitted_at = 0\<rparr>"

definition sample_running :: delivery_row where
  "sample_running = \<lparr>dr_id = 30, dr_event_id = 20, dr_endpoint_id = 10, dr_tenant_id = 1, dr_status = InFlight,
     dr_attempt_count = 2, dr_next_attempt_at = 100, dr_lease_until = Some 900, dr_created_at = 100,
     dr_updated_at = 200, dr_source_delivery_id = None\<rparr>"

definition sample_failed :: delivery_row where
  "sample_failed = \<lparr>dr_id = 31, dr_event_id = 20, dr_endpoint_id = 10, dr_tenant_id = 1,
     dr_status = PermanentlyFailed, dr_attempt_count = 1, dr_next_attempt_at = 50, dr_lease_until = None,
     dr_created_at = 50, dr_updated_at = 300, dr_source_delivery_id = None\<rparr>"

definition sample_attempt :: attempt_row where
  "sample_attempt = \<lparr>ar_id = 40, ar_delivery_id = 31, ar_sequence = 1, ar_started_at = 60,
     ar_completed_at = Some 70, ar_response_status_code = Some 404, ar_outcome = OutcomePermanentFailure,
     ar_error_reason = None\<rparr>"

definition sample_db :: db where
  "sample_db = \<lparr>tenants = [\<lparr>tr_id = 1, tr_name = Some ''acme'', tr_created_at = 0\<rparr>],
     endpoints = [sample_endpoint], events = [sample_event], deliveries = [sample_running, sample_failed],
     attempts = [sample_attempt], idempotency_records = [], now_ts = 1000,
     uuid_src = (\<lambda>n. word_of_nat (100 + n)), uuid_pos = 0, faults = []\<rparr>"

lemmas sample_defs = sample_db_def sample_endpoint_def sample_event_def sample_running_def
  sample_failed_def sample_attempt_def

text \<open>The same with the first delivery scheduled and due.\<close>

definition sample_due_db :: db where
  "sample_due_db = sample_db\<lparr>deliveries := [sample_running\<lparr>dr_status := Scheduled, dr_lease_until := None\<rparr>, sample_failed]\<rparr>"

lemma sample_due_db_ok: "db_ok sample_due_db"
  by (simp add: db_ok_defs sample_due_db_def sample_defs replay_index_ok_def active_replay_def lease_row_ok_def
      delivery_linked_def circuit_ok_def)

lemma sample_db_ok: "db_ok sample_db"
  by (simp add: db_ok_defs sample_defs replay_index_ok_def active_replay_def lease_row_ok_def
      delivery_linked_def circuit_ok_def)

lemma sample_schema_ok: "schema_ok sample_db"
  using sample_db_ok by (simp add: db_ok_def)

lemma sample_faults [simp]: "faults sample_db = []"
  by (simp add: sample_db_def)

end
