(* ===== verification/Delivery_Store.thy ===== *)
theory Delivery_Store
  imports Sample
begin

text \<open>
  \<open>internal/store/delivery_store.go\<close>: the deliveries table as a queue with leases, and the
  dead letter queries.

  A claim, a mark and a reschedule are the SQL statements of the code with their \<open>WHERE\<close>
  clauses: the marks select by key only.  Where SQL leaves an order open (rows that tie in
  \<open>ORDER BY\<close>, and \<open>SELECT\<close> without one) the model takes the order of the row list, which
  is arbitrary.  \<open>FOR UPDATE SKIP LOCKED\<close> does not appear: a statement is one step.
\<close>

section \<open>Rows and entities\<close>

fun scan_status :: "delivery_status \<Rightarrow> DeliveryStatus" where
  "scan_status Scheduled = StatusScheduled"
| "scan_status InFlight = StatusInFlight"
| "scan_status Delivered = StatusDelivered"
| "scan_status PermanentlyFailed = StatusPermanentlyFailed"

lemma scan_status_eq_iff:
  "scan_status st = StatusScheduled \<longleftrightarrow> st = Scheduled"
  "scan_status st = StatusInFlight \<longleftrightarrow> st = InFlight"
  "scan_status st = StatusPermanentlyFailed \<longleftrightarrow> st = PermanentlyFailed"
  "scan_status st \<noteq> StatusZero"
  by (cases st; simp)+

text \<open>\<open>scanDelivery\<close>: the nine columns every query returns.  \<open>source_delivery_id\<close> is not
  among them.\<close>

definition scanDelivery :: "delivery_row \<Rightarrow> Delivery" where
  "scanDelivery r = \<lparr>d_ID = dr_id r, d_EventID = dr_event_id r, d_EndpointID = dr_endpoint_id r,
     d_Status = scan_status (dr_status r), d_AttemptCount = dr_attempt_count r, d_NextAttemptAt = dr_next_attempt_at r,
     d_InFlightLeaseUntil = dr_lease_until r, d_CreatedAt = dr_created_at r, d_UpdatedAt = dr_updated_at r,
     d_SourceDeliveryID = None\<rparr>"

definition scanAttempt :: "attempt_row \<Rightarrow> Attempt" where
  "scanAttempt a = \<lparr>a_ID = ar_id a, a_DeliveryID = ar_delivery_id a, a_Sequence = ar_sequence a,
     a_StartedAt = ar_started_at a, a_CompletedAt = ar_completed_at a,
     a_ResponseStatusCode = ar_response_status_code a, a_Outcome = ar_outcome a,
     a_ErrorReason = ar_error_reason a\<rparr>"

definition new_delivery :: "uuid \<Rightarrow> uuid \<Rightarrow> uuid option \<Rightarrow> instant \<Rightarrow> uuid \<Rightarrow> uuid \<Rightarrow> delivery_row" where
  "new_delivery eventID endpointID source now tenantID i =
     \<lparr>dr_id = i, dr_event_id = eventID, dr_endpoint_id = endpointID, dr_tenant_id = tenantID,
      dr_status = Scheduled, dr_attempt_count = 0, dr_next_attempt_at = now, dr_lease_until = None,
      dr_created_at = now, dr_updated_at = now, dr_source_delivery_id = source\<rparr>"

text \<open>\<open>tenant_id\<close> is \<open>NOT NULL\<close> without a default: an \<open>INSERT\<close> that gives it no value
  is refused.\<close>

definition insert_delivery_values :: "uuid option \<Rightarrow> (uuid \<Rightarrow> uuid \<Rightarrow> delivery_row) \<Rightarrow> delivery_row dbprog" where
  "insert_delivery_values tenantID mk =
     (case tenantID of
        None \<Rightarrow> (\<lambda>s. (Inl (PgError not_null_violation), s\<lparr>uuid_pos := Suc (uuid_pos s)\<rparr>))
      | Some t \<Rightarrow> insert_delivery (mk t))"

section \<open>Creating and reading\<close>

text \<open>The column list of \<open>Create\<close> does not name \<open>tenant_id\<close>.\<close>

definition DeliveryStore_Create :: "uuid \<Rightarrow> uuid \<Rightarrow> uuid option \<Rightarrow> Delivery dbprog" where
  "DeliveryStore_Create eventID endpointID sourceDeliveryID =
     map_errP (Wrap ''create delivery'')
       (bindP (stmt (with_state (\<lambda>s. insert_delivery_values None
                (new_delivery eventID endpointID sourceDeliveryID (now_ts s)))))
         (\<lambda>r. returnP (scanDelivery r)))"

definition DeliveryStore_GetByID :: "uuid \<Rightarrow> Delivery dbprog" where
  "DeliveryStore_GetByID i =
     tryP (stmt (readP (\<lambda>s. row_by dr_id i (deliveries s))))
       (\<lambda>e. failP (Wrap ''get delivery'' e))
       (\<lambda>row. case row of None \<Rightarrow> failP ErrNotFound | Some r \<Rightarrow> returnP (scanDelivery r))"

record WorkerDelivery =
  wd_Delivery :: Delivery
  wd_EndpointURL :: string
  wd_Payload :: bytes
  wd_SigningSecret :: bytes
  wd_EndpointCircuitState :: string

text \<open>The inner join of the delivery with its endpoint and its event.\<close>

definition worker_row :: "uuid \<Rightarrow> db \<Rightarrow> WorkerDelivery option" where
  "worker_row i s =
     (case row_by dr_id i (deliveries s) of None \<Rightarrow> None | Some r \<Rightarrow>
      (case row_by er_id (dr_endpoint_id r) (endpoints s) of None \<Rightarrow> None | Some e \<Rightarrow>
      (case row_by vr_id (dr_event_id r) (events s) of None \<Rightarrow> None | Some v \<Rightarrow>
        Some \<lparr>wd_Delivery = scanDelivery r, wd_EndpointURL = er_url e, wd_Payload = vr_payload v,
          wd_SigningSecret = er_signing_secret e, wd_EndpointCircuitState = circuit_text (er_circuit_state e)\<rparr>)))"

definition DeliveryStore_LoadForWorker :: "uuid \<Rightarrow> WorkerDelivery dbprog" where
  "DeliveryStore_LoadForWorker deliveryID =
     tryP (stmt (readP (worker_row deliveryID)))
       (\<lambda>e. failP (Wrap ''load for worker'' e))
       (\<lambda>row. case row of None \<Rightarrow> failP ErrNotFound | Some wd \<Rightarrow> returnP wd)"

definition attempts_of :: "uuid \<Rightarrow> db \<Rightarrow> attempt_row list" where
  "attempts_of i s = sort_key ar_sequence (filter (\<lambda>a. ar_delivery_id a = i) (attempts s))"

definition DeliveryStore_GetByIDWithAttempts :: "uuid \<Rightarrow> (Delivery \<times> Attempt list) dbprog" where
  "DeliveryStore_GetByIDWithAttempts i =
     tryP (stmt (readP (\<lambda>s. map_option (\<lambda>r. (scanDelivery r, map scanAttempt (attempts_of i s)))
                              (row_by dr_id i (deliveries s)))))
       (\<lambda>e. failP (Wrap ''get delivery with attempts'' e))
       (\<lambda>row. case row of None \<Rightarrow> failP ErrNotFound | Some v \<Rightarrow> returnP v)"

section \<open>Claiming\<close>

text \<open>The circuit condition of the join: closed, or half open with this delivery as probe.\<close>

definition circuit_lets_through :: "db \<Rightarrow> delivery_row \<Rightarrow> bool" where
  "circuit_lets_through s d \<longleftrightarrow>
     (case row_by er_id (dr_endpoint_id d) (endpoints s) of
        None \<Rightarrow> False
      | Some e \<Rightarrow> er_circuit_state e = CircuitClosed \<or>
          (er_circuit_state e = CircuitHalfOpen \<and> er_probe_delivery_id e = Some (dr_id d)))"

text \<open>The \<open>NOT EXISTS\<close> subquery: an earlier delivery of the tenant that is not terminal.\<close>

definition blocks :: "delivery_row \<Rightarrow> delivery_row \<Rightarrow> bool" where
  "blocks d2 d \<longleftrightarrow> dr_tenant_id d2 = dr_tenant_id d \<and> dr_id d2 \<noteq> dr_id d \<and>
     \<not> terminal (dr_status d2) \<and> dr_created_at d2 < dr_created_at d"

definition ready :: "db \<Rightarrow> delivery_row \<Rightarrow> bool" where
  "ready s d \<longleftrightarrow> dr_status d = Scheduled \<and> dr_next_attempt_at d \<le> now_ts s \<and>
     \<not> list_ex (\<lambda>d2. blocks d2 d) (deliveries s) \<and> circuit_lets_through s d"

definition claimed_row :: "instant \<Rightarrow> instant \<Rightarrow> delivery_row \<Rightarrow> delivery_row" where
  "claimed_row leaseUntil now d =
     d\<lparr>dr_status := InFlight, dr_lease_until := Some leaseUntil, dr_updated_at := now\<rparr>"

definition claim_batch :: "nat \<Rightarrow> db \<Rightarrow> delivery_row list" where
  "claim_batch n s = take n (sort_key dr_next_attempt_at (filter (ready s) (deliveries s)))"

definition DeliveryStore_ClaimReady :: "int \<Rightarrow> instant \<Rightarrow> Delivery list dbprog" where
  "DeliveryStore_ClaimReady batch leaseUntil =
     map_errP (Wrap ''claim ready deliveries'') (stmt (with_state (\<lambda>s.
       if batch < 0 then failP (PgError invalid_limit)
       else let claimed = claim_batch (nat batch) s; ids = map dr_id claimed in
         bindP (update_deliveries (\<lambda>d. dr_id d \<in> set ids) (claimed_row leaseUntil (now_ts s)))
           (\<lambda>_. returnP (map (\<lambda>d. scanDelivery (claimed_row leaseUntil (now_ts s) d)) claimed)))))"

section \<open>Marking\<close>

definition delivered_row :: "instant \<Rightarrow> delivery_row \<Rightarrow> delivery_row" where
  "delivered_row now d = d\<lparr>dr_status := Delivered, dr_lease_until := None,
     dr_attempt_count := dr_attempt_count d + 1, dr_updated_at := now\<rparr>"

definition failed_row :: "instant \<Rightarrow> delivery_row \<Rightarrow> delivery_row" where
  "failed_row now d = d\<lparr>dr_status := PermanentlyFailed, dr_lease_until := None,
     dr_attempt_count := dr_attempt_count d + 1, dr_updated_at := now\<rparr>"

definition in_flight_row :: "instant \<Rightarrow> instant \<Rightarrow> delivery_row \<Rightarrow> delivery_row" where
  "in_flight_row leaseUntil now d = d\<lparr>dr_status := InFlight, dr_lease_until := Some leaseUntil,
     dr_updated_at := now\<rparr>"

definition rescheduled_row :: "instant \<Rightarrow> instant \<Rightarrow> delivery_row \<Rightarrow> delivery_row" where
  "rescheduled_row nextAt now d = d\<lparr>dr_status := Scheduled, dr_next_attempt_at := nextAt,
     dr_lease_until := None, dr_attempt_count := dr_attempt_count d + 1, dr_updated_at := now\<rparr>"

definition mark_by_id :: "uuid \<Rightarrow> (instant \<Rightarrow> delivery_row \<Rightarrow> delivery_row) \<Rightarrow> unit dbprog" where
  "mark_by_id i f =
     bindP (stmt (with_state (\<lambda>s. update_deliveries (\<lambda>d. dr_id d = i) (f (now_ts s))))) (\<lambda>_. returnP ())"

definition DeliveryStore_MarkDelivered :: "uuid \<Rightarrow> unit dbprog" where
  "DeliveryStore_MarkDelivered i = mark_by_id i delivered_row"

definition DeliveryStore_MarkPermanentlyFailed :: "uuid \<Rightarrow> unit dbprog" where
  "DeliveryStore_MarkPermanentlyFailed i = mark_by_id i failed_row"

definition DeliveryStore_MarkInFlight :: "uuid \<Rightarrow> instant \<Rightarrow> unit dbprog" where
  "DeliveryStore_MarkInFlight i leaseUntil = mark_by_id i (in_flight_row leaseUntil)"

definition DeliveryStore_Reschedule :: "uuid \<Rightarrow> instant \<Rightarrow> unit dbprog" where
  "DeliveryStore_Reschedule i nextAt = mark_by_id i (rescheduled_row nextAt)"

section \<open>Recovery\<close>

definition lease_expired :: "instant \<Rightarrow> delivery_row \<Rightarrow> bool" where
  "lease_expired now d \<longleftrightarrow> dr_status d = InFlight \<and>
     (case dr_lease_until d of None \<Rightarrow> False | Some u \<Rightarrow> u < now)"

definition resurrected_row :: "instant \<Rightarrow> delivery_row \<Rightarrow> delivery_row" where
  "resurrected_row now d = d\<lparr>dr_status := Scheduled, dr_lease_until := None, dr_updated_at := now\<rparr>"

definition DeliveryStore_ResurrectExpiredLeases :: "int dbprog" where
  "DeliveryStore_ResurrectExpiredLeases =
     map_errP (Wrap ''resurrect expired leases'')
       (stmt (with_state (\<lambda>s. update_deliveries (lease_expired (now_ts s)) (resurrected_row (now_ts s)))))"

definition DeliveryStore_PurgeExpiredIdempotencyRecords :: "int dbprog" where
  "DeliveryStore_PurgeExpiredIdempotencyRecords =
     map_errP (Wrap ''purge idempotency records'')
       (stmt (\<lambda>s. let old = (\<lambda>i. ir_expires_at i < now_ts s) in
          (Inr (int (length (filter old (idempotency_records s)))),
           s\<lparr>idempotency_records := del_where old (idempotency_records s)\<rparr>)))"

section \<open>Dead letters\<close>

definition matches :: "DLQFilter \<Rightarrow> delivery_row \<Rightarrow> bool" where
  "matches filt d \<longleftrightarrow> dr_status d = PermanentlyFailed \<and>
     (case f_TenantID filt of None \<Rightarrow> True | Some t \<Rightarrow> dr_tenant_id d = t) \<and>
     (case f_EndpointID filt of None \<Rightarrow> True | Some e \<Rightarrow> dr_endpoint_id d = e)"

text \<open>\<open>MAX(completed_at)\<close> over the attempts of a delivery; \<open>NULL\<close> when there is none.\<close>

definition last_completed :: "uuid \<Rightarrow> db \<Rightarrow> instant option" where
  "last_completed i s =
     (case List.map_filter ar_completed_at (filter (\<lambda>a. ar_delivery_id a = i) (attempts s)) of
        [] \<Rightarrow> None | t # ts \<Rightarrow> Some (fold max ts t))"

definition dlq_entry :: "db \<Rightarrow> delivery_row \<Rightarrow> DLQEntry" where
  "dlq_entry s d = \<lparr>q_DeliveryID = dr_id d, q_EventID = dr_event_id d, q_EndpointID = dr_endpoint_id d,
     q_TenantID = dr_tenant_id d, q_AttemptCount = dr_attempt_count d,
     q_FailedAt = (case last_completed (dr_id d) s of None \<Rightarrow> dr_updated_at d | Some t \<Rightarrow> t)\<rparr>"

definition dead_letters :: "DLQFilter \<Rightarrow> db \<Rightarrow> delivery_row list" where
  "dead_letters filt s = sort_key (\<lambda>d. - dr_updated_at d) (filter (matches filt) (deliveries s))"

text \<open>The offset is computed in \<open>int\<close> arithmetic; the server refuses a negative one.\<close>

definition DeliveryStore_ListPermanentlyFailed :: "DLQFilter \<Rightarrow> int \<Rightarrow> int \<Rightarrow> DLQEntry list dbprog" where
  "DeliveryStore_ListPermanentlyFailed filt page limit =
     (let offset = wrap64 (wrap64 (page - 1) * wrap64 (limit - 1)) in
      map_errP (Wrap ''list permanently failed'') (stmt (with_state (\<lambda>s.
        if limit < 0 then failP (PgError invalid_limit)
        else if offset < 0 then failP (PgError invalid_offset)
        else returnP (map (dlq_entry s) (take (nat limit) (drop (nat offset) (dead_letters filt s))))))))"

text \<open>\<open>CreateReplay\<close> takes the tenant from the endpoint row.\<close>

definition DeliveryStore_CreateReplay :: "uuid \<Rightarrow> uuid \<Rightarrow> uuid \<Rightarrow> Delivery dbprog" where
  "DeliveryStore_CreateReplay eventID endpointID sourceID =
     map_errP (Wrap ''create replay delivery'')
       (bindP (stmt (with_state (\<lambda>s. insert_delivery_values
                (map_option er_tenant_id (row_by er_id endpointID (endpoints s)))
                (new_delivery eventID endpointID (Some sourceID) (now_ts s)))))
         (\<lambda>r. returnP (scanDelivery r\<lparr>d_SourceDeliveryID := Some sourceID\<rparr>)))"

definition DeliveryStore_GetPermanentlyFailed :: "uuid \<Rightarrow> Delivery dbprog" where
  "DeliveryStore_GetPermanentlyFailed i =
     tryP (stmt (readP (\<lambda>s. find (\<lambda>r. dr_id r = i \<and> dr_status r = PermanentlyFailed) (deliveries s))))
       (\<lambda>e. failP (Wrap ''get permanently failed delivery'' e))
       (\<lambda>row. case row of None \<Rightarrow> failP ErrNotFound | Some r \<Rightarrow> returnP (scanDelivery r))"

definition DeliveryStore_ListPermanentlyFailedIDs :: "DLQFilter \<Rightarrow> uuid list dbprog" where
  "DeliveryStore_ListPermanentlyFailedIDs filt =
     map_errP (Wrap ''list permanently failed IDs'')
       (stmt (readP (\<lambda>s. map dr_id (filter (matches filt) (deliveries s)))))"

definition replay_pending :: "uuid \<Rightarrow> db \<Rightarrow> bool" where
  "replay_pending sourceID s \<longleftrightarrow>
     list_ex (\<lambda>d. dr_source_delivery_id d = Some sourceID \<and>
       (dr_status d = Scheduled \<or> dr_status d = InFlight)) (deliveries s)"

definition DeliveryStore_HasNonTerminalReplay :: "uuid \<Rightarrow> bool dbprog" where
  "DeliveryStore_HasNonTerminalReplay sourceID =
     map_errP (Wrap ''has non-terminal replay'') (stmt (readP (replay_pending sourceID)))"

lemmas delivery_rows = claimed_row_def delivered_row_def failed_row_def in_flight_row_def
  rescheduled_row_def resurrected_row_def

section \<open>The operations keep the database invariant\<close>

lemma keeps_delivery_keys_rows [simp]:
  "keeps_delivery_keys (claimed_row l t)" "keeps_delivery_keys (delivered_row t)"
  "keeps_delivery_keys (failed_row t)" "keeps_delivery_keys (in_flight_row l t)"
  "keeps_delivery_keys (rescheduled_row n t)" "keeps_delivery_keys (resurrected_row t)"
  by (simp_all add: keeps_delivery_keys_def delivery_rows)

lemma lease_row_ok_rows [simp]:
  "lease_row_ok (claimed_row l t r)" "lease_row_ok (delivered_row t r)" "lease_row_ok (failed_row t r)"
  "lease_row_ok (in_flight_row l t r)" "lease_row_ok (rescheduled_row n t r)"
  "lease_row_ok (resurrected_row t r)"
  by (simp_all add: lease_row_ok_def delivery_rows)

lemma mark_by_id_preserves:
  "(\<And>t. keeps_delivery_keys (f t)) \<Longrightarrow> (\<And>t r. lease_row_ok (f t r)) \<Longrightarrow> preserves db_ok (mark_by_id i f)"
  unfolding mark_by_id_def by (intro preserves_intros preserves_update_deliveries) auto

lemma marks_preserve [preserves_intros]:
  "preserves db_ok (DeliveryStore_MarkDelivered i)"
  "preserves db_ok (DeliveryStore_MarkPermanentlyFailed i)"
  "preserves db_ok (DeliveryStore_MarkInFlight i l)"
  "preserves db_ok (DeliveryStore_Reschedule i n)"
  unfolding DeliveryStore_MarkDelivered_def DeliveryStore_MarkPermanentlyFailed_def
    DeliveryStore_MarkInFlight_def DeliveryStore_Reschedule_def
  by (rule mark_by_id_preserves; simp)+

lemma reads_preserve [preserves_intros]:
  "preserves I (stmt (readP g)) \<Longrightarrow> preserves I (tryP (stmt (readP g)) (\<lambda>e. failP (h e))
     (\<lambda>row. case row of None \<Rightarrow> failP e' | Some r \<Rightarrow> returnP (f r)))"
  by (intro preserves_intros)

lemma delivery_reads_preserve [preserves_intros]:
  "preserves db_ok (DeliveryStore_GetByID i)"
  "preserves db_ok (DeliveryStore_LoadForWorker i)"
  "preserves db_ok (DeliveryStore_GetByIDWithAttempts i)"
  "preserves db_ok (DeliveryStore_GetPermanentlyFailed i)"
  "preserves db_ok (DeliveryStore_ListPermanentlyFailedIDs filt)"
  "preserves db_ok (DeliveryStore_HasNonTerminalReplay i)"
  "preserves db_ok (DeliveryStore_ListPermanentlyFailed filt page limit)"
  unfolding DeliveryStore_GetByID_def DeliveryStore_LoadForWorker_def
    DeliveryStore_GetByIDWithAttempts_def DeliveryStore_GetPermanentlyFailed_def
    DeliveryStore_ListPermanentlyFailedIDs_def DeliveryStore_HasNonTerminalReplay_def
    DeliveryStore_ListPermanentlyFailed_def Let_def
  by (intro preserves_intros)+

lemma ClaimReady_preserves [preserves_intros]: "preserves db_ok (DeliveryStore_ClaimReady batch l)"
  unfolding DeliveryStore_ClaimReady_def Let_def
  by (intro preserves_intros preserves_update_deliveries) auto

lemma ResurrectExpiredLeases_preserves [preserves_intros]:
  "preserves db_ok DeliveryStore_ResurrectExpiredLeases"
  unfolding DeliveryStore_ResurrectExpiredLeases_def
  by (intro preserves_intros preserves_update_deliveries) auto

lemma db_ok_purge: "db_ok s \<Longrightarrow> db_ok (s\<lparr>idempotency_records := del_where p (idempotency_records s)\<rparr>)"
  by (auto simp: db_ok_defs del_where_def delivery_linked_def idempotency_complete_def
      intro: distinct_map_filter)

lemma Purge_preserves [preserves_intros]: "preserves db_ok DeliveryStore_PurgeExpiredIdempotencyRecords"
  unfolding DeliveryStore_PurgeExpiredIdempotencyRecords_def
  by (intro preserves_intros) (simp add: preserves_def db_ok_purge Let_def)

lemma Create_preserves [preserves_intros]: "preserves db_ok (DeliveryStore_Create v e src)"
  unfolding DeliveryStore_Create_def insert_delivery_values_def option.case
  by (intro preserves_intros) (simp add: preserves_def)

lemma CreateReplay_db_ok:
  assumes ok: "db_ok s" and d: "d \<in> set (deliveries s)" "dr_event_id d = v" "dr_endpoint_id d = e"
  shows "db_ok (snd (DeliveryStore_CreateReplay v e src s))"
proof -
  define mk where "mk = new_delivery v e (Some src) (now_ts s)"
  have ins: "db_ok (snd (insert_delivery_values (map_option er_tenant_id (row_by er_id e (endpoints s))) mk t))"
    if t: "db_ok t" "endpoints t = endpoints s" "events t = events s" for t
  proof (cases "row_by er_id e (endpoints s)")
    case None
    with t show ?thesis by (simp add: insert_delivery_values_def)
  next
    case (Some er)
    then have er: "er \<in> set (endpoints s)" "er_id er = e" using row_by_SomeD by fastforce+
    have link: "delivery_linked t (mk (er_tenant_id er) i)" for i
      using ok d t er by (auto simp: mk_def new_delivery_def delivery_linked_def db_ok_def consistent_def)
    have "lease_row_ok (mk (er_tenant_id er) i)" for i
      by (simp add: mk_def new_delivery_def lease_row_ok_def)
    with t link Some show ?thesis
      by (simp add: insert_delivery_values_def insert_delivery_db_ok)
  qed
  have "db_ok (snd (stmt (with_state (\<lambda>s'. insert_delivery_values
      (map_option er_tenant_id (row_by er_id e (endpoints s'))) (new_delivery v e (Some src) (now_ts s')))) s))"
    using ins [of "s\<lparr>faults := tl (faults s)\<rparr>"] ok
      stmt_cases_state [of "with_state (\<lambda>s'. insert_delivery_values
        (map_option er_tenant_id (row_by er_id e (endpoints s'))) (new_delivery v e (Some src) (now_ts s')))" s]
    by (auto simp: mk_def)
  then show ?thesis
    by (auto simp: DeliveryStore_CreateReplay_def bindP_def split: prod.splits sum.splits)
qed

section \<open>What the operations do\<close>

lemma replay_index_mono:
  assumes "\<And>r. r \<in> set rows \<Longrightarrow> p r \<Longrightarrow> active_replay (f r) \<Longrightarrow> active_replay r"
    and "keeps_delivery_keys f" and "replay_index_ok rows"
  shows "replay_index_ok (upd_where p f rows)"
proof -
  have src: "dr_source_delivery_id (f r) = dr_source_delivery_id r" for r
    using assms(2) by (simp add: keeps_delivery_keys_def)
  have "set (map dr_source_delivery_id (filter active_replay (upd_where p f rows)))
      \<subseteq> set (map dr_source_delivery_id (filter active_replay rows)) \<and> replay_index_ok (upd_where p f rows)"
    using assms(1,3)
  proof (induction rows)
    case Nil
    then show ?case by (simp add: replay_index_ok_def)
  next
    case (Cons r rows)
    have "replay_index_ok rows" using Cons.prems(2) by (auto simp: replay_index_ok_def split: if_splits)
    with Cons have IH: "set (map dr_source_delivery_id (filter active_replay (upd_where p f rows)))
        \<subseteq> set (map dr_source_delivery_id (filter active_replay rows)) \<and> replay_index_ok (upd_where p f rows)"
      by simp
    have act: "p r \<Longrightarrow> active_replay (f r) \<Longrightarrow> active_replay r" using Cons.prems(1) by simp
    show ?case
    proof (cases "active_replay r")
      case True
      with Cons.prems(2) have "dr_source_delivery_id r \<notin> set (map dr_source_delivery_id (filter active_replay rows))"
        by (simp add: replay_index_ok_def)
      with IH src True show ?thesis by (auto simp: replay_index_ok_def)
    next
      case False
      with IH act show ?thesis by (auto simp: replay_index_ok_def)
    qed
  qed
  then show ?thesis by simp
qed

lemma update_deliveries_ok:
  assumes "schema_ok s" and "keeps_delivery_keys f"
    and "\<And>r. r \<in> set (deliveries s) \<Longrightarrow> p r \<Longrightarrow> active_replay (f r) \<Longrightarrow> active_replay r"
  shows "update_deliveries p f s =
    (Inr (int (length (filter p (deliveries s)))), s\<lparr>deliveries := upd_where p f (deliveries s)\<rparr>)"
  using assms replay_index_mono [of "deliveries s" p f]
  by (simp add: update_deliveries_def Let_def schema_ok_def uniques_ok_def)

lemma row_by_update_deliveries:
  "keeps_delivery_keys f \<Longrightarrow> row_by dr_id k (upd_where p f rows) =
    map_option (\<lambda>r. if p r then f r else r) (row_by dr_id k rows)"
  by (rule row_by_upd_where) (simp add: keeps_delivery_keys_def)

lemma mark_by_id_eq:
  assumes "schema_ok s" and "faults s = []" and "\<And>t. keeps_delivery_keys (f t)"
    and "\<And>r. row_by dr_id i (deliveries s) = Some r \<Longrightarrow> active_replay (f (now_ts s) r) \<Longrightarrow> active_replay r"
  shows "mark_by_id i f s =
    (Inr (), s\<lparr>deliveries := upd_where (\<lambda>d. dr_id d = i) (f (now_ts s)) (deliveries s)\<rparr>)"
proof -
  have "row_by dr_id i (deliveries s) = Some r" if "r \<in> set (deliveries s)" "dr_id r = i" for r
    using that assms(1) row_by_unique by (fastforce simp: schema_defs)
  then show ?thesis
    using assms unfolding mark_by_id_def
    by (subst bindP_Inr) (auto simp: update_deliveries_ok)
qed

lemma active_replay_terminal [simp]:
  "\<not> active_replay (delivered_row t r)" "\<not> active_replay (failed_row t r)"
  by (simp_all add: active_replay_def delivery_rows)

lemma MarkDelivered_eq:
  assumes "schema_ok s" and "faults s = []"
  shows "DeliveryStore_MarkDelivered i s =
    (Inr (), s\<lparr>deliveries := upd_where (\<lambda>d. dr_id d = i) (delivered_row (now_ts s)) (deliveries s)\<rparr>)"
  unfolding DeliveryStore_MarkDelivered_def using assms by (intro mark_by_id_eq) auto

lemma MarkPermanentlyFailed_eq:
  assumes "schema_ok s" and "faults s = []"
  shows "DeliveryStore_MarkPermanentlyFailed i s =
    (Inr (), s\<lparr>deliveries := upd_where (\<lambda>d. dr_id d = i) (failed_row (now_ts s)) (deliveries s)\<rparr>)"
  unfolding DeliveryStore_MarkPermanentlyFailed_def using assms by (intro mark_by_id_eq) auto

lemma Reschedule_eq:
  assumes "schema_ok s" and "faults s = []"
    and "\<And>r. row_by dr_id i (deliveries s) = Some r \<Longrightarrow> terminal (dr_status r) \<Longrightarrow> dr_source_delivery_id r = None"
  shows "DeliveryStore_Reschedule i n s =
    (Inr (), s\<lparr>deliveries := upd_where (\<lambda>d. dr_id d = i) (rescheduled_row n (now_ts s)) (deliveries s)\<rparr>)"
proof -
  have "active_replay r" if "row_by dr_id i (deliveries s) = Some r"
      "active_replay (rescheduled_row n (now_ts s) r)" for r
    using that assms(3) [of r] by (cases "dr_status r") (auto simp: active_replay_def delivery_rows)
  then show ?thesis
    unfolding DeliveryStore_Reschedule_def using assms(1,2) by (intro mark_by_id_eq) auto
qed

text \<open>On a row in flight the statements do what the methods of \<open>domain.Delivery\<close> do, and
  also set \<open>updated_at\<close>.\<close>

lemma delivered_row_refines:
  "dr_status r = InFlight \<Longrightarrow>
   Delivery_MarkDelivered (scanDelivery r) = Inr (scanDelivery (delivered_row now r)\<lparr>d_UpdatedAt := dr_updated_at r\<rparr>)"
  by (simp add: Delivery_MarkDelivered_def scanDelivery_def delivered_row_def)

lemma failed_row_refines:
  "dr_status r = InFlight \<Longrightarrow>
   Delivery_MarkPermanentlyFailed (scanDelivery r) = Inr (scanDelivery (failed_row now r)\<lparr>d_UpdatedAt := dr_updated_at r\<rparr>)"
  by (simp add: Delivery_MarkPermanentlyFailed_def scanDelivery_def failed_row_def)

lemma rescheduled_row_refines:
  "dr_status r = InFlight \<Longrightarrow>
   Delivery_RescheduleAfter delay t (scanDelivery r) =
     Inr (scanDelivery (rescheduled_row (t + delay) now r)\<lparr>d_UpdatedAt := dr_updated_at r\<rparr>)"
  by (simp add: Delivery_RescheduleAfter_def scanDelivery_def rescheduled_row_def)

lemma claimed_row_refines:
  "dr_status r = Scheduled \<Longrightarrow>
   Delivery_MarkInFlight lease (scanDelivery r) =
     Inr (scanDelivery (claimed_row lease now r)\<lparr>d_UpdatedAt := dr_updated_at r\<rparr>)"
  by (simp add: Delivery_MarkInFlight_def scanDelivery_def claimed_row_def)

subsection \<open>Claims\<close>

lemma set_claim_batch: "set (claim_batch n s) \<subseteq> {d \<in> set (deliveries s). ready s d}"
proof -
  have "set (claim_batch n s) \<subseteq> set (sort_key dr_next_attempt_at (filter (ready s) (deliveries s)))"
    unfolding claim_batch_def by (rule set_take_subset)
  then show ?thesis by auto
qed

lemma claim_batch_all:
  assumes "length (filter (ready s) (deliveries s)) \<le> n"
  shows "set (claim_batch n s) = {d \<in> set (deliveries s). ready s d}"
  using assms by (simp add: claim_batch_def)

lemma claimed_iff:
  assumes "schema_ok s" and "d \<in> set (deliveries s)"
  shows "dr_id d \<in> set (map dr_id (claim_batch n s)) \<longleftrightarrow> d \<in> set (claim_batch n s)"
proof
  assume "dr_id d \<in> set (map dr_id (claim_batch n s))"
  then obtain c where c: "c \<in> set (claim_batch n s)" "dr_id d = dr_id c" by auto
  moreover have "c \<in> set (deliveries s)" using c set_claim_batch by blast
  ultimately have "d = c"
    using assms unique_row [of dr_id "deliveries s"] by (auto simp: schema_defs)
  with c show "d \<in> set (claim_batch n s)" by simp
qed auto

lemma ClaimReady_eq:
  assumes ok: "schema_ok s" and "faults s = []" and "0 \<le> batch"
  shows "DeliveryStore_ClaimReady batch lease s =
    (Inr (map (\<lambda>d. scanDelivery (claimed_row lease (now_ts s) d)) (claim_batch (nat batch) s)),
     s\<lparr>deliveries := upd_where (\<lambda>d. d \<in> set (claim_batch (nat batch) s)) (claimed_row lease (now_ts s)) (deliveries s)\<rparr>)"
proof -
  let ?p = "\<lambda>d. dr_id d \<in> set (map dr_id (claim_batch (nat batch) s))"
  have sel: "upd_where ?p f (deliveries s) = upd_where (\<lambda>d. d \<in> set (claim_batch (nat batch) s)) f (deliveries s)" for f
    by (rule upd_where_cong_set) (rule claimed_iff [OF ok])
  have "active_replay r" if "r \<in> set (deliveries s)" "?p r" "active_replay (claimed_row lease (now_ts s) r)" for r
  proof -
    from that ok claimed_iff set_claim_batch have "ready s r" by blast
    with that(3) show ?thesis by (simp add: active_replay_def ready_def claimed_row_def)
  qed
  then have "update_deliveries ?p (claimed_row lease (now_ts s)) s =
      (Inr (int (length (filter ?p (deliveries s)))), s\<lparr>deliveries := upd_where ?p (claimed_row lease (now_ts s)) (deliveries s)\<rparr>)"
    using ok by (intro update_deliveries_ok) auto
  with assms show ?thesis
    by (simp add: DeliveryStore_ClaimReady_def map_errP_def bindP_def Let_def sel del: set_map)
qed

section \<open>Properties\<close>

text \<open>C1. A claim never overtakes: every delivery it returns was scheduled, due, let through by
  its endpoint's circuit, and every earlier delivery of its tenant was already
  terminal; it returns at most the batch, each delivery once, and changes no other
  delivery.\<close>

theorem claim_head_of_line:
  assumes "db_ok s" and "faults s = []" and "0 \<le> batch"
    and "DeliveryStore_ClaimReady batch lease s = (Inr ds, s')"
  shows "int (length ds) \<le> batch \<and> distinct (map d_ID ds) \<and>
    (\<forall>r \<in> set (deliveries s). (\<exists>d \<in> set ds. d_ID d = dr_id r) \<longrightarrow>
       dr_status r = Scheduled \<and> dr_next_attempt_at r \<le> now_ts s \<and> circuit_lets_through s r \<and>
       (\<forall>r2 \<in> set (deliveries s). dr_tenant_id r2 = dr_tenant_id r \<and> dr_created_at r2 < dr_created_at r \<longrightarrow>
          terminal (dr_status r2))) \<and>
    (\<forall>r \<in> set (deliveries s). (\<forall>d \<in> set ds. d_ID d \<noteq> dr_id r) \<longrightarrow> r \<in> set (deliveries s'))"
proof -
  let ?b = "claim_batch (nat batch) s"
  have sch: "schema_ok s" using assms(1) by (simp add: db_ok_def)
  have ds: "ds = map (\<lambda>d. scanDelivery (claimed_row lease (now_ts s) d)) ?b"
    and s': "s' = s\<lparr>deliveries := upd_where (\<lambda>d. d \<in> set ?b) (claimed_row lease (now_ts s)) (deliveries s)\<rparr>"
    using ClaimReady_eq [OF sch assms(2,3), of lease] assms(4) by auto
  have ids: "map d_ID ds = map dr_id ?b" by (simp add: ds scanDelivery_def claimed_row_def comp_def)
  have "length ?b \<le> nat batch" by (simp add: claim_batch_def)
  moreover have "distinct (map dr_id ?b)"
  proof -
    have "distinct (map dr_id (filter (ready s) (deliveries s)))"
      using sch by (simp add: schema_defs distinct_map_filter)
    then have "distinct (map dr_id (sort_key dr_next_attempt_at (filter (ready s) (deliveries s))))"
      by (metis distinct_map distinct_sort set_sort)
    then show ?thesis unfolding claim_batch_def by (metis distinct_take take_map)
  qed
  moreover have sel: "(\<exists>d \<in> set ds. d_ID d = dr_id r) \<longleftrightarrow> r \<in> set ?b" if "r \<in> set (deliveries s)" for r
    using claimed_iff [OF sch that, of "nat batch"] ids
    by (metis (no_types, lifting) imageE imageI list.set_map)
  moreover have "dr_status r = Scheduled \<and> dr_next_attempt_at r \<le> now_ts s \<and> circuit_lets_through s r \<and>
      (\<forall>r2 \<in> set (deliveries s). dr_tenant_id r2 = dr_tenant_id r \<and> dr_created_at r2 < dr_created_at r \<longrightarrow>
          terminal (dr_status r2))" if r: "r \<in> set ?b" for r
  proof -
    have "ready s r" "r \<in> set (deliveries s)" using r set_claim_batch by blast+
    moreover have "dr_id r2 \<noteq> dr_id r" if "r2 \<in> set (deliveries s)" "dr_created_at r2 < dr_created_at r" for r2
      using that unique_row [of dr_id "deliveries s" r2 r] \<open>r \<in> set (deliveries s)\<close> sch by (auto simp: schema_defs)
    ultimately show ?thesis by (auto simp: ready_def blocks_def list_ex_iff)
  qed
  moreover have "r \<in> set (deliveries s')" if "r \<in> set (deliveries s)" "r \<notin> set ?b" for r
    using that by (force simp: s' set_upd_where)
  moreover have "int (length ds) \<le> batch" using \<open>length ?b \<le> nat batch\<close> assms(3) by (simp add: ds)
  ultimately show ?thesis unfolding ids by (metis (no_types, lifting))
qed

theorem claim_head_of_line_witness:
  "\<exists>ds s'. DeliveryStore_ClaimReady 5 2000 sample_due_db = (Inr ds, s') \<and> distinct (map d_ID ds)"
proof -
  have f: "faults sample_due_db = []" by (simp add: sample_due_db_def)
  have "schema_ok sample_due_db" using sample_due_db_ok by (simp add: db_ok_def)
  from ClaimReady_eq [OF this f, of 5 2000] obtain ds s' where
    run: "DeliveryStore_ClaimReady 5 2000 sample_due_db = (Inr ds, s')" by simp
  with claim_head_of_line [OF sample_due_db_ok f _ run] show ?thesis by auto
qed

text \<open>C2. A claim is complete: when the batch has room for all of them, every ready delivery is
  claimed, so the oldest open delivery of a tenant whose circuit lets it through is never passed
  over.\<close>

theorem claim_takes_all_ready:
  assumes "db_ok s" and "faults s = []" and "int (length (filter (ready s) (deliveries s))) \<le> batch"
    and "r \<in> set (deliveries s)" and "ready s r"
  shows "\<exists>ds s'. DeliveryStore_ClaimReady batch lease s = (Inr ds, s') \<and>
    scanDelivery (claimed_row lease (now_ts s) r) \<in> set ds \<and> claimed_row lease (now_ts s) r \<in> set (deliveries s')"
proof -
  have sch: "schema_ok s" using assms(1) by (simp add: db_ok_def)
  have n: "0 \<le> batch" using assms(3) by linarith
  have "set (claim_batch (nat batch) s) = {d \<in> set (deliveries s). ready s d}"
    using assms(3) by (intro claim_batch_all) linarith
  with ClaimReady_eq [OF sch assms(2) n, of lease] assms(4,5) show ?thesis
    by (force simp: set_upd_where)
qed

theorem claim_takes_all_ready_witness:
  "\<exists>ds s'. DeliveryStore_ClaimReady 5 2000 sample_due_db = (Inr ds, s') \<and> ds \<noteq> []"
proof -
  let ?r = "sample_running\<lparr>dr_status := Scheduled, dr_lease_until := None\<rparr>"
  have "faults sample_due_db = []" "?r \<in> set (deliveries sample_due_db)" by (simp_all add: sample_due_db_def)
  moreover have "ready sample_due_db ?r"
    by (simp add: sample_due_db_def sample_defs ready_def blocks_def circuit_lets_through_def)
  moreover have "int (length (filter (ready sample_due_db) (deliveries sample_due_db))) \<le> 5"
  proof -
    have "length (filter (ready sample_due_db) (deliveries sample_due_db)) \<le> length (deliveries sample_due_db)"
      by (rule length_filter_le)
    then show ?thesis by (simp add: sample_due_db_def)
  qed
  ultimately show ?thesis
    using claim_takes_all_ready [OF sample_due_db_ok, of 5 ?r 2000] by auto
qed

text \<open>On a delivery in flight the three marking statements do to the row what the methods of
  the domain do to the entity, and set \<open>updated_at\<close>.\<close>

theorem marks_refine_domain:
  assumes "schema_ok s" and "faults s = []" and "row_by dr_id i (deliveries s) = Some r" and "dr_status r = InFlight"
  shows "(\<exists>r' s'. DeliveryStore_MarkDelivered i s = (Inr (), s') \<and> row_by dr_id i (deliveries s') = Some r' \<and>
      Delivery_MarkDelivered (scanDelivery r) = Inr (scanDelivery r'\<lparr>d_UpdatedAt := dr_updated_at r\<rparr>)) \<and>
    (\<exists>r' s'. DeliveryStore_MarkPermanentlyFailed i s = (Inr (), s') \<and> row_by dr_id i (deliveries s') = Some r' \<and>
      Delivery_MarkPermanentlyFailed (scanDelivery r) = Inr (scanDelivery r'\<lparr>d_UpdatedAt := dr_updated_at r\<rparr>)) \<and>
    (\<exists>r' s'. DeliveryStore_Reschedule i (t + delay) s = (Inr (), s') \<and> row_by dr_id i (deliveries s') = Some r' \<and>
      Delivery_RescheduleAfter delay t (scanDelivery r) = Inr (scanDelivery r'\<lparr>d_UpdatedAt := dr_updated_at r\<rparr>))"
proof -
  have key: "dr_id r = i" using row_by_SomeD [OF assms(3)] by simp
  have row: "row_by dr_id i (upd_where (\<lambda>d. dr_id d = i) f (deliveries s)) = Some (f r)" if "keeps_delivery_keys f" for f
    using row_by_update_deliveries [OF that] assms(3) key by simp
  show ?thesis
    using MarkDelivered_eq [OF assms(1,2), of i] MarkPermanentlyFailed_eq [OF assms(1,2), of i]
      Reschedule_eq [OF assms(1,2), of i "t + delay"] assms(3,4)
      delivered_row_refines [OF assms(4)] failed_row_refines [OF assms(4)] rescheduled_row_refines [OF assms(4)]
    by (simp add: row)
qed

theorem marks_refine_domain_witness:
  "\<exists>s'. DeliveryStore_Reschedule 30 (1000 + 5) sample_db = (Inr (), s')"
  using marks_refine_domain [OF sample_schema_ok sample_faults, of 30 sample_running 1000 5]
  by (auto simp: sample_defs)

text \<open>The statements do not check the status the domain methods check: a worker that holds a
  stale delivery reschedules one that already ended, which the method refuses, and so brings a
  terminal delivery back.\<close>

theorem stale_reschedule_revives_terminal:
  assumes "schema_ok s" and "faults s = []" and "row_by dr_id i (deliveries s) = Some r"
    and "terminal (dr_status r)" and "dr_source_delivery_id r = None"
  shows "\<exists>r' s'. DeliveryStore_Reschedule i t s = (Inr (), s') \<and> row_by dr_id i (deliveries s') = Some r' \<and>
    dr_status r' = Scheduled \<and> \<not> lifecycle (scan_status (dr_status r)) (scan_status (dr_status r')) \<and>
    (\<exists>e. Delivery_RescheduleAfter delay now (scanDelivery r) = Inl e)"
proof -
  have key: "dr_id r = i" using row_by_SomeD [OF assms(3)] by simp
  have "row_by dr_id i (upd_where (\<lambda>d. dr_id d = i) (rescheduled_row t (now_ts s)) (deliveries s)) =
      Some (rescheduled_row t (now_ts s) r)"
    using row_by_update_deliveries [of "rescheduled_row t (now_ts s)"] assms(3) key by simp
  moreover have "DeliveryStore_Reschedule i t s =
      (Inr (), s\<lparr>deliveries := upd_where (\<lambda>d. dr_id d = i) (rescheduled_row t (now_ts s)) (deliveries s)\<rparr>)"
    using assms by (intro Reschedule_eq) auto
  ultimately show ?thesis
    using assms(4)
    by (auto simp: terminal_iff rescheduled_row_def lifecycle_from_delivered lifecycle_from_failed
        Delivery_RescheduleAfter_def scanDelivery_def)
qed

theorem stale_reschedule_revives_terminal_witness:
  "\<exists>r' s'. DeliveryStore_Reschedule 31 2000 sample_db = (Inr (), s') \<and>
     row_by dr_id 31 (deliveries s') = Some r' \<and> dr_status r' = Scheduled"
proof -
  have "row_by dr_id 31 (deliveries sample_db) = Some sample_failed" by (simp add: sample_defs)
  moreover have "terminal (dr_status sample_failed)" "dr_source_delivery_id sample_failed = None"
    by (simp_all add: sample_failed_def)
  ultimately show ?thesis
    using stale_reschedule_revives_terminal [OF sample_schema_ok sample_faults, of 31 sample_failed 2000] by blast
qed

text \<open>\<open>DeliveryStore.Create\<close> never succeeds: its column list leaves out the tenant, which may
  not be null.\<close>

theorem create_without_tenant_fails:
  "\<exists>e. fst (DeliveryStore_Create eventID endpointID source s) = Inl (Wrap ''create delivery'' e)"
  by (cases "faults s")
    (auto simp: DeliveryStore_Create_def map_errP_def bindP_def stmt_def insert_delivery_values_def
      split: fault.splits)

end
