(* ===== verification/Entity_Stores.thy ===== *)
theory Entity_Stores
  imports Delivery_Store
begin

text \<open>
  The stores of the simple entities: \<open>tenant_store.go\<close>, \<open>endpoint_store.go\<close> and
  \<open>attempt_store.go\<close>.  The last sections state the interfaces their clients use as
  locales and interpret them on these operations.
\<close>

section \<open>Tenants\<close>

definition scanTenant :: "tenant_row \<Rightarrow> Tenant" where
  "scanTenant r = \<lparr>tn_ID = tr_id r, tn_Name = tr_name r, tn_CreatedAt = tr_created_at r\<rparr>"

definition TenantStore_Insert :: "string option \<Rightarrow> Tenant dbprog" where
  "TenantStore_Insert name =
     map_errP (Wrap ''insert tenant'')
       (bindP (stmt (with_state (\<lambda>s. insert_tenant
                (\<lambda>i. \<lparr>tr_id = i, tr_name = name, tr_created_at = now_ts s\<rparr>))))
         (\<lambda>r. returnP (scanTenant r)))"

definition TenantStore_GetByID :: "uuid \<Rightarrow> Tenant dbprog" where
  "TenantStore_GetByID i =
     tryP (stmt (readP (\<lambda>s. row_by tr_id i (tenants s))))
       (\<lambda>e. failP (Wrap ''get tenant'' e))
       (\<lambda>row. case row of None \<Rightarrow> failP ErrNotFound | Some r \<Rightarrow> returnP (scanTenant r))"

section \<open>Endpoints\<close>

definition new_endpoint :: "string \<Rightarrow> uuid \<Rightarrow> bytes \<Rightarrow> instant \<Rightarrow> uuid \<Rightarrow> endpoint_row" where
  "new_endpoint url tenantID secret now i =
     \<lparr>er_id = i, er_url = url, er_created_at = now, er_signing_secret = secret, er_tenant_id = tenantID,
      er_circuit_state = CircuitClosed, er_failure_count = 0, er_suspended_until = None,
      er_sensitive_recovery = False, er_probe_delivery_id = None\<rparr>"

text \<open>A nil secret is \<open>NULL\<close> in a \<open>NOT NULL\<close> column.\<close>

definition EndpointStore_Insert :: "Endpoint \<Rightarrow> Endpoint dbprog" where
  "EndpointStore_Insert e =
     map_errP (Wrap ''insert endpoint'')
       (bindP (stmt (with_state (\<lambda>s. case ep_SigningSecret e of
                 None \<Rightarrow> (\<lambda>s. (Inl (PgError not_null_violation), s\<lparr>uuid_pos := Suc (uuid_pos s)\<rparr>))
               | Some secret \<Rightarrow> insert_endpoint (new_endpoint (ep_URL e) (ep_TenantID e) secret (now_ts s)))))
         (\<lambda>r. returnP (e\<lparr>ep_ID := er_id r, ep_TenantID := er_tenant_id r, ep_CreatedAt := er_created_at r,
                         ep_SigningSecret := Some (er_signing_secret r)\<rparr>)))"

definition scanEndpoint :: "endpoint_row \<Rightarrow> Endpoint" where
  "scanEndpoint r = \<lparr>ep_ID = er_id r, ep_URL = er_url r, ep_TenantID = er_tenant_id r,
     ep_CreatedAt = er_created_at r, ep_SigningSecret = None\<rparr>"

definition EndpointStore_GetByID :: "uuid \<Rightarrow> Endpoint dbprog" where
  "EndpointStore_GetByID i =
     tryP (stmt (readP (\<lambda>s. row_by er_id i (endpoints s))))
       (\<lambda>e. failP (Wrap ''get endpoint'' e))
       (\<lambda>row. case row of None \<Rightarrow> failP ErrNotFound | Some r \<Rightarrow> returnP (scanEndpoint r))"

definition EndpointStore_UpdateSecret :: "uuid \<Rightarrow> bytes \<Rightarrow> unit dbprog" where
  "EndpointStore_UpdateSecret i newSecret =
     tryP (stmt (update_endpoints (\<lambda>e. er_id e = i) (er_signing_secret_update (\<lambda>_. newSecret))))
       (\<lambda>e. failP (Wrap ''update secret'' e))
       (\<lambda>n. if n = 0 then failP ErrNotFound else returnP ())"

section \<open>Attempts\<close>

text \<open>The outcome stored at the start is a placeholder.\<close>

definition AttemptStore_InsertStarted :: "uuid \<Rightarrow> int \<Rightarrow> uuid dbprog" where
  "AttemptStore_InsertStarted deliveryID sequence =
     bindP (stmt (with_state (\<lambda>s. insert_attempt (\<lambda>i. \<lparr>ar_id = i, ar_delivery_id = deliveryID,
              ar_sequence = sequence, ar_started_at = now_ts s, ar_completed_at = None,
              ar_response_status_code = None, ar_outcome = OutcomeTransientFailure, ar_error_reason = None\<rparr>))))
       (\<lambda>r. returnP (ar_id r))"

definition AttemptStore_ListByDelivery :: "uuid \<Rightarrow> Attempt list dbprog" where
  "AttemptStore_ListByDelivery deliveryID =
     map_errP (Wrap ''list attempts by delivery'')
       (stmt (readP (\<lambda>s. map scanAttempt (attempts_of deliveryID s))))"

definition outcome_row ::
  "AttemptOutcome \<Rightarrow> instant \<Rightarrow> int option \<Rightarrow> string option \<Rightarrow> attempt_row \<Rightarrow> attempt_row" where
  "outcome_row out now statusCode errorReason a = a\<lparr>ar_outcome := out, ar_completed_at := Some now,
     ar_response_status_code := statusCode, ar_error_reason := errorReason\<rparr>"

text \<open>\<open>now\<close> is the worker's clock, not the database's.\<close>

definition AttemptStore_UpdateOutcome ::
  "uuid \<Rightarrow> AttemptOutcome \<Rightarrow> int option \<Rightarrow> string option \<Rightarrow> instant \<Rightarrow> unit dbprog" where
  "AttemptStore_UpdateOutcome i out statusCode errorReason now =
     stmt (\<lambda>s. (Inr (), s\<lparr>attempts := upd_where (\<lambda>a. ar_id a = i)
                              (outcome_row out now statusCode errorReason) (attempts s)\<rparr>))"

section \<open>The operations keep the database invariant\<close>

lemma tenant_ops_preserve [preserves_intros]:
  "preserves db_ok (TenantStore_Insert name)" "preserves db_ok (TenantStore_GetByID i)"
  unfolding TenantStore_Insert_def TenantStore_GetByID_def by (intro preserves_intros)+

lemma keeps_endpoint_keys_secret [simp]: "keeps_endpoint_keys (er_signing_secret_update g)"
  by (simp add: keeps_endpoint_keys_def)

lemma endpoint_insert_preserves [preserves_intros]: "preserves db_ok (EndpointStore_Insert e)"
proof (cases "ep_SigningSecret e")
  case None
  have "preserves db_ok (\<lambda>s. (Inl (PgError not_null_violation) :: err + endpoint_row, s\<lparr>uuid_pos := Suc (uuid_pos s)\<rparr>))"
    by (simp add: preserves_def)
  then show ?thesis
    unfolding EndpointStore_Insert_def None option.case by (intro preserves_intros)
next
  case (Some secret)
  show ?thesis
    unfolding EndpointStore_Insert_def Some option.case
    by (intro preserves_intros preserves_insert_endpoint) (simp add: new_endpoint_def circuit_ok_def)
qed

lemma endpoint_ops_preserve [preserves_intros]:
  "preserves db_ok (EndpointStore_GetByID i)" "preserves db_ok (EndpointStore_UpdateSecret i secret)"
  unfolding EndpointStore_GetByID_def EndpointStore_UpdateSecret_def
  by (intro preserves_intros preserves_update_endpoints; simp add: circuit_ok_def)+

lemma db_ok_set_attempts:
  assumes ok: "db_ok s"
    and keys: "\<And>a. ar_id (f a) = ar_id a \<and> ar_delivery_id (f a) = ar_delivery_id a \<and> ar_sequence (f a) = ar_sequence a"
  shows "db_ok (s\<lparr>attempts := upd_where p f (attempts s)\<rparr>)"
proof -
  have "map ar_id (upd_where p f (attempts s)) = map ar_id (attempts s)"
    and "map (\<lambda>a. (ar_delivery_id a, ar_sequence a)) (upd_where p f (attempts s)) =
         map (\<lambda>a. (ar_delivery_id a, ar_sequence a)) (attempts s)"
    using keys by (simp_all add: map_upd_where)
  then show ?thesis
    using ok keys
    by (simp add: db_ok_defs delivery_linked_def idempotency_complete_def ball_upd_where)
qed

lemma attempt_ops_preserve [preserves_intros]:
  "preserves db_ok (AttemptStore_InsertStarted i n)"
  "preserves db_ok (AttemptStore_ListByDelivery i)"
  "preserves db_ok (AttemptStore_UpdateOutcome a out code reason now)"
  unfolding AttemptStore_InsertStarted_def AttemptStore_ListByDelivery_def AttemptStore_UpdateOutcome_def
  by (intro preserves_intros; simp add: preserves_def db_ok_set_attempts outcome_row_def)+

section \<open>Healthy states\<close>

text \<open>A database whose constraints hold, on a connection that works.\<close>

definition healthy :: "db \<Rightarrow> bool" where
  "healthy s \<longleftrightarrow> schema_ok s \<and> faults s = []"

text \<open>The next \<open>n\<close> keys are new and distinct: what \<open>gen_random_uuid()\<close> is documented to
  give, as far as \<open>n\<close> insertions need it.\<close>

definition used_keys :: "db \<Rightarrow> uuid set" where
  "used_keys s = tenant_ids s \<union> endpoint_ids s \<union> event_ids s \<union> delivery_ids s \<union>
     ar_id ` set (attempts s) \<union> ir_id ` set (idempotency_records s)"

definition fresh_keys :: "nat \<Rightarrow> db \<Rightarrow> bool" where
  "fresh_keys n s \<longleftrightarrow> distinct (map (uuid_src s) [uuid_pos s ..< uuid_pos s + n]) \<and>
     (\<forall>j < n. uuid_src s (uuid_pos s + j) \<notin> used_keys s)"

lemma fresh_keys_mono: "fresh_keys n s \<Longrightarrow> m \<le> n \<Longrightarrow> fresh_keys m s"
  by (auto simp: fresh_keys_def distinct_map inj_on_def)

lemma fresh_keys_next: "fresh_keys (Suc n) s \<Longrightarrow> uuid_src s (uuid_pos s) \<notin> used_keys s"
  by (auto simp: fresh_keys_def dest: spec [of _ 0])

text \<open>Using one key leaves the others fresh.\<close>

lemma fresh_keys_step:
  assumes "fresh_keys (Suc n) s" and "uuid_src s' = uuid_src s" and "uuid_pos s' = Suc (uuid_pos s)"
    and "used_keys s' \<subseteq> insert (uuid_src s (uuid_pos s)) (used_keys s)"
  shows "fresh_keys n s'"
  unfolding fresh_keys_def
proof (intro conjI allI impI)
  have d: "distinct (map (uuid_src s) [uuid_pos s ..< Suc (uuid_pos s + n)])"
    using assms(1) by (simp add: fresh_keys_def)
  then have d': "distinct (uuid_src s (uuid_pos s) # map (uuid_src s) [Suc (uuid_pos s) ..< Suc (uuid_pos s + n)])"
    by (subst (asm) upt_conv_Cons) simp_all
  with assms(2,3) show "distinct (map (uuid_src s') [uuid_pos s' ..< uuid_pos s' + n])" by simp
  fix j assume j: "j < n"
  have "uuid_src s (Suc (uuid_pos s) + j) \<noteq> uuid_src s (uuid_pos s)"
  proof -
    from d' have "uuid_src s (uuid_pos s) \<notin> uuid_src s ` set [Suc (uuid_pos s) ..< Suc (uuid_pos s + n)]"
      unfolding distinct.simps set_map by (rule conjunct1)
    moreover have "Suc (uuid_pos s) + j \<in> set [Suc (uuid_pos s) ..< Suc (uuid_pos s + n)]"
      using j by auto
    ultimately show ?thesis by (metis imageI)
  qed
  moreover from j have "Suc j < Suc n" by simp
  then have "uuid_src s (uuid_pos s + Suc j) \<notin> used_keys s"
    using assms(1) unfolding fresh_keys_def by blast
  ultimately show "uuid_src s' (uuid_pos s' + j) \<notin> used_keys s'"
    using assms(2,3) subsetD [OF assms(4)] by (metis add_Suc_right add_Suc insertE)
qed

lemma get_tenant_eq:
  "faults s = [] \<Longrightarrow> TenantStore_GetByID i s =
     (case row_by tr_id i (tenants s) of None \<Rightarrow> Inl ErrNotFound | Some r \<Rightarrow> Inr (scanTenant r), s)"
  by (auto simp: TenantStore_GetByID_def tryP_def split: option.splits)

lemma get_endpoint_eq:
  "faults s = [] \<Longrightarrow> EndpointStore_GetByID i s =
     (case row_by er_id i (endpoints s) of None \<Rightarrow> Inl ErrNotFound | Some r \<Rightarrow> Inr (scanEndpoint r), s)"
  by (auto simp: EndpointStore_GetByID_def tryP_def split: option.splits)

lemma insert_tenant_eq:
  assumes "faults s = []" and "name_check name" and "pred_option text_ok name" and "uuid_src s (uuid_pos s) \<notin> tenant_ids s"
  shows "TenantStore_Insert name s =
    (let r = \<lparr>tr_id = uuid_src s (uuid_pos s), tr_name = name, tr_created_at = now_ts s\<rparr>
     in (Inr (scanTenant r), s\<lparr>uuid_pos := Suc (uuid_pos s), tenants := tenants s @ [r]\<rparr>))"
  using assms
  by (simp add: TenantStore_Insert_def map_errP_def bindP_def insert_tenant_def insert_row_def
      check_tenant_def Let_def)

section \<open>Reads\<close>

text \<open>Two databases with the same tables and clock.\<close>

definition same_tables :: "db \<Rightarrow> db \<Rightarrow> bool" where
  "same_tables s s' \<longleftrightarrow> s' = s\<lparr>uuid_pos := uuid_pos s', faults := faults s'\<rparr>"

lemma same_tables_refl [simp]: "same_tables s s"
  by (simp add: same_tables_def)

lemma same_tables_iff:
  "same_tables s s' \<longleftrightarrow> tenants s' = tenants s \<and> endpoints s' = endpoints s \<and> events s' = events s \<and>
     deliveries s' = deliveries s \<and> attempts s' = attempts s \<and>
     idempotency_records s' = idempotency_records s \<and> now_ts s' = now_ts s \<and> uuid_src s' = uuid_src s"
  by (cases s; cases s') (auto simp: same_tables_def)

lemma same_tables_trans: "same_tables a b \<Longrightarrow> same_tables b c \<Longrightarrow> same_tables a c"
  by (simp add: same_tables_iff)

lemma same_tables_pred: "table_pred I \<Longrightarrow> same_tables a b \<Longrightarrow> I b = I a"
  by (subst same_tables_def [THEN iffD1, of a b]) (auto simp: table_pred_def)

lemma stmt_read_same: "stmt (readP g) s = (r, s') \<Longrightarrow> same_tables s s'"
  using stmt_cases_state [of "readP g" s] by (auto simp: same_tables_iff)

lemma get_endpoint_same: "EndpointStore_GetByID i s = (x, s') \<Longrightarrow> same_tables s s'"
proof -
  assume a: "EndpointStore_GetByID i s = (x, s')"
  obtain y s1 where y: "stmt (readP (\<lambda>s. row_by er_id i (endpoints s))) s = (y, s1)" by fastforce
  with a have "s' = s1"
    by (auto simp: EndpointStore_GetByID_def tryP_def split: sum.splits option.splits)
  with stmt_read_same [OF y] show ?thesis by simp
qed

lemma get_endpoint_Inr:
  "EndpointStore_GetByID i s = (Inr ep, s') \<Longrightarrow>
     \<exists>er. row_by er_id i (endpoints s) = Some er \<and> ep = scanEndpoint er"
  by (auto simp: EndpointStore_GetByID_def tryP_def split: prod.splits sum.splits option.splits
      dest!: stmt_Inr_D)

lemma get_tenant_same: "TenantStore_GetByID i s = (x, s') \<Longrightarrow> same_tables s s'"
proof -
  assume a: "TenantStore_GetByID i s = (x, s')"
  obtain y s1 where y: "stmt (readP (\<lambda>s. row_by tr_id i (tenants s))) s = (y, s1)" by fastforce
  with a have "s' = s1"
    by (auto simp: TenantStore_GetByID_def tryP_def split: sum.splits option.splits)
  with stmt_read_same [OF y] show ?thesis by simp
qed

section \<open>Interfaces\<close>

text \<open>What a client of a tenant directory relies on (\<open>tenantStore\<close> and
  \<open>tenantExistsChecker\<close> of the service package): reading does not change the store, a
  tenant that was inserted is found, and a missing one is reported as such.\<close>

locale tenant_directory =
  fixes insert_op :: "string option \<Rightarrow> (err, 's, Tenant) prog"
    and get_op :: "uuid \<Rightarrow> (err, 's, Tenant) prog"
    and known :: "'s \<Rightarrow> uuid \<Rightarrow> bool"
    and good :: "'s \<Rightarrow> bool"
  assumes get_known: "good s \<Longrightarrow> known s i \<Longrightarrow> \<exists>t. get_op i s = (Inr t, s) \<and> tn_ID t = i"
    and get_unknown: "good s \<Longrightarrow> \<not> known s i \<Longrightarrow> get_op i s = (Inl ErrNotFound, s)"
    and inserted: "good s \<Longrightarrow> insert_op name s = (Inr t, s') \<Longrightarrow>
      good s' \<and> known s' (tn_ID t) \<and> tn_Name t = name \<and> get_op (tn_ID t) s' = (Inr t, s')"
begin

lemma get_keeps_store: "good s \<Longrightarrow> snd (get_op i s) = s"
  by (cases "known s i") (use get_known get_unknown in fastforce)+

lemma get_succeeds_iff: "good s \<Longrightarrow> (\<exists>t s'. get_op i s = (Inr t, s')) \<longleftrightarrow> known s i"
  by (cases "known s i") (use get_known get_unknown in fastforce)+

lemma get_fails_not_found: "good s \<Longrightarrow> get_op i s = (Inl e, s') \<Longrightarrow> e = ErrNotFound \<and> s' = s"
  by (cases "known s i") (use get_known get_unknown in fastforce)+

end

lemma schema_ok_add_tenant: "schema_ok s \<Longrightarrow> check_tenant s r = None \<Longrightarrow> schema_ok (s\<lparr>tenants := tenants s @ [r]\<rparr>)"
  by (auto simp: schema_defs check_tenant_def split: if_splits)

lemma schema_ok_uuid_pos [simp]: "schema_ok (s\<lparr>uuid_pos := n\<rparr>) = schema_ok s"
  by (simp add: schema_defs)

interpretation tenant_table: tenant_directory TenantStore_Insert TenantStore_GetByID
    "\<lambda>s i. i \<in> tenant_ids s" healthy
proof
  fix s i assume h: "healthy s"
  show "i \<in> tenant_ids s \<Longrightarrow> \<exists>t. TenantStore_GetByID i s = (Inr t, s) \<and> tn_ID t = i"
    using h row_by_None_iff [of tr_id i "tenants s"]
    by (auto simp: healthy_def get_tenant_eq scanTenant_def dest!: row_by_SomeD split: option.splits)
  show "i \<notin> tenant_ids s \<Longrightarrow> TenantStore_GetByID i s = (Inl ErrNotFound, s)"
    using h row_by_None_iff [of tr_id i "tenants s"] by (simp add: healthy_def get_tenant_eq)
next
  fix s name t s'
  assume h: "healthy s" and ins: "TenantStore_Insert name s = (Inr t, s')"
  define r where "r = \<lparr>tr_id = uuid_src s (uuid_pos s), tr_name = name, tr_created_at = now_ts s\<rparr>"
  have *: "t = scanTenant r" "check_tenant (s\<lparr>uuid_pos := Suc (uuid_pos s)\<rparr>) r = None"
      "s' = s\<lparr>uuid_pos := Suc (uuid_pos s), tenants := tenants s @ [r]\<rparr>"
    using h ins
    by (auto simp: TenantStore_Insert_def map_errP_eq_Inr bindP_eq_Inr healthy_def insert_tenant_def
        insert_row_Inr r_def)
  have "tr_id r \<notin> tenant_ids s" using *(2) by (auto simp: check_tenant_def split: if_splits)
  then have "row_by tr_id (tr_id r) (tenants s @ [r]) = Some r"
    using row_by_None_iff [of tr_id "tr_id r" "tenants s"] by (simp add: image_iff)
  moreover have "schema_ok s'"
    using schema_ok_add_tenant [of "s\<lparr>uuid_pos := Suc (uuid_pos s)\<rparr>" r] * h by (simp add: healthy_def)
  ultimately show "healthy s' \<and> tn_ID t \<in> tenant_ids s' \<and> tn_Name t = name \<and>
      TenantStore_GetByID (tn_ID t) s' = (Inr t, s')"
    using * h by (simp add: healthy_def get_tenant_eq scanTenant_def r_def)
qed

end
