(* ===== verification/Entity_Services.thy ===== *)
theory Entity_Services
  imports Entity_Stores Sample
begin

text \<open>
  \<open>internal/service/tenant_service.go\<close> and \<open>endpoint_service.go\<close>.

  A service is a record of the operations of the store it was constructed with, as in the
  code, whose fields are Go interfaces.  The facts about a service are proved for every
  store that meets the interface (the locale of the store) and reach the program through
  the interpretation on the PostgreSQL store.
  \<open>parse\<close> stands for \<open>url.Parse\<close>, \<open>rand_read n\<close> for \<open>crypto/rand\<close> filling \<open>n\<close> bytes.
\<close>

section \<open>Tenants\<close>

record 's TenantService =
  ts_Insert :: "string option \<Rightarrow> (err, 's, Tenant) prog"
  ts_GetByID :: "uuid \<Rightarrow> (err, 's, Tenant) prog"

definition TenantService_Create :: "'s TenantService \<Rightarrow> string option \<Rightarrow> (err, 's, Tenant) prog" where
  "TenantService_Create svc name = map_errP (Wrap ''tenant service create'') (ts_Insert svc name)"

definition TenantService_GetByID :: "'s TenantService \<Rightarrow> uuid \<Rightarrow> (err, 's, Tenant) prog" where
  "TenantService_GetByID svc i = ts_GetByID svc i"

definition tenant_service :: "db TenantService" where
  "tenant_service = \<lparr>ts_Insert = TenantStore_Insert, ts_GetByID = TenantStore_GetByID\<rparr>"

section \<open>Endpoints\<close>

record 's EndpointService =
  es_Insert :: "Endpoint \<Rightarrow> (err, 's, Endpoint) prog"
  es_GetByID :: "uuid \<Rightarrow> (err, 's, Endpoint) prog"
  es_UpdateSecret :: "uuid \<Rightarrow> bytes \<Rightarrow> (err, 's, unit) prog"
  es_tenants :: "(uuid \<Rightarrow> (err, 's, Tenant) prog) option"

text \<open>\<open>NewEndpointService\<close>: the variadic tenant checker, the first one if any.\<close>

definition NewEndpointService ::
  "(Endpoint \<Rightarrow> (err, 's, Endpoint) prog) \<Rightarrow> (uuid \<Rightarrow> (err, 's, Endpoint) prog) \<Rightarrow>
   (uuid \<Rightarrow> bytes \<Rightarrow> (err, 's, unit) prog) \<Rightarrow> (uuid \<Rightarrow> (err, 's, Tenant) prog) list \<Rightarrow> 's EndpointService" where
  "NewEndpointService ins get upd checkers =
     \<lparr>es_Insert = ins, es_GetByID = get, es_UpdateSecret = upd,
      es_tenants = (if length checkers > 0 then Some (hd checkers) else None)\<rparr>"

definition check_tenant_exists :: "'s EndpointService \<Rightarrow> uuid \<Rightarrow> (err, 's, unit) prog" where
  "check_tenant_exists svc tenantID =
     (case es_tenants svc of
        None \<Rightarrow> returnP ()
      | Some get \<Rightarrow> tryP (get tenantID)
          (\<lambda>e. if errors_is e ErrNotFound then failP ErrTenantNotFound else failP (Wrap ''validate tenant'' e))
          (\<lambda>_. returnP ()))"

definition EndpointService_Register ::
  "(string \<Rightarrow> string + parsed_url) \<Rightarrow> (nat \<Rightarrow> err + bytes) \<Rightarrow> 's EndpointService \<Rightarrow>
   string \<Rightarrow> uuid \<Rightarrow> (err, 's, Endpoint) prog" where
  "EndpointService_Register parse rand_read svc url tenantID =
     (case ValidateURL parse url of
        Some e \<Rightarrow> failP e
      | None \<Rightarrow> bindP (check_tenant_exists svc tenantID)
          (\<lambda>_. case rand_read 32 of
             Inl e \<Rightarrow> failP (Wrap ''generate signing secret'' e)
           | Inr rawSecret \<Rightarrow> map_errP (Wrap ''register endpoint'')
               (es_Insert svc \<lparr>ep_ID = 0, ep_URL = url, ep_TenantID = tenantID, ep_CreatedAt = zero_time,
                              ep_SigningSecret = Some rawSecret\<rparr>)))"

definition EndpointService_Get :: "'s EndpointService \<Rightarrow> uuid \<Rightarrow> (err, 's, Endpoint) prog" where
  "EndpointService_Get svc i = es_GetByID svc i"

definition EndpointService_RotateSecret ::
  "(nat \<Rightarrow> err + bytes) \<Rightarrow> 's EndpointService \<Rightarrow> uuid \<Rightarrow> (err, 's, bytes) prog" where
  "EndpointService_RotateSecret rand_read svc i =
     (case rand_read 32 of
        Inl e \<Rightarrow> failP (Wrap ''generate signing secret'' e)
      | Inr newSecret \<Rightarrow> bindP (es_UpdateSecret svc i newSecret) (\<lambda>_. returnP newSecret))"

text \<open>The service as \<open>cmd/webhookd\<close> builds it.\<close>

definition endpoint_service :: "db EndpointService" where
  "endpoint_service = NewEndpointService EndpointStore_Insert EndpointStore_GetByID
     EndpointStore_UpdateSecret [TenantService_GetByID tenant_service]"

lemma endpoint_service_fields [simp]:
  "es_Insert endpoint_service = EndpointStore_Insert"
  "es_GetByID endpoint_service = EndpointStore_GetByID"
  "es_UpdateSecret endpoint_service = EndpointStore_UpdateSecret"
  "es_tenants endpoint_service = Some TenantStore_GetByID"
  by (simp_all add: endpoint_service_def NewEndpointService_def tenant_service_def
      TenantService_GetByID_def [abs_def])

section \<open>The services keep the database invariant\<close>

lemma preserves_case_sum [preserves_intros]:
  "(\<And>e. preserves I (f e)) \<Longrightarrow> (\<And>x. preserves I (g x)) \<Longrightarrow>
   preserves I (case y of Inl e \<Rightarrow> f e | Inr x \<Rightarrow> g x)"
  by (cases y) auto

lemma services_preserve [preserves_intros]:
  "preserves db_ok (TenantService_Create tenant_service name)"
  "preserves db_ok (TenantService_GetByID tenant_service i)"
  "preserves db_ok (check_tenant_exists endpoint_service i)"
  "preserves db_ok (EndpointService_Register parse rand_read endpoint_service url i)"
  "preserves db_ok (EndpointService_Get endpoint_service i)"
  "preserves db_ok (EndpointService_RotateSecret rand_read endpoint_service i)"
  unfolding TenantService_Create_def TenantService_GetByID_def check_tenant_exists_def
    EndpointService_Register_def EndpointService_Get_def EndpointService_RotateSecret_def
    tenant_service_def TenantService.simps endpoint_service_fields option.case
  by (intro preserves_intros)+

section \<open>The endpoint store as an interface\<close>

text \<open>\<open>url_of\<close>, \<open>tenant_of\<close> and \<open>secret_of\<close> observe the store.  An inserted endpoint is
  found without its secret; only the endpoint whose secret is updated gets another one.\<close>

locale endpoint_directory =
  fixes insert_op :: "Endpoint \<Rightarrow> (err, 's, Endpoint) prog"
    and get_op :: "uuid \<Rightarrow> (err, 's, Endpoint) prog"
    and update_op :: "uuid \<Rightarrow> bytes \<Rightarrow> (err, 's, unit) prog"
    and secret_of :: "'s \<Rightarrow> uuid \<Rightarrow> bytes option"
    and good :: "'s \<Rightarrow> bool"
  assumes inserted: "good s \<Longrightarrow> insert_op e s = (Inr e', s') \<Longrightarrow> ep_SigningSecret e = Some k \<Longrightarrow>
      good s' \<and> ep_URL e' = ep_URL e \<and> ep_TenantID e' = ep_TenantID e \<and> ep_SigningSecret e' = Some k \<and>
      get_op (ep_ID e') s' = (Inr (e'\<lparr>ep_SigningSecret := None\<rparr>), s') \<and>
      secret_of s' = (secret_of s)(ep_ID e' \<mapsto> k) \<and> secret_of s (ep_ID e') = None"
    and got: "good s \<Longrightarrow> get_op i s = (Inr e, s') \<Longrightarrow>
      s' = s \<and> ep_ID e = i \<and> ep_SigningSecret e = None \<and> secret_of s i \<noteq> None"
    and updated: "good s \<Longrightarrow> secret_of s i \<noteq> None \<Longrightarrow>
      \<exists>s'. update_op i k s = (Inr (), s') \<and> good s' \<and> secret_of s' = (secret_of s)(i \<mapsto> k)"
    and update_missing: "good s \<Longrightarrow> secret_of s i = None \<Longrightarrow> update_op i k s = (Inl ErrNotFound, s)"
begin

lemma register_then_get:
  assumes "good s" and "es_Insert svc = insert_op" and "es_GetByID svc = get_op"
    and tenants: "\<And>s0 u s1. good s0 \<Longrightarrow> check_tenant_exists svc tenantID s0 = (Inr u, s1) \<Longrightarrow> s1 = s0"
    and reg: "EndpointService_Register parse rand_read svc url tenantID s = (Inr e, s')"
  shows "ep_URL e = url \<and> ep_TenantID e = tenantID \<and> ep_SigningSecret e \<noteq> None \<and>
    EndpointService_Get svc (ep_ID e) s' = (Inr (e\<lparr>ep_SigningSecret := None\<rparr>), s') \<and>
    secret_of s' = (secret_of s)(ep_ID e := ep_SigningSecret e) \<and> secret_of s (ep_ID e) = None"
proof -
  from reg obtain k u s1 where s1: "check_tenant_exists svc tenantID s = (Inr u, s1)"
      and ins: "insert_op \<lparr>ep_ID = 0, ep_URL = url, ep_TenantID = tenantID, ep_CreatedAt = zero_time,
                   ep_SigningSecret = Some k\<rparr> s1 = (Inr e, s')"
    using assms(2)
    by (auto simp: EndpointService_Register_def bindP_eq_Inr map_errP_eq_Inr split: option.splits sum.splits)
  from tenants [OF assms(1) s1] have [simp]: "s1 = s" .
  have "ep_SigningSecret e = Some k"
    using inserted [OF \<open>good s\<close> ins [simplified]] by simp
  with inserted [OF \<open>good s\<close> ins [simplified], where k = k] show ?thesis
    using assms(3) by (simp add: EndpointService_Get_def)
qed

lemma rotate_effect:
  assumes "good s" and "es_UpdateSecret svc = update_op" and "rand_read 32 = Inr k"
  shows "(secret_of s i \<noteq> None \<longrightarrow> (\<exists>s'. EndpointService_RotateSecret rand_read svc i s = (Inr k, s') \<and>
            good s' \<and> secret_of s' = (secret_of s)(i \<mapsto> k))) \<and>
         (secret_of s i = None \<longrightarrow> EndpointService_RotateSecret rand_read svc i s = (Inl ErrNotFound, s))"
  using assms updated [OF assms(1), of i k] update_missing [OF assms(1), of i k]
  by (auto simp: EndpointService_RotateSecret_def bindP_def)

end

definition stored_secret :: "db \<Rightarrow> uuid \<Rightarrow> bytes option" where
  "stored_secret s i = map_option er_signing_secret (row_by er_id i (endpoints s))"

lemma update_secret_eq:
  assumes "healthy s"
  shows "EndpointStore_UpdateSecret i k s =
    (if stored_secret s i = None then (Inl ErrNotFound, s)
     else (Inr (), s\<lparr>endpoints := upd_where (\<lambda>e. er_id e = i) (er_signing_secret_update (\<lambda>_. k)) (endpoints s)\<rparr>))"
proof -
  have *: "stmt (update_endpoints (\<lambda>e. er_id e = i) (er_signing_secret_update (\<lambda>_. k))) s =
    (Inr (int (length (filter (\<lambda>e. er_id e = i) (endpoints s)))),
     s\<lparr>endpoints := upd_where (\<lambda>e. er_id e = i) (er_signing_secret_update (\<lambda>_. k)) (endpoints s)\<rparr>)"
    using assms by (simp add: healthy_def update_endpoints_ok)
  have none: "filter (\<lambda>e. er_id e = i) (endpoints s) = [] \<longleftrightarrow> stored_secret s i = None"
    using row_by_None_iff [of er_id i "endpoints s"] by (auto simp: stored_secret_def filter_empty_conv)
  have "upd_where (\<lambda>e. er_id e = i) f (endpoints s) = endpoints s" if "stored_secret s i = None" for f
    using that none by (intro upd_where_none) (auto simp: filter_empty_conv)
  then show ?thesis
    using * none by (simp add: EndpointStore_UpdateSecret_def tryP_def)
qed

lemma stored_secret_update:
  "stored_secret (s\<lparr>endpoints := upd_where (\<lambda>e. er_id e = i) (er_signing_secret_update (\<lambda>_. k)) (endpoints s)\<rparr>) =
   (\<lambda>j. if j = i then map_option (\<lambda>_. k) (stored_secret s i) else stored_secret s j)"
proof
  fix j
  have "row_by er_id j (upd_where (\<lambda>e. er_id e = i) (er_signing_secret_update (\<lambda>_. k)) (endpoints s)) =
      map_option (\<lambda>e. if er_id e = i then er_signing_secret_update (\<lambda>_. k) e else e) (row_by er_id j (endpoints s))"
    by (rule row_by_upd_where) simp
  then show "stored_secret (s\<lparr>endpoints := upd_where (\<lambda>e. er_id e = i) (er_signing_secret_update (\<lambda>_. k)) (endpoints s)\<rparr>) j =
    (if j = i then map_option (\<lambda>_. k) (stored_secret s i) else stored_secret s j)"
    by (cases "row_by er_id j (endpoints s)") (auto simp: stored_secret_def dest: row_by_SomeD)
qed

lemma schema_ok_add_endpoint:
  "schema_ok s \<Longrightarrow> check_endpoint s r = None \<Longrightarrow> er_probe_delivery_id r = None \<Longrightarrow>
   schema_ok (s\<lparr>endpoints := endpoints s @ [r]\<rparr>)"
  by (auto simp: schema_defs check_endpoint_def split: if_splits)

interpretation endpoint_table: endpoint_directory EndpointStore_Insert EndpointStore_GetByID
    EndpointStore_UpdateSecret stored_secret healthy
proof
  fix s e e' s' k
  assume h: "healthy s" and ins: "EndpointStore_Insert e s = (Inr e', s')" and k: "ep_SigningSecret e = Some k"
  define r where "r = new_endpoint (ep_URL e) (ep_TenantID e) k (now_ts s) (uuid_src s (uuid_pos s))"
  have *: "e' = e\<lparr>ep_ID := er_id r, ep_TenantID := er_tenant_id r, ep_CreatedAt := er_created_at r,
                ep_SigningSecret := Some (er_signing_secret r)\<rparr>"
      "check_endpoint (s\<lparr>uuid_pos := Suc (uuid_pos s)\<rparr>) r = None"
      "s' = s\<lparr>uuid_pos := Suc (uuid_pos s), endpoints := endpoints s @ [r]\<rparr>"
    using h ins k
    by (auto simp: EndpointStore_Insert_def map_errP_eq_Inr bindP_eq_Inr healthy_def insert_endpoint_def
        insert_row_Inr r_def)
  have new: "er_id r \<notin> endpoint_ids s" using *(2) by (auto simp: check_endpoint_def split: if_splits)
  then have none: "row_by er_id (er_id r) (endpoints s) = None"
    by (simp add: row_by_None_iff)
  have "schema_ok s'"
    using schema_ok_add_endpoint [of "s\<lparr>uuid_pos := Suc (uuid_pos s)\<rparr>" r] * h
    by (simp add: healthy_def r_def new_endpoint_def)
  moreover have "stored_secret s' = (stored_secret s)(er_id r \<mapsto> k)"
    using none *(3) by (auto simp: stored_secret_def r_def new_endpoint_def split: option.splits)
  ultimately show "healthy s' \<and> ep_URL e' = ep_URL e \<and> ep_TenantID e' = ep_TenantID e \<and>
      ep_SigningSecret e' = Some k \<and>
      EndpointStore_GetByID (ep_ID e') s' = (Inr (e'\<lparr>ep_SigningSecret := None\<rparr>), s') \<and>
      stored_secret s' = (stored_secret s)(ep_ID e' \<mapsto> k) \<and> stored_secret s (ep_ID e') = None"
    using * h none
    by (simp add: healthy_def get_endpoint_eq scanEndpoint_def stored_secret_def r_def new_endpoint_def)
next
  fix s i e s'
  assume "healthy s" and "EndpointStore_GetByID i s = (Inr e, s')"
  then show "s' = s \<and> ep_ID e = i \<and> ep_SigningSecret e = None \<and> stored_secret s i \<noteq> None"
    by (auto simp: healthy_def get_endpoint_eq scanEndpoint_def stored_secret_def
        dest: row_by_SomeD split: option.splits)
next
  fix s i k
  assume h: "healthy s" and i: "stored_secret s i \<noteq> None"
  define s' where "s' = s\<lparr>endpoints := upd_where (\<lambda>e. er_id e = i) (er_signing_secret_update (\<lambda>_. k)) (endpoints s)\<rparr>"
  have "schema_ok s'"
  proof -
    have "map er_id (endpoints s') = map er_id (endpoints s)"
      by (simp add: s'_def map_upd_where)
    moreover have "er_id ` set (endpoints s') = endpoint_ids s"
      unfolding s'_def by (simp add: endpoint_keys_image_upd)
    ultimately show ?thesis
      using h by (simp add: healthy_def schema_defs s'_def ball_upd_where)
  qed
  moreover have "stored_secret s' = (stored_secret s)(i \<mapsto> k)"
    using i unfolding s'_def stored_secret_update by (auto simp: fun_eq_iff)
  ultimately show "\<exists>s'. EndpointStore_UpdateSecret i k s = (Inr (), s') \<and> healthy s' \<and>
      stored_secret s' = (stored_secret s)(i \<mapsto> k)"
    using h i by (intro exI [of _ s']) (simp add: update_secret_eq healthy_def s'_def)
next
  fix s i k
  assume "healthy s" and "stored_secret s i = None"
  then show "EndpointStore_UpdateSecret i k s = (Inl ErrNotFound, s)"
    by (simp add: update_secret_eq)
qed

section \<open>Properties\<close>

lemma check_tenant_keeps: "healthy s \<Longrightarrow> check_tenant_exists endpoint_service i s = (Inr u, s') \<Longrightarrow> s' = s"
  using tenant_table.get_keeps_store [of s i]
  by (auto simp: check_tenant_exists_def tryP_def split: prod.splits sum.splits if_splits)

text \<open>A registered endpoint can be read back with the URL and the tenant it was registered
  with and without its secret; the registration alone returns the secret, exactly the stored
  one, and no other endpoint's secret changes.\<close>

theorem registered_endpoint_is_found:
  assumes "healthy s" and "EndpointService_Register parse rand_read endpoint_service url tenantID s = (Inr e, s')"
  shows "ep_URL e = url \<and> ep_TenantID e = tenantID \<and> ep_SigningSecret e \<noteq> None \<and>
    EndpointService_Get endpoint_service (ep_ID e) s' = (Inr (e\<lparr>ep_SigningSecret := None\<rparr>), s') \<and>
    stored_secret s' = (stored_secret s)(ep_ID e := ep_SigningSecret e) \<and> stored_secret s (ep_ID e) = None"
  using assms check_tenant_keeps by (intro endpoint_table.register_then_get) auto

theorem registered_endpoint_is_found_witness:
  "\<exists>e s'. EndpointService_Register (\<lambda>_. Inr \<lparr>u_Scheme = ''https'', u_Host = ''a''\<rparr>) (\<lambda>n. Inr (replicate n CHR ''x''))
      endpoint_service ''https://b.test/'' 1 sample_db = (Inr e, s') \<and> stored_secret s' (ep_ID e) = ep_SigningSecret e"
proof -
  let ?parse = "\<lambda>_. Inr \<lparr>u_Scheme = ''https'', u_Host = ''a''\<rparr> :: string + parsed_url"
  let ?rand = "\<lambda>n. Inr (replicate n CHR ''x'') :: err + bytes"
  have h: "healthy sample_db" by (simp add: healthy_def sample_schema_ok)
  have v: "ValidateURL ?parse ''https://b.test/'' = None"
    by (simp add: ValidateURL_def ToLower_def lower_char_def)
  have u: "url_check ''https://b.test/''" "text_ok ''https://b.test/''"
    by (simp_all add: url_check_def ToLower_def lower_char_def text_ok_ascii)
  have "\<exists>e s'. EndpointService_Register ?parse ?rand endpoint_service ''https://b.test/'' 1 sample_db = (Inr e, s')"
    using u by (simp add: EndpointService_Register_def v bindP_def check_tenant_exists_def tryP_def get_tenant_eq
        sample_defs EndpointStore_Insert_def map_errP_def insert_endpoint_def insert_row_def Let_def
        check_endpoint_def new_endpoint_def)
  then obtain e s' where run: "EndpointService_Register ?parse ?rand endpoint_service ''https://b.test/'' 1 sample_db = (Inr e, s')"
    by blast
  from registered_endpoint_is_found [OF h run] run show ?thesis by (intro exI [of _ e] exI [of _ s']) simp
qed

text \<open>Rotation replaces the secret of the endpoint it names by the new random one, returns that
  one and leaves every other secret alone; for an unknown endpoint it reports not found and
  changes nothing.\<close>

theorem rotate_replaces_secret:
  assumes "healthy s" and "rand_read 32 = Inr k"
  shows "(stored_secret s i \<noteq> None \<longrightarrow> (\<exists>s'. EndpointService_RotateSecret rand_read endpoint_service i s = (Inr k, s') \<and>
            healthy s' \<and> stored_secret s' = (stored_secret s)(i \<mapsto> k))) \<and>
         (stored_secret s i = None \<longrightarrow> EndpointService_RotateSecret rand_read endpoint_service i s = (Inl ErrNotFound, s))"
  using assms by (intro endpoint_table.rotate_effect) auto

theorem rotate_replaces_secret_witness:
  "\<exists>s'. EndpointService_RotateSecret (\<lambda>_. Inr ''new'') endpoint_service 10 sample_db = (Inr ''new'', s') \<and>
     stored_secret s' 10 = Some ''new''"
proof -
  have "healthy sample_db" by (simp add: healthy_def sample_schema_ok)
  moreover have "stored_secret sample_db 10 \<noteq> None" by (simp add: stored_secret_def sample_defs)
  ultimately show ?thesis
    using rotate_replaces_secret [of sample_db "\<lambda>_. Inr ''new''" "''new''" 10] by auto
qed

end
