(* ===== verification/Event_Service.thy ===== *)
theory Event_Service
  imports Idempotency_Store Entity_Services Sample
begin

text \<open>
  \<open>internal/service/event_service.go\<close>: submission of an event with deduplication by key.

  The whole submission is modelled: the checks outside the transaction, the closure passed to
  \<open>InTx\<close> with the captured variable \<open>d\<close>, the comparison of the returned error with the
  sentinel of a cached result, and the wrapping of the others.  \<open>jsonb\<close> stands for the
  server's reading of a document into a \<open>JSONB\<close> value.  The properties hold for every
  pattern of connection failures unless they say otherwise.
\<close>

section \<open>Operations\<close>

text \<open>A nil payload is \<open>NULL\<close> in a \<open>NOT NULL\<close> column; a text that is not a document is
  refused by the type.\<close>

definition insert_event_values ::
  "(bytes \<Rightarrow> bytes option) \<Rightarrow> uuid \<Rightarrow> uuid \<Rightarrow> bytes option \<Rightarrow> event_row dbprog" where
  "insert_event_values jsonb endpointID tenantID payload s =
     (case payload of
        None \<Rightarrow> (Inl (PgError not_null_violation), s\<lparr>uuid_pos := Suc (uuid_pos s)\<rparr>)
      | Some raw \<Rightarrow> (case jsonb raw of
          None \<Rightarrow> (Inl (PgError invalid_json), s)
        | Some doc \<Rightarrow> insert_event (\<lambda>i. \<lparr>vr_id = i, vr_endpoint_id = endpointID, vr_tenant_id = tenantID,
              vr_payload = doc, vr_submitted_at = now_ts s\<rparr>) s))"

definition cached_delivery :: "IdempotencyRecord \<Rightarrow> uuid \<Rightarrow> Delivery" where
  "cached_delivery rec endpointID = \<lparr>d_ID = ix_DeliveryID rec, d_EventID = ix_EventID rec,
     d_EndpointID = endpointID, d_Status = StatusZero, d_AttemptCount = 0, d_NextAttemptAt = zero_time,
     d_InFlightLeaseUntil = None, d_CreatedAt = zero_time, d_UpdatedAt = zero_time,
     d_SourceDeliveryID = None\<rparr>"

text \<open>The block under \<open>if idempotencyKey != ""\<close> before the insertions.\<close>

definition claim_unless_cached ::
  "uuid \<Rightarrow> string \<Rightarrow> bytes \<Rightarrow> IdempotencyRecord option \<Rightarrow> (err, db \<times> Delivery option, unit) prog" where
  "claim_unless_cached endpointID key rawBody found =
     (let claim = liftV (IdempotencyTxStore_Claim endpointID key (PayloadHash rawBody)) in
      case found of
        None \<Rightarrow> claim
      | Some rec \<Rightarrow>
          if ix_Complete rec then
            if ix_PayloadHash rec \<noteq> PayloadHash rawBody then failP ErrConflict
            else bindP (setV (Some (cached_delivery rec endpointID))) (\<lambda>_. failP ErrCachedResult)
          else claim)"

definition claim_key ::
  "uuid \<Rightarrow> string \<Rightarrow> bytes \<Rightarrow> (err, db \<times> Delivery option, unit) prog" where
  "claim_key endpointID key rawBody =
     bindP (liftV (IdempotencyTxStore_AcquireAdvisoryLock endpointID key)) (\<lambda>_.
     bindP (liftV (IdempotencyTxStore_Lookup endpointID key)) (claim_unless_cached endpointID key rawBody))"

definition submit_body ::
  "(bytes \<Rightarrow> bytes option) \<Rightarrow> uuid \<Rightarrow> bytes option \<Rightarrow> string \<Rightarrow> bytes \<Rightarrow> uuid \<Rightarrow>
   (err, db \<times> Delivery option, unit) prog" where
  "submit_body jsonb endpointID payload key rawBody tenantID =
     bindP (if key \<noteq> [] then claim_key endpointID key rawBody else returnP ()) (\<lambda>_.
     bindP (liftV (map_errP (Wrap ''insert event'')
              (stmt (insert_event_values jsonb endpointID tenantID payload)))) (\<lambda>v.
     bindP (liftV (map_errP (Wrap ''insert delivery'')
              (stmt (with_state (\<lambda>s. insert_delivery (new_delivery (vr_id v) endpointID None (now_ts s) tenantID)))))) (\<lambda>r.
     bindP (setV (Some (scanDelivery r))) (\<lambda>_.
       if key \<noteq> [] then liftV (IdempotencyTxStore_Complete endpointID key (vr_id v) (dr_id r))
       else returnP ()))))"

text \<open>The result is the pointer \<open>d\<close>.\<close>

definition EventService_Submit ::
  "(bytes \<Rightarrow> bytes option) \<Rightarrow> db EndpointService \<Rightarrow> uuid \<Rightarrow> bytes option \<Rightarrow> string \<Rightarrow> bytes \<Rightarrow> uuid \<Rightarrow>
   Delivery option dbprog" where
  "EventService_Submit jsonb svc endpointID payload key rawBody tenantID =
     bindP (EndpointService_Get svc endpointID) (\<lambda>ep.
     bindP (check_tenant_exists svc tenantID) (\<lambda>_.
       if ep_TenantID ep \<noteq> tenantID then failP ErrTenantEndpointMismatch
       else (\<lambda>s. case InTx (submit_body jsonb endpointID payload key rawBody tenantID) (s, None) of
           (Inr _, (s', d)) \<Rightarrow> (Inr d, s')
         | (Inl e, (s', d)) \<Rightarrow>
             if e = ErrCachedResult then (Inr d, s') else (Inl (Wrap ''submit event'' e), s'))))"

section \<open>What a committed body did\<close>

lemma liftV_eq_Inr: "liftV m (s, v) = (Inr x, t) \<longleftrightarrow> (\<exists>s'. m s = (Inr x, s') \<and> t = (s', v))"
  by (auto simp: liftV_def split: prod.splits)

lemma bindP_InrE:
  assumes "bindP m f s = (Inr y, t)"
  obtains x s' where "m s = (Inr x, s')" "f x s' = (Inr y, t)"
  using assms by (auto simp: bindP_eq_Inr)

lemma liftV_InrE:
  assumes "liftV m (s, v) = (Inr x, t)"
  obtains s' where "m s = (Inr x, s')" "t = (s', v)"
  using assms by (auto simp: liftV_eq_Inr)

lemma setV_simps [simp]: "setV w sv = (Inr (), (fst sv, w))"
  by (simp add: setV_def)

lemma lock_same:
  assumes "IdempotencyTxStore_AcquireAdvisoryLock e k s = (r, s')"
  shows "same_tables s s'"
proof -
  have "snd (stmt (returnP ()) s) = s'"
    using assms by (metis IdempotencyTxStore_AcquireAdvisoryLock_def snd_conv snd_map_errP)
  then show ?thesis
    using stmt_cases_state [of "returnP ()" s] by (auto simp: same_tables_iff)
qed

lemma valid_record_cong:
  "idempotency_records s' = idempotency_records s \<Longrightarrow> now_ts s' = now_ts s \<Longrightarrow>
   valid_record e k s' = valid_record e k s"
  by (simp add: valid_record_def)

lemma valid_record_faults [simp]: "valid_record e k (s\<lparr>faults := fs\<rparr>) = valid_record e k s"
  by (rule valid_record_cong) simp_all

lemma lookup_Inr:
  "IdempotencyTxStore_Lookup e k s = (Inr x, s') \<Longrightarrow>
     same_tables s s' \<and> x = map_option scanIdempotency (valid_record e k s)"
  unfolding IdempotencyTxStore_Lookup_def map_errP_eq_Inr
  by (drule stmt_Inr_D) (auto simp: same_tables_iff)

text \<open>The claim, with the statements' failures behind us.\<close>

lemma claim_key_Inr:
  assumes "claim_key e k raw (s, v) = (Inr (), t)"
  shows "\<exists>s0 s'. same_tables s s0 \<and> upsert_claim e k (PayloadHash raw) s0 = (Inr (), s') \<and> t = (s', v) \<and>
    (\<forall>rec. valid_record e k s = Some rec \<longrightarrow> \<not> ix_Complete (scanIdempotency rec))"
proof -
  from assms obtain s1 s2 x where s1: "IdempotencyTxStore_AcquireAdvisoryLock e k s = (Inr (), s1)"
    and s2: "IdempotencyTxStore_Lookup e k s1 = (Inr x, s2)"
    and rest: "claim_unless_cached e k raw x (s2, v) = (Inr (), t)"
    unfolding claim_key_def by (elim bindP_InrE liftV_InrE) (simp, elim liftV_InrE, simp)
  from rest have claim: "liftV (IdempotencyTxStore_Claim e k (PayloadHash raw)) (s2, v) = (Inr (), t)"
    and inc: "\<forall>rec. x = Some rec \<longrightarrow> \<not> ix_Complete rec"
    by (auto simp: claim_unless_cached_def bindP_eq_Inr Let_def split: option.splits if_splits)
  from claim obtain s' where "upsert_claim e k (PayloadHash raw) (s2\<lparr>faults := tl (faults s2)\<rparr>) = (Inr (), s')"
      "t = (s', v)"
    by (auto simp: liftV_eq_Inr IdempotencyTxStore_Claim_def map_errP_eq_Inr dest!: stmt_Inr_D)
  moreover have "same_tables s s1" using s1 by (rule lock_same)
  moreover from this lookup_Inr [OF s2] have "same_tables s s2" "x = map_option scanIdempotency (valid_record e k s)"
    by (auto simp: same_tables_iff cong: valid_record_cong)
  moreover have "same_tables s (s2\<lparr>faults := tl (faults s2)\<rparr>)"
    using \<open>same_tables s s2\<close> by (simp add: same_tables_iff)
  ultimately show ?thesis using inc by blast
qed

text \<open>What the insertions add.\<close>

definition new_event :: "uuid \<Rightarrow> uuid \<Rightarrow> bytes \<Rightarrow> instant \<Rightarrow> uuid \<Rightarrow> event_row" where
  "new_event endpointID tenantID doc now i = \<lparr>vr_id = i, vr_endpoint_id = endpointID,
     vr_tenant_id = tenantID, vr_payload = doc, vr_submitted_at = now\<rparr>"

lemma insert_event_values_Inr:
  "insert_event_values jsonb e t payload s = (Inr v, s') \<longleftrightarrow>
     (\<exists>raw doc. payload = Some raw \<and> jsonb raw = Some doc \<and> v = new_event e t doc (now_ts s) (uuid_src s (uuid_pos s)) \<and>
        check_event (s\<lparr>uuid_pos := Suc (uuid_pos s)\<rparr>) v = None \<and>
        s' = s\<lparr>uuid_pos := Suc (uuid_pos s), events := events s @ [v]\<rparr>)"
  by (auto simp: insert_event_values_def insert_event_def insert_row_Inr new_event_def split: option.splits)

definition submitted :: "(bytes \<Rightarrow> bytes option) \<Rightarrow> uuid \<Rightarrow> bytes option \<Rightarrow> uuid \<Rightarrow> db \<Rightarrow> db \<Rightarrow> delivery_row \<Rightarrow> bool" where
  "submitted jsonb e payload t s s' r \<longleftrightarrow>
     (\<exists>v raw. payload = Some raw \<and> jsonb raw = Some (vr_payload v) \<and>
        vr_endpoint_id v = e \<and> vr_tenant_id v = t \<and> vr_submitted_at v = now_ts s \<and>
        r = new_delivery (vr_id v) e None (now_ts s) t (dr_id r) \<and>
        vr_id v \<notin> event_ids s \<and> dr_id r \<notin> delivery_ids s \<and>
        events s' = events s @ [v] \<and> deliveries s' = deliveries s @ [r]) \<and>
     tenants s' = tenants s \<and> endpoints s' = endpoints s \<and> attempts s' = attempts s \<and>
     now_ts s' = now_ts s \<and> uuid_src s' = uuid_src s"

text \<open>The statements of a body that succeeded, each run on the tables the previous one left.\<close>

lemma submit_body_trace:
  assumes "submit_body jsonb e payload k raw t (s, v0) = (Inr (), (s', d))"
  obtains s1 s2 s3 s4 s5 s6 v r where
    "if k = [] then same_tables s s1
     else (\<exists>s0. same_tables s s0 \<and> upsert_claim e k (PayloadHash raw) s0 = (Inr (), s1)) \<and>
       (\<forall>rec. valid_record e k s = Some rec \<longrightarrow> \<not> ix_Complete (scanIdempotency rec))"
    and "same_tables s1 s2" and "insert_event_values jsonb e t payload s2 = (Inr v, s3)"
    and "same_tables s3 s4" and "insert_delivery (new_delivery (vr_id v) e None (now_ts s4) t) s4 = (Inr r, s5)"
    and "same_tables s5 s6" and "d = Some (scanDelivery r)"
    and "if k = [] then s' = s6 else set_complete e k (vr_id v) (dr_id r) s6 = (Inr (), s')"
proof -
  define rest where "rest = (\<lambda>_ :: unit.
     bindP (liftV (map_errP (Wrap ''insert event'') (stmt (insert_event_values jsonb e t payload)))) (\<lambda>v.
     bindP (liftV (map_errP (Wrap ''insert delivery'')
              (stmt (with_state (\<lambda>s. insert_delivery (new_delivery (vr_id v) e None (now_ts s) t)))))) (\<lambda>r.
     bindP (setV (Some (scanDelivery r))) (\<lambda>_ :: unit.
       if k \<noteq> [] then liftV (IdempotencyTxStore_Complete e k (vr_id v) (dr_id r)) else returnP ()))))"
  have "bindP (if k \<noteq> [] then claim_key e k raw else returnP ()) rest (s, v0) = (Inr (), (s', d))"
    using assms by (simp add: submit_body_def rest_def)
  then obtain sv where first: "(if k \<noteq> [] then claim_key e k raw else returnP ()) (s, v0) = (Inr (), sv)"
      and more: "rest () sv = (Inr (), (s', d))"
    by (elim bindP_InrE) simp
  obtain s1 where sv: "sv = (s1, v0)" and claim: "if k = [] then same_tables s s1
     else (\<exists>s0. same_tables s s0 \<and> upsert_claim e k (PayloadHash raw) s0 = (Inr (), s1)) \<and>
       (\<forall>rec. valid_record e k s = Some rec \<longrightarrow> \<not> ix_Complete (scanIdempotency rec))"
    using first claim_key_Inr [of e k raw s v0 sv] by (cases "k = []") auto
  from more [unfolded sv rest_def] obtain v s3 where
    ev: "stmt (insert_event_values jsonb e t payload) s1 = (Inr v, s3)"
    and more2: "bindP (liftV (map_errP (Wrap ''insert delivery'')
              (stmt (with_state (\<lambda>s. insert_delivery (new_delivery (vr_id v) e None (now_ts s) t)))))) (\<lambda>r.
     bindP (setV (Some (scanDelivery r))) (\<lambda>_ :: unit.
       if k \<noteq> [] then liftV (IdempotencyTxStore_Complete e k (vr_id v) (dr_id r)) else returnP ())) (s3, v0) =
       (Inr (), (s', d))"
    by (rule bindP_InrE, elim liftV_InrE) (simp add: map_errP_eq_Inr)
  from more2 obtain r s5 where
    del: "stmt (with_state (\<lambda>s. insert_delivery (new_delivery (vr_id v) e None (now_ts s) t))) s3 = (Inr r, s5)"
    and last: "(if k \<noteq> [] then liftV (IdempotencyTxStore_Complete e k (vr_id v) (dr_id r)) else returnP ())
        (s5, Some (scanDelivery r)) = (Inr (), (s', d))"
    by (rule bindP_InrE, elim liftV_InrE) (simp add: map_errP_eq_Inr bindP_def)
  have adv: "same_tables a (a\<lparr>faults := fs\<rparr>)" for a fs by (simp add: same_tables_iff)
  have d: "d = Some (scanDelivery r)" and fin: "if k = [] then s' = s5
      else set_complete e k (vr_id v) (dr_id r) (s5\<lparr>faults := tl (faults s5)\<rparr>) = (Inr (), s')"
    using last by (auto simp: IdempotencyTxStore_Complete_def map_errP_eq_Inr liftV_eq_Inr
        dest!: stmt_Inr_D split: if_splits)
  show ?thesis
    using that [OF claim adv stmt_Inr_D [OF ev] adv stmt_Inr_D [OF del, unfolded with_state_def] _ d,
        of "if k = [] then s5 else s5\<lparr>faults := tl (faults s5)\<rparr>"] fin adv
    by (simp split: if_splits)
qed

lemma upsert_claim_tables:
  "upsert_claim e k h s = (x, s') \<Longrightarrow> tenants s' = tenants s \<and> endpoints s' = endpoints s \<and>
     events s' = events s \<and> deliveries s' = deliveries s \<and> attempts s' = attempts s \<and>
     now_ts s' = now_ts s \<and> uuid_src s' = uuid_src s"
  by (auto simp: upsert_claim_def Let_def split: if_splits)

lemma set_complete_Inr:
  "set_complete e k v d s = (Inr (), s') \<Longrightarrow>
     s' = s\<lparr>idempotency_records := upd_where (has_key e k) (completed_row v d) (idempotency_records s)\<rparr>"
  by (auto simp: set_complete_def split: if_splits)

lemma insert_delivery_Inr:
  "insert_delivery mk s = (Inr r, s') \<longleftrightarrow>
     r = mk (uuid_src s (uuid_pos s)) \<and> check_delivery (s\<lparr>uuid_pos := Suc (uuid_pos s)\<rparr>) r = None \<and>
     s' = s\<lparr>uuid_pos := Suc (uuid_pos s), deliveries := deliveries s @ [r]\<rparr>"
  unfolding insert_delivery_def insert_row_Inr by auto

lemma new_delivery_fields [simp]:
  "dr_id (new_delivery v e src now t i) = i" "dr_event_id (new_delivery v e src now t i) = v"
  "dr_endpoint_id (new_delivery v e src now t i) = e" "dr_tenant_id (new_delivery v e src now t i) = t"
  "lease_row_ok (new_delivery v e src now t i)"
  by (simp_all add: new_delivery_def lease_row_ok_def)

lemma submit_body_Inr:
  assumes "submit_body jsonb e payload k raw t (s, v0) = (Inr (), (s', d))"
  shows "\<exists>r. d = Some (scanDelivery r) \<and> submitted jsonb e payload t s s' r"
  using assms
proof (rule submit_body_trace)
  fix s1 s2 s3 s4 s5 s6 v r
  assume t1: "if k = [] then same_tables s s1
       else (\<exists>s0. same_tables s s0 \<and> upsert_claim e k (PayloadHash raw) s0 = (Inr (), s1)) \<and>
         (\<forall>rec. valid_record e k s = Some rec \<longrightarrow> \<not> ix_Complete (scanIdempotency rec))"
    and t2: "same_tables s1 s2" and t3: "insert_event_values jsonb e t payload s2 = (Inr v, s3)"
    and t4: "same_tables s3 s4" and t5: "insert_delivery (new_delivery (vr_id v) e None (now_ts s4) t) s4 = (Inr r, s5)"
    and t6: "same_tables s5 s6" and d: "d = Some (scanDelivery r)"
    and t7: "if k = [] then s' = s6 else set_complete e k (vr_id v) (dr_id r) s6 = (Inr (), s')"
  have s1: "tenants s1 = tenants s \<and> endpoints s1 = endpoints s \<and> events s1 = events s \<and>
      deliveries s1 = deliveries s \<and> attempts s1 = attempts s \<and> now_ts s1 = now_ts s \<and> uuid_src s1 = uuid_src s"
    using t1 by (auto simp: same_tables_iff dest: upsert_claim_tables split: if_splits)
  have s6: "tenants s' = tenants s6 \<and> endpoints s' = endpoints s6 \<and> events s' = events s6 \<and>
      deliveries s' = deliveries s6 \<and> attempts s' = attempts s6 \<and> now_ts s' = now_ts s6 \<and> uuid_src s' = uuid_src s6"
    using t7 by (auto dest: set_complete_Inr split: if_splits)
  from t3 obtain raw' doc where ev: "payload = Some raw'" "jsonb raw' = Some doc"
      "v = new_event e t doc (now_ts s2) (uuid_src s2 (uuid_pos s2))" "vr_id v \<notin> event_ids s2"
      "s3 = s2\<lparr>uuid_pos := Suc (uuid_pos s2), events := events s2 @ [v]\<rparr>"
    by (auto simp: insert_event_values_Inr check_event_def split: if_splits)
  from t5 have del: "r = new_delivery (vr_id v) e None (now_ts s4) t (dr_id r)" "dr_id r \<notin> delivery_ids s4"
      "s5 = s4\<lparr>uuid_pos := Suc (uuid_pos s4), deliveries := deliveries s4 @ [r]\<rparr>"
    by (auto simp: insert_delivery_Inr check_delivery_def split: if_splits)
  have "submitted jsonb e payload t s s' r"
    unfolding submitted_def
  proof (intro conjI exI [of _ v] exI [of _ raw'])
    have "now_ts s4 = now_ts s" using s1 t2 t4 ev(5) by (simp add: same_tables_iff)
    with del(1) show "r = new_delivery (vr_id v) e None (now_ts s) t (dr_id r)" by metis
    have v: "vr_payload v = doc" "vr_endpoint_id v = e" "vr_tenant_id v = t" "vr_submitted_at v = now_ts s2"
      using ev(3) by (simp_all add: new_event_def)
    note rest = s1 s6 t2 t4 t6 ev(1,2,4,5) del(2,3) v
    show "jsonb raw' = Some (vr_payload v)" "vr_endpoint_id v = e" "vr_tenant_id v = t"
        "vr_submitted_at v = now_ts s"
      using rest by (simp_all add: same_tables_iff)
    show "payload = Some raw'" by fact
    show "vr_id v \<notin> event_ids s" "dr_id r \<notin> delivery_ids s"
      using rest by (simp_all add: same_tables_iff)
    show "events s' = events s @ [v]" "deliveries s' = deliveries s @ [r]" "tenants s' = tenants s"
        "endpoints s' = endpoints s" "attempts s' = attempts s" "now_ts s' = now_ts s" "uuid_src s' = uuid_src s"
      using rest by (simp_all add: same_tables_iff)
  qed
  with d show ?thesis by blast
qed

lemma submit_body_db_ok:
  assumes ok: "db_ok s" and ep: "row_by er_id e (endpoints s) = Some er" "er_tenant_id er = t"
    and run: "submit_body jsonb e payload k raw t (s, v0) = (Inr (), (s', d))"
  shows "db_ok s'"
  using run
proof (rule submit_body_trace)
  fix s1 s2 s3 s4 s5 s6 v r
  assume t1: "if k = [] then same_tables s s1
       else (\<exists>s0. same_tables s s0 \<and> upsert_claim e k (PayloadHash raw) s0 = (Inr (), s1)) \<and>
         (\<forall>rec. valid_record e k s = Some rec \<longrightarrow> \<not> ix_Complete (scanIdempotency rec))"
    and t2: "same_tables s1 s2" and t3: "insert_event_values jsonb e t payload s2 = (Inr v, s3)"
    and t4: "same_tables s3 s4" and t5: "insert_delivery (new_delivery (vr_id v) e None (now_ts s4) t) s4 = (Inr r, s5)"
    and t6: "same_tables s5 s6"
    and t7: "if k = [] then s' = s6 else set_complete e k (vr_id v) (dr_id r) s6 = (Inr (), s')"
  define K where "K = (if k = [] then {} else {(e, k)})"
  have st: "db_ok_but K b = db_ok_but K a" if "same_tables a b" for a b
    using same_tables_pred [OF table_pred_db_ok_but that] .
  have "db_ok_but K s1 \<and> endpoints s1 = endpoints s"
  proof (cases "k = []")
    case True
    with t1 ok st [of s s1] show ?thesis by (simp add: K_def db_ok_but_empty same_tables_iff)
  next
    case False
    with t1 obtain s0 where s0: "same_tables s s0" "upsert_claim e k (PayloadHash raw) s0 = (Inr (), s1)" by auto
    then have "db_ok s0" using ok same_tables_pred [OF table_pred_db_ok] by blast
    with s0 False show ?thesis
      using upsert_claim_ok upsert_claim_tables by (auto simp: K_def same_tables_iff)
  qed
  with st [OF t2] t2 have s2: "db_ok_but K s2" "endpoints s2 = endpoints s"
    by (simp_all add: same_tables_iff)
  from t3 have ev: "check_event (s2\<lparr>uuid_pos := Suc (uuid_pos s2)\<rparr>) v = None" "vr_endpoint_id v = e"
      "s3 = s2\<lparr>uuid_pos := Suc (uuid_pos s2), events := events s2 @ [v]\<rparr>"
    by (auto simp: insert_event_values_Inr new_event_def)
  then have "db_ok_but K s3"
    using db_ok_but_add_event [of K "s2\<lparr>uuid_pos := Suc (uuid_pos s2)\<rparr>" v] s2 by simp
  with st [OF t4] t4 have s4: "db_ok_but K s4" "endpoints s4 = endpoints s" "v \<in> set (events s4)"
    using ev s2 by (simp_all add: same_tables_iff)
  from t5 have del: "check_delivery (s4\<lparr>uuid_pos := Suc (uuid_pos s4)\<rparr>) r = None"
      "r = new_delivery (vr_id v) e None (now_ts s4) t (dr_id r)"
      "s5 = s4\<lparr>uuid_pos := Suc (uuid_pos s4), deliveries := deliveries s4 @ [r]\<rparr>"
    by (auto simp: insert_delivery_Inr)
  from del(2) have "dr_event_id r = vr_id v" "dr_endpoint_id r = e" "dr_tenant_id r = t" "lease_row_ok r"
    by (metis new_delivery_fields)+
  moreover from this have "delivery_linked (s4\<lparr>uuid_pos := Suc (uuid_pos s4)\<rparr>) r"
    using s4 ev ep row_by_SomeD [OF ep(1)] by (auto simp: delivery_linked_def)
  ultimately have "db_ok_but K s5"
    using db_ok_but_add_delivery [of K "s4\<lparr>uuid_pos := Suc (uuid_pos s4)\<rparr>" r] s4(1) del(1,3) by simp
  with st [OF t6] t6 have s6: "db_ok_but K s6" "r \<in> set (deliveries s6)" "v \<in> set (events s6)"
    using del(3) s4(3) by (simp_all add: same_tables_iff)
  show ?thesis
  proof (cases "k = []")
    case True
    with s6 t7 show ?thesis by (simp add: K_def db_ok_but_empty)
  next
    case False
    then show ?thesis
      using s6 t7 set_complete_ok [of e k s6 "vr_id v" "dr_id r" s' r] \<open>dr_event_id r = vr_id v\<close>
        \<open>dr_endpoint_id r = e\<close> by (simp add: K_def)
  qed
qed

section \<open>What a submission returns and leaves behind\<close>

lemma InTx_Inr:
  assumes "InTx fn (s, v) = (Inr x, (s', w))"
  obtains s1 s2 where "same_tables s s1" and "fn (s1, v) = (Inr x, (s2, w))" and "same_tables s2 s'"
proof -
  obtain r0 s1 where s1: "stmt (returnP ()) s = (r0, s1)" by fastforce
  have st: "same_tables s s1"
    using stmt_cases_state [of "returnP ()" s] by (auto simp: same_tables_iff s1)
  obtain q s2 w2 where fn: "fn (s1, v) = (q, (s2, w2))" by (cases "fn (s1, v)") auto
  have "q = Inr x \<and> w2 = w \<and> same_tables s2 s'"
    using assms s1 fn
    by (auto simp: InTx_def same_tables_iff split: sum.splits list.splits fault.splits)
  with st fn that show ?thesis by blast
qed

lemma InTx_Inl:
  assumes "InTx fn (s, v) = (Inl err, (s', w))"
  obtains
    (unchanged) "same_tables s s'"
  | (unknown) s1 s2 x where "err = Wrap ''commit tx'' ErrConn" and "same_tables s s1"
      and "fn (s1, v) = (Inr x, (s2, w))" and "same_tables s2 s'"
proof -
  obtain r0 s1 where s1: "stmt (returnP ()) s = (r0, s1)" by fastforce
  have st: "same_tables s s1"
    using stmt_cases_state [of "returnP ()" s] by (auto simp: same_tables_iff s1)
  obtain q s2 w2 where fn: "fn (s1, v) = (q, (s2, w2))" by (cases "fn (s1, v)") auto
  have rb: "same_tables s (rollback s1 z)" for z using st by (simp add: same_tables_iff rollback_def)
  have "same_tables s s' \<or> (err = Wrap ''commit tx'' ErrConn \<and> (\<exists>x. q = Inr x) \<and> w2 = w \<and> same_tables s2 s')"
    using assms s1 fn st rb
    by (auto simp: InTx_def same_tables_iff split: sum.splits list.splits fault.splits)
  with st fn that show ?thesis by blast
qed

lemma InTx_Inl_body:
  assumes "InTx fn (s, v) = (Inl err, (s', w))" and "\<And>m e. err \<noteq> Wrap m e"
  obtains s1 s2 where "same_tables s s1" and "fn (s1, v) = (Inl err, (s2, w))"
proof -
  obtain r0 s1 where s1: "stmt (returnP ()) s = (r0, s1)" by fastforce
  have st: "same_tables s s1"
    using stmt_cases_state [of "returnP ()" s] by (auto simp: same_tables_iff s1)
  obtain q s2 w2 where fn: "fn (s1, v) = (q, (s2, w2))" by (cases "fn (s1, v)") auto
  have "q = Inl err \<and> w2 = w"
    using assms s1 fn by (auto simp: InTx_def split: sum.splits list.splits fault.splits)
  with st fn that show ?thesis by blast
qed

lemma check_tenant_same: "check_tenant_exists endpoint_service t s = (x, s') \<Longrightarrow> same_tables s s'"
  by (auto simp: check_tenant_exists_def tryP_def split: prod.splits sum.splits if_splits
      dest: get_tenant_same)

abbreviation submit where
  "submit jsonb \<equiv> EventService_Submit jsonb endpoint_service"

text \<open>A submission either stops before the transaction, with the tables as they were, or runs
  it for an endpoint of the tenant.\<close>

lemma submit_cases:
  assumes "submit jsonb e payload k raw t s = (res, s')"
  obtains
    (early) err where "res = Inl err" and "same_tables s s'"
  | (tx) s1 er out d where "same_tables s s1" and "row_by er_id e (endpoints s) = Some er"
      and "er_tenant_id er = t" and "InTx (submit_body jsonb e payload k raw t) (s1, None) = (out, (s', d))"
      and "res = (case out of Inr _ \<Rightarrow> Inr d
             | Inl err \<Rightarrow> if err = ErrCachedResult then Inr d else Inl (Wrap ''submit event'' err))"
proof -
  obtain x1 s1 where g: "EndpointStore_GetByID e s = (x1, s1)" by fastforce
  note st1 = get_endpoint_same [OF g]
  show ?thesis
  proof (cases x1)
    case (Inl err)
    with g assms st1 early show ?thesis
      by (auto simp: EventService_Submit_def EndpointService_Get_def bindP_def)
  next
    case (Inr ep)
    with g get_endpoint_Inr obtain er where er: "row_by er_id e (endpoints s) = Some er" "ep = scanEndpoint er"
      by blast
    obtain x2 s2 where c: "check_tenant_exists endpoint_service t s1 = (x2, s2)" by fastforce
    have st2: "same_tables s s2" using st1 check_tenant_same [OF c] by (rule same_tables_trans)
    show ?thesis
    proof (cases "(\<exists>err. x2 = Inl err) \<or> ep_TenantID ep \<noteq> t")
      case True
      with g Inr c assms st2 early show ?thesis
        by (auto simp: EventService_Submit_def EndpointService_Get_def bindP_def split: sum.splits)
    next
      case False
      then obtain u where u: "x2 = Inr u" by (cases x2) auto
      obtain out sv d where r: "InTx (submit_body jsonb e payload k raw t) (s2, None) = (out, (sv, d))"
        by (cases "InTx (submit_body jsonb e payload k raw t) (s2, None)") auto
      have "res = (case out of Inr _ \<Rightarrow> Inr d
             | Inl err \<Rightarrow> if err = ErrCachedResult then Inr d else Inl (Wrap ''submit event'' err)) \<and> s' = sv"
        using assms g Inr c u False r
        by (auto simp: EventService_Submit_def EndpointService_Get_def bindP_def split: sum.splits if_splits)
      with tx [OF st2 er(1)] er False r show ?thesis by (auto simp: scanEndpoint_def)
    qed
  qed
qed

text \<open>The sentinel of a cached result comes from one place.\<close>

lemma map_errP_Wrap_neq: "map_errP (Wrap m) f s = (Inl e, s') \<Longrightarrow> \<exists>e'. e = Wrap m e'"
  by (auto simp: map_errP_def split: prod.splits sum.splits)

lemma liftV_wrapped: "liftV (map_errP (Wrap m) f) sv = (Inl e, sv') \<Longrightarrow> \<exists>e'. e = Wrap m e'"
  by (auto simp: liftV_def split: prod.splits dest: map_errP_Wrap_neq)

lemma store_calls_wrapped:
  "liftV (IdempotencyTxStore_AcquireAdvisoryLock i k) sv = (Inl err, sv') \<Longrightarrow> \<exists>m e. err = Wrap m e"
  "liftV (IdempotencyTxStore_Lookup i k) sv = (Inl err, sv') \<Longrightarrow> \<exists>m e. err = Wrap m e"
  "liftV (IdempotencyTxStore_Claim i k h) sv = (Inl err, sv') \<Longrightarrow> \<exists>m e. err = Wrap m e"
  "liftV (IdempotencyTxStore_Complete i k v d) sv = (Inl err, sv') \<Longrightarrow> \<exists>m e. err = Wrap m e"
  unfolding IdempotencyTxStore_AcquireAdvisoryLock_def IdempotencyTxStore_Lookup_def
    IdempotencyTxStore_Claim_def IdempotencyTxStore_Complete_def
  by (auto dest: liftV_wrapped)

lemma bindP_InlE:
  assumes "bindP m f s = (Inl err, t)"
  obtains (left) "m s = (Inl err, t)" | (right) x s' where "m s = (Inr x, s')" "f x s' = (Inl err, t)"
  using assms by (auto simp: bindP_def split: prod.splits sum.splits)

lemma insertions_wrapped:
  assumes "bindP (liftV (map_errP (Wrap m1) f)) (\<lambda>v.
     bindP (liftV (map_errP (Wrap m2) (g v))) (\<lambda>r.
     bindP (setV (h r)) (\<lambda>_ :: unit. if c then liftV (IdempotencyTxStore_Complete i k (a v) (b r)) else returnP ())))
     sv = (Inl err, sv')"
  shows "\<exists>m e. err = Wrap m e"
  using assms
  by (elim bindP_InlE) (auto dest: liftV_wrapped store_calls_wrapped simp: bindP_def split: if_splits)

definition cached_row :: "uuid \<Rightarrow> string \<Rightarrow> bytes \<Rightarrow> db \<Rightarrow> idempotency_row \<Rightarrow> bool" where
  "cached_row e k raw s i \<longleftrightarrow> valid_record e k s = Some i \<and> ix_Complete (scanIdempotency i) \<and>
     ir_payload_hash i = PayloadHash raw"

lemma hash_scanIdempotency: "ix_PayloadHash (scanIdempotency i) = ir_payload_hash i"
  by (simp add: scanIdempotency_def)

lemma claim_key_unwrapped:
  assumes run: "claim_key e k raw (s, v0) = (Inl err, (s', d))" and plain: "\<And>m e. err \<noteq> Wrap m e"
  shows "\<exists>i. valid_record e k s = Some i \<and> ix_Complete (scanIdempotency i) \<and>
    ((ir_payload_hash i \<noteq> PayloadHash raw \<and> err = ErrConflict) \<or>
     (ir_payload_hash i = PayloadHash raw \<and> err = ErrCachedResult \<and>
      d = Some (cached_delivery (scanIdempotency i) e)))"
proof -
  obtain s1 s2 x where s1: "IdempotencyTxStore_AcquireAdvisoryLock e k s = (Inr (), s1)"
    and s2: "IdempotencyTxStore_Lookup e k s1 = (Inr x, s2)"
    and rest: "claim_unless_cached e k raw x (s2, v0) = (Inl err, (s', d))"
    using run plain unfolding claim_key_def
    by (elim bindP_InlE liftV_InrE) (blast dest: store_calls_wrapped, blast dest: store_calls_wrapped,
      simp, elim liftV_InrE, simp)
  have "x = map_option scanIdempotency (valid_record e k s)"
    using lock_same [OF s1] lookup_Inr [OF s2] by (auto simp: same_tables_iff cong: valid_record_cong)
  moreover have "liftV (IdempotencyTxStore_Claim e k (PayloadHash raw)) (s2, v0) \<noteq> (Inl err, (s', d))"
    using plain store_calls_wrapped(3) by blast
  ultimately show ?thesis
    using rest
    by (cases "valid_record e k s")
      (auto simp: claim_unless_cached_def bindP_def Let_def hash_scanIdempotency split: if_splits)
qed

lemma submit_body_unwrapped:
  assumes run: "submit_body jsonb e payload k raw t (s, v0) = (Inl err, (s', d))"
    and plain: "\<And>m e. err \<noteq> Wrap m e"
  shows "k \<noteq> [] \<and> claim_key e k raw (s, v0) = (Inl err, (s', d))"
  using run unfolding submit_body_def
proof (cases rule: bindP_InlE)
  case left
  then show ?thesis by (auto split: if_splits)
next
  case (right x sv)
  with insertions_wrapped [OF right(2)] plain show ?thesis by blast
qed

lemma submit_result:
  assumes run: "submit jsonb e payload k raw t s = (Inr d, s')"
  shows "(\<exists>r. d = Some (scanDelivery r) \<and> submitted jsonb e payload t s s' r) \<or>
    (k \<noteq> [] \<and> same_tables s s' \<and>
      (\<exists>i. cached_row e k raw s i \<and> d = Some (cached_delivery (scanIdempotency i) e)))"
  using run
proof (cases rule: submit_cases)
  case early
  then show ?thesis by simp
next
  case (tx s1 er out d')
  have d: "d' = d" using tx(5) by (auto split: sum.splits if_splits)
  show ?thesis
  proof (cases out)
    case (Inr u)
    with tx(4) have "InTx (submit_body jsonb e payload k raw t) (s1, None) = (Inr (), (s', d))" by (simp add: d)
    then show ?thesis
    proof (rule InTx_Inr)
      fix a b assume "same_tables s1 a" "submit_body jsonb e payload k raw t (a, None) = (Inr (), (b, d))"
        "same_tables b s'"
      with submit_body_Inr [OF this(2)] tx(1) show ?thesis
        by (auto simp: same_tables_iff submitted_def)
    qed
  next
    case (Inl err)
    with tx(5) have err: "out = Inl ErrCachedResult" by (auto split: if_splits)
    with tx(4) have run: "InTx (submit_body jsonb e payload k raw t) (s1, None) = (Inl ErrCachedResult, (s', d))"
      by (simp add: d)
    then obtain a b where a: "same_tables s1 a" "submit_body jsonb e payload k raw t (a, None) = (Inl ErrCachedResult, (b, d))"
      by (rule InTx_Inl_body) auto
    have same: "same_tables s s'"
      using run tx(1) by (cases rule: InTx_Inl) (auto intro: same_tables_trans)
    have "k \<noteq> [] \<and> claim_key e k raw (a, None) = (Inl ErrCachedResult, (b, d))"
      using a(2) by (rule submit_body_unwrapped) simp
    moreover from this claim_key_unwrapped obtain i where "valid_record e k a = Some i"
        "ix_Complete (scanIdempotency i)" "ir_payload_hash i = PayloadHash raw"
        "d = Some (cached_delivery (scanIdempotency i) e)"
      by blast
    moreover have "valid_record e k a = valid_record e k s"
      using tx(1) a(1) by (intro valid_record_cong) (simp_all add: same_tables_iff)
    ultimately show ?thesis using same by (auto simp: cached_row_def)
  qed
qed

lemma submit_failure:
  assumes run: "submit jsonb e payload k raw t s = (Inl err, s')"
  shows "same_tables s s' \<or>
    (err = Wrap ''submit event'' (Wrap ''commit tx'' ErrConn) \<and> (\<exists>r. submitted jsonb e payload t s s' r))"
  using run
proof (cases rule: submit_cases)
  case early
  then show ?thesis by simp
next
  case (tx s1 er out d)
  then obtain err' where o: "out = Inl err'" "err = Wrap ''submit event'' err'"
    by (auto split: sum.splits if_splits)
  from tx(4) [unfolded o] show ?thesis
  proof (cases rule: InTx_Inl)
    case unchanged
    with tx(1) show ?thesis by (auto intro: same_tables_trans)
  next
    case (unknown a b x)
    with submit_body_Inr [of jsonb e payload k raw t a None b d] o tx(1) show ?thesis
      by (auto simp: same_tables_iff submitted_def)
  qed
qed

lemma submit_preserves: "preserves db_ok (submit jsonb e payload k raw t)"
proof (rule preservesI)
  fix s assume ok: "db_ok s"
  obtain res s' where run: "submit jsonb e payload k raw t s = (res, s')" by fastforce
  have st: "db_ok b" if "db_ok a" "same_tables a b" for a b
    using same_tables_pred [OF table_pred_db_ok that(2)] that(1) by simp
  from run have "db_ok s'"
  proof (cases rule: submit_cases)
    case early
    with ok st show ?thesis by blast
  next
    case (tx s1 er out d)
    have s1: "db_ok s1" using st [OF ok tx(1)] .
    have committed: "db_ok s'" if "same_tables s1 a" "same_tables b s'"
        "submit_body jsonb e payload k raw t (a, None) = (Inr (), (b, d))" for a b
    proof -
      have "row_by er_id e (endpoints a) = Some er" using tx(1,2) that(1) by (simp add: same_tables_iff)
      with submit_body_db_ok [OF st [OF s1 that(1)] _ tx(3) that(3)] have "db_ok b" by simp
      with that(2) show ?thesis by (rule st [rotated])
    qed
    show ?thesis
    proof (cases out)
      case (Inr u)
      with tx(4) obtain a b where "same_tables s1 a" "submit_body jsonb e payload k raw t (a, None) = (Inr (), (b, d))"
          "same_tables b s'" by (auto elim: InTx_Inr)
      then show ?thesis by (blast intro: committed)
    next
      case (Inl err)
      with tx(4) have "InTx (submit_body jsonb e payload k raw t) (s1, None) = (Inl err, (s', d))" by simp
      then show ?thesis
      proof (cases rule: InTx_Inl)
        case unchanged
        with st s1 show ?thesis by blast
      next
        case (unknown a b x)
        then show ?thesis using committed by simp
      qed
    qed
  qed
  then show "db_ok (snd (submit jsonb e payload k raw t s))" by (simp add: run)
qed

section \<open>Deduplication\<close>

definition recorded :: "uuid \<Rightarrow> string \<Rightarrow> bytes \<Rightarrow> delivery_row \<Rightarrow> instant \<Rightarrow> idempotency_row \<Rightarrow> bool" where
  "recorded e k raw r expires i \<longleftrightarrow> has_key e k i \<and> ir_payload_hash i = PayloadHash raw \<and>
     ir_event_id i = Some (dr_event_id r) \<and> ir_delivery_id i = Some (dr_id r) \<and> ir_expires_at i = expires"

text \<open>A claim leaves a row with the new hash and a fresh window.\<close>

lemma upsert_claim_row:
  assumes up: "upsert_claim e k h s = (Inr (), s')"
    and old: "\<And>i. i \<in> set (idempotency_records s) \<Longrightarrow> has_key e k i \<Longrightarrow> ir_expires_at i < now_ts s"
  shows "\<exists>i \<in> set (idempotency_records s'). has_key e k i \<and> ir_payload_hash i = h \<and>
    ir_expires_at i = now_ts s + window"
proof (cases "list_ex (has_key e k) (idempotency_records s)")
  case True
  then obtain i where i: "i \<in> set (idempotency_records s)" "has_key e k i" by (auto simp: list_ex_iff)
  from True up have s': "idempotency_records s' =
      upd_where (\<lambda>r. has_key e k r \<and> ir_expires_at r < now_ts s) (reclaimed_row h (now_ts s + window)) (idempotency_records s)"
    by (auto simp: upsert_claim_def Let_def split: if_splits)
  have "reclaimed_row h (now_ts s + window) i \<in> set (idempotency_records s')"
    unfolding s' set_upd_where using i old by force
  moreover have "has_key e k (reclaimed_row h (now_ts s + window) i)"
    using i by (simp add: has_key_def reclaimed_row_def)
  ultimately show ?thesis by (auto simp: reclaimed_row_def)
next
  case False
  with up show ?thesis by (auto simp: upsert_claim_def Let_def has_key_def split: if_splits)
qed

lemma expired_unless_valid:
  assumes ok: "db_ok s" and none: "\<forall>rec. valid_record e k s = Some rec \<longrightarrow> \<not> ix_Complete (scanIdempotency rec)"
    and i: "i \<in> set (idempotency_records s)" "has_key e k i"
  shows "ir_expires_at i < now_ts s"
proof (rule ccontr)
  assume "\<not> ir_expires_at i < now_ts s"
  with i have "valid_record e k s \<noteq> None"
    unfolding valid_record_def find_None_iff by auto
  then obtain j where j: "valid_record e k s = Some j" by auto
  then have "j \<in> set (idempotency_records s)"
    by (auto simp: valid_record_def find_Some_iff)
  with ok have "ix_Complete (scanIdempotency j)"
    by (auto simp: db_ok_def consistent_def idempotency_complete_def scanIdempotency_def)
  with none j show False by blast
qed

lemma submit_body_record:
  assumes ok: "db_ok s" and k: "k \<noteq> []"
    and run: "submit_body jsonb e payload k raw t (s, v0) = (Inr (), (s', d))"
  shows "\<exists>r. deliveries s' = deliveries s @ [r] \<and>
    (\<exists>i \<in> set (idempotency_records s'). recorded e k raw r (now_ts s + window) i)"
  using run
proof (rule submit_body_trace)
  fix s1 s2 s3 s4 s5 s6 v r
  assume t1: "if k = [] then same_tables s s1
       else (\<exists>s0. same_tables s s0 \<and> upsert_claim e k (PayloadHash raw) s0 = (Inr (), s1)) \<and>
         (\<forall>rec. valid_record e k s = Some rec \<longrightarrow> \<not> ix_Complete (scanIdempotency rec))"
    and t2: "same_tables s1 s2" and t3: "insert_event_values jsonb e t payload s2 = (Inr v, s3)"
    and t4: "same_tables s3 s4" and t5: "insert_delivery (new_delivery (vr_id v) e None (now_ts s4) t) s4 = (Inr r, s5)"
    and t6: "same_tables s5 s6"
    and t7: "if k = [] then s' = s6 else set_complete e k (vr_id v) (dr_id r) s6 = (Inr (), s')"
  from t1 k obtain s0 where s0: "same_tables s s0" "upsert_claim e k (PayloadHash raw) s0 = (Inr (), s1)"
      and none: "\<forall>rec. valid_record e k s = Some rec \<longrightarrow> \<not> ix_Complete (scanIdempotency rec)" by auto
  have "\<exists>i \<in> set (idempotency_records s1). has_key e k i \<and> ir_payload_hash i = PayloadHash raw \<and>
      ir_expires_at i = now_ts s0 + window"
    using s0(2) by (rule upsert_claim_row) (use s0(1) expired_unless_valid [OF ok none] in \<open>auto simp: same_tables_iff\<close>)
  then obtain i where i: "i \<in> set (idempotency_records s1)" "has_key e k i"
      "ir_payload_hash i = PayloadHash raw" "ir_expires_at i = now_ts s + window"
    using s0(1) by (auto simp: same_tables_iff)
  have d1: "deliveries s1 = deliveries s"
    using upsert_claim_tables [OF s0(2)] s0(1) by (simp add: same_tables_iff)
  have s3: "deliveries s3 = deliveries s2 \<and> idempotency_records s3 = idempotency_records s2"
    using t3 by (auto simp: insert_event_values_Inr)
  have s5: "deliveries s5 = deliveries s4 @ [r]" "idempotency_records s5 = idempotency_records s4"
      "dr_event_id r = vr_id v"
    using t5 by (auto simp: insert_delivery_Inr)
  have s6: "idempotency_records s6 = idempotency_records s1" "deliveries s6 = deliveries s @ [r]"
    using t2 s3 t4 s5 t6 d1 by (simp_all add: same_tables_iff)
  from t7 k have s': "s' = s6\<lparr>idempotency_records :=
      upd_where (has_key e k) (completed_row (vr_id v) (dr_id r)) (idempotency_records s6)\<rparr>"
    by (auto dest: set_complete_Inr)
  have "completed_row (vr_id v) (dr_id r) i \<in> set (idempotency_records s')"
    using i s6 by (force simp: s' set_upd_where)
  moreover have "recorded e k raw r (now_ts s + window) (completed_row (vr_id v) (dr_id r) i)"
    using i s5 by (simp add: recorded_def completed_row_def has_key_def)
  ultimately show ?thesis using s6 s' by auto
qed

lemma committed_submission_recorded:
  assumes ok: "db_ok s" and k: "k \<noteq> []" and run: "submit jsonb e payload k raw t s = (res, s1)"
    and commit: "submitted jsonb e payload t s s1 r"
  shows "\<exists>i \<in> set (idempotency_records s1). recorded e k raw r (now_ts s + window) i"
proof -
  have change: "\<not> same_tables s s1"
    using commit by (auto simp: submitted_def same_tables_iff)
  have last: "deliveries s1 = deliveries s @ [r]"
    using commit by (auto simp: submitted_def)
  have body: "\<exists>i \<in> set (idempotency_records s1). recorded e k raw r (now_ts s + window) i"
    if "same_tables s a" "submit_body jsonb e payload k raw t (a, None) = (Inr (), (b, d))" "same_tables b s1" for a b d
  proof -
    have "db_ok a" using ok same_tables_pred [OF table_pred_db_ok that(1)] by simp
    from submit_body_record [OF this k that(2)] last show ?thesis
      using that(1,3) by (auto simp: same_tables_iff)
  qed
  from run show ?thesis
  proof (cases rule: submit_cases)
    case early
    with change show ?thesis by simp
  next
    case (tx s0 er out d)
    show ?thesis
    proof (cases out)
      case (Inr u)
      with tx(4) obtain a b where "same_tables s0 a" "submit_body jsonb e payload k raw t (a, None) = (Inr (), (b, d))"
          "same_tables b s1" by (auto elim: InTx_Inr)
      with body tx(1) same_tables_trans show ?thesis by blast
    next
      case (Inl err)
      with tx(4) have "InTx (submit_body jsonb e payload k raw t) (s0, None) = (Inl err, (s1, d))" by simp
      then show ?thesis
      proof (cases rule: InTx_Inl)
        case unchanged
        with tx(1) change same_tables_trans show ?thesis by blast
      next
        case (unknown a b x)
        then show ?thesis using body [of a b d] same_tables_trans [OF tx(1)] by simp
      qed
    qed
  qed
qed

text \<open>While a complete record is valid the body never commits.\<close>

lemma recorded_blocks:
  assumes "valid_record e k s = Some i" and "ix_Complete (scanIdempotency i)" and "k \<noteq> []"
    and run: "submit jsonb e payload k raw t s = (res, s')"
  shows "same_tables s s'"
proof -
  have no: "submit_body jsonb e payload k raw t (a, None) \<noteq> (Inr (), (b, d))" if "same_tables s a" for a b d
  proof
    assume "submit_body jsonb e payload k raw t (a, None) = (Inr (), (b, d))"
    then have "\<forall>rec. valid_record e k a = Some rec \<longrightarrow> \<not> ix_Complete (scanIdempotency rec)"
      by (rule submit_body_trace) (use assms(3) in auto)
    moreover have "valid_record e k a = valid_record e k s"
      using that by (intro valid_record_cong) (simp_all add: same_tables_iff)
    ultimately show False using assms(1,2) by simp
  qed
  from run show ?thesis
  proof (cases rule: submit_cases)
    case (tx s0 er out d)
    show ?thesis
    proof (cases out)
      case (Inr u)
      with tx(4) obtain a b where "same_tables s0 a" "submit_body jsonb e payload k raw t (a, None) = (Inr (), (b, d))"
        by (auto elim: InTx_Inr)
      with no tx(1) same_tables_trans show ?thesis by blast
    next
      case (Inl err)
      with tx(4) have "InTx (submit_body jsonb e payload k raw t) (s0, None) = (Inl err, (s', d))" by simp
      then show ?thesis
      proof (cases rule: InTx_Inl)
        case unchanged
        with tx(1) same_tables_trans show ?thesis by blast
      next
        case (unknown a b x)
        then show ?thesis using no same_tables_trans [OF tx(1)] by fastforce
      qed
    qed
  qed
qed

lemma recorded_is_valid:
  assumes ok: "schema_ok s" and i: "i \<in> set (idempotency_records s)" "recorded e k raw r expires i"
    and now: "now_ts s \<le> expires"
  shows "valid_record e k s = Some i"
proof -
  have "valid_record e k s \<noteq> None"
    using i now unfolding valid_record_def find_None_iff recorded_def by auto
  then obtain j where j: "valid_record e k s = Some j" by auto
  then have "j \<in> set (idempotency_records s)" "has_key e k j"
    by (auto simp: valid_record_def find_Some_iff)
  then have "j = i"
    using i ok unique_row [of "\<lambda>i. (ir_endpoint_id i, ir_key i)" "idempotency_records s"]
    by (auto simp: schema_defs recorded_def has_key_def)
  with j show ?thesis by simp
qed

section \<open>Properties\<close>

text \<open>Whatever the connection does, a submission that returns a delivery has either added
  exactly one event and one scheduled, due delivery without attempts, of the endpoint and the
  tenant named, with the payload the caller sent, and returns that delivery; or it found a valid
  complete record of the same key and body, changed no table and returns the recorded
  delivery.  One that returns an error changed no table, unless the error is that of
  the commit, whose outcome is then unknown: both the old tables and the complete submission
  are possible, nothing in between.\<close>

theorem submit_outcomes:
  "case submit jsonb e payload k raw t s of
     (Inr d, s') \<Rightarrow>
       (\<exists>r. d = Some (scanDelivery r) \<and> submitted jsonb e payload t s s' r) \<or>
       (k \<noteq> [] \<and> same_tables s s' \<and>
         (\<exists>i. cached_row e k raw s i \<and> d = Some (cached_delivery (scanIdempotency i) e)))
   | (Inl err, s') \<Rightarrow> same_tables s s' \<or>
       (err = Wrap ''submit event'' (Wrap ''commit tx'' ErrConn) \<and> (\<exists>r. submitted jsonb e payload t s s' r))"
  by (auto split: prod.splits sum.splits dest: submit_result submit_failure)


lemma sample_submission:
  "\<exists>d s1 r. submit Some 10 (Some ''{}'') ''key'' ''{}'' 1 sample_db = (Inr d, s1) \<and>
     submitted Some 10 (Some ''{}'') 1 sample_db s1 r"
proof -
  have "\<exists>d s1. submit Some 10 (Some ''{}'') ''key'' ''{}'' 1 sample_db = (Inr d, s1)"
    by (simp add: EventService_Submit_def EndpointService_Get_def check_tenant_exists_def bindP_def tryP_def
        get_endpoint_eq get_tenant_eq sample_defs scanEndpoint_def InTx_fine submit_body_def claim_key_def
        liftV_def IdempotencyTxStore_AcquireAdvisoryLock_def IdempotencyTxStore_Lookup_def
        IdempotencyTxStore_Claim_def IdempotencyTxStore_Complete_def map_errP_def valid_record_def
        claim_unless_cached_def upsert_claim_def Let_def insert_event_values_def insert_event_def insert_row_def
        check_event_def insert_delivery_def check_delivery_def new_delivery_def replay_index_ok_def
        active_replay_def set_complete_def)
  then obtain d s1 where run: "submit Some 10 (Some ''{}'') ''key'' ''{}'' 1 sample_db = (Inr d, s1)" by blast
  have "\<not> cached_row 10 ''key'' ''{}'' sample_db i" for i
    by (simp add: cached_row_def valid_record_def sample_defs)
  with submit_result [OF run] run show ?thesis by blast
qed


text \<open>The two answers of a repeated key on a working connection: with a valid record of the
  same body the caller gets the recorded delivery, with one of another body the submission
  is refused as a conflict; the tables stay as they are.\<close>

theorem repeated_key_answers:
  assumes "faults s = []" and "row_by er_id e (endpoints s) = Some er" and "er_tenant_id er = t"
    and "row_by tr_id t (tenants s) = Some tr" and "k \<noteq> []"
    and "valid_record e k s = Some i" and "ir_event_id i = Some v" and "ir_delivery_id i = Some d"
  shows "submit jsonb e payload k raw t s =
    (if ir_payload_hash i = PayloadHash raw
     then Inr (Some \<lparr>d_ID = d, d_EventID = v, d_EndpointID = e, d_Status = StatusZero, d_AttemptCount = 0,
            d_NextAttemptAt = zero_time, d_InFlightLeaseUntil = None, d_CreatedAt = zero_time,
            d_UpdatedAt = zero_time, d_SourceDeliveryID = None\<rparr>)
     else Inl (Wrap ''submit event'' ErrConflict), s)"
proof -
  have lock: "IdempotencyTxStore_AcquireAdvisoryLock e k s = (Inr (), s)"
    using assms(1) by (simp add: IdempotencyTxStore_AcquireAdvisoryLock_def map_errP_def)
  have look: "IdempotencyTxStore_Lookup e k s = (Inr (Some (scanIdempotency i)), s)"
    using assms(1,6) by (simp add: IdempotencyTxStore_Lookup_def map_errP_def)
  have complete: "ix_Complete (scanIdempotency i)" using assms(7,8) by (simp add: scanIdempotency_def)
  define same where "same = (ir_payload_hash i = PayloadHash raw)"
  have claim: "claim_key e k raw (s, None) =
      (Inl (if same then ErrCachedResult else ErrConflict),
       (s, if same then Some (cached_delivery (scanIdempotency i) e) else None))"
    using lock look complete
    by (simp add: claim_key_def bindP_def liftV_def claim_unless_cached_def hash_scanIdempotency same_def)
  have rb: "rollback s s = s" by (simp add: rollback_def)
  have "InTx (submit_body jsonb e payload k raw t) (s, None) =
      (Inl (if same then ErrCachedResult else ErrConflict),
       (s, if same then Some (cached_delivery (scanIdempotency i) e) else None))"
    using assms(1,5) claim rb by (simp add: InTx_fine submit_body_def bindP_def)
  moreover have "check_tenant_exists endpoint_service t s = (Inr (), s)"
    using assms(1,4) by (simp add: check_tenant_exists_def tryP_def get_tenant_eq)
  moreover have "EndpointStore_GetByID e s = (Inr (scanEndpoint er), s)"
    using assms(1,2) by (simp add: get_endpoint_eq)
  ultimately show ?thesis
    using assms(3,7,8)
    by (simp add: EventService_Submit_def EndpointService_Get_def bindP_def scanEndpoint_def
        same_def cached_delivery_def scanIdempotency_def)
qed

definition sample_cached_db :: db where
  "sample_cached_db = sample_db\<lparr>idempotency_records := [\<lparr>ir_id = 50, ir_endpoint_id = 10, ir_key = ''key'',
     ir_payload_hash = PayloadHash ''{}'', ir_event_id = Some 20, ir_delivery_id = Some 30, ir_created_at = 900,
     ir_expires_at = 2000\<rparr>]\<rparr>"

theorem repeated_key_answers_witness:
  "map_option d_ID (case fst (submit Some 10 (Some ''{}'') ''key'' ''{}'' 1 sample_cached_db) of
     Inr d \<Rightarrow> d | Inl _ \<Rightarrow> None) = Some 30"
  by (subst repeated_key_answers [where er = sample_endpoint and t = 1 and
        tr = "\<lparr>tr_id = 1, tr_name = Some ''acme'', tr_created_at = 0\<rparr>" and v = 20 and d = 30 and
        i = "hd (idempotency_records sample_cached_db)"])
    (simp_all add: sample_cached_db_def sample_defs valid_record_def has_key_def)

text \<open>Every submission, whatever it returns and whatever the connection does, keeps the
  database invariant: declared constraints, leases exactly on deliveries in flight, deliveries
  linked to their endpoint, tenant and event, and idempotency records complete outside
  transactions.\<close>

theorem submit_keeps_db_ok:
  assumes "db_ok s"
  shows "db_ok (snd (submit jsonb e payload k raw t s))"
  using assms by (rule preservesD [OF submit_preserves])

theorem submit_keeps_db_ok_witness:
  "db_ok (snd (submit Some 10 (Some ''{}'') ''key'' ''{}'' 1 sample_db))"
  using sample_db_ok by (rule submit_keeps_db_ok)

end
