(* ===== verification/DLQ_Service.thy ===== *)
theory DLQ_Service
  imports Entity_Stores Sample
begin

text \<open>
  \<open>internal/service/dlq_service.go\<close> and \<open>delivery_service.go\<close>: inspection and replay of
  permanently failed deliveries, and the read model of a delivery.

  \<open>dlqService\<close> is the record of the four interfaces the service is built on.  A failing
  \<open>BulkReplay\<close> returns a count beside its error: its error value is the pair.
\<close>

section \<open>Operations\<close>

record Pagination =
  pg_Page :: int
  pg_Limit :: int
  pg_HasNext :: bool

record DLQDetail =
  dt_Entry :: DLQEntry
  dt_Attempts :: "Attempt list"

record 's dlqService =
  dq_ListPermanentlyFailed :: "DLQFilter \<Rightarrow> int \<Rightarrow> int \<Rightarrow> (err, 's, DLQEntry list) prog"
  dq_GetPermanentlyFailed :: "uuid \<Rightarrow> (err, 's, Delivery) prog"
  dq_GetByID :: "uuid \<Rightarrow> (err, 's, Delivery) prog"
  dq_CreateReplay :: "uuid \<Rightarrow> uuid \<Rightarrow> uuid \<Rightarrow> (err, 's, Delivery) prog"
  dq_ListPermanentlyFailedIDs :: "DLQFilter \<Rightarrow> (err, 's, uuid list) prog"
  dq_HasNonTerminalReplay :: "uuid \<Rightarrow> (err, 's, bool) prog"
  dq_GetEndpoint :: "uuid \<Rightarrow> (err, 's, Endpoint) prog"
  dq_ListByDelivery :: "uuid \<Rightarrow> (err, 's, Attempt list) prog"
  dq_GetTenant :: "uuid \<Rightarrow> (err, 's, Tenant) prog"

text \<open>\<open>NewDLQService\<close> on the PostgreSQL stores.\<close>

definition dlq_service :: "db dlqService" where
  "dlq_service = \<lparr>dq_ListPermanentlyFailed = DeliveryStore_ListPermanentlyFailed,
     dq_GetPermanentlyFailed = DeliveryStore_GetPermanentlyFailed, dq_GetByID = DeliveryStore_GetByID,
     dq_CreateReplay = DeliveryStore_CreateReplay,
     dq_ListPermanentlyFailedIDs = DeliveryStore_ListPermanentlyFailedIDs,
     dq_HasNonTerminalReplay = DeliveryStore_HasNonTerminalReplay, dq_GetEndpoint = EndpointStore_GetByID,
     dq_ListByDelivery = AttemptStore_ListByDelivery, dq_GetTenant = TenantStore_GetByID\<rparr>"

text \<open>One row more than the page is fetched to learn whether there is a next one.\<close>

definition dlqService_List ::
  "'s dlqService \<Rightarrow> DLQFilter \<Rightarrow> int \<Rightarrow> int \<Rightarrow> (err, 's, DLQEntry list \<times> Pagination) prog" where
  "dlqService_List svc filt page limit =
     (if page < 1 then failP (ErrText ''page must be >= 1'')
      else if limit < 1 \<or> limit > 100 then failP (ErrText ''limit must be between 1 and 100'')
      else bindP (map_errP (Wrap ''list dlq'') (dq_ListPermanentlyFailed svc filt page (limit + 1)))
        (\<lambda>rows. let hasNext = int (length rows) > limit in
          returnP (if hasNext then take (nat limit) rows else rows,
                   \<lparr>pg_Page = page, pg_Limit = limit, pg_HasNext = hasNext\<rparr>)))"

text \<open>The loop that looks for the latest completion, from the zero time.\<close>

definition latest_completion :: "Attempt list \<Rightarrow> instant" where
  "latest_completion = foldl (\<lambda>failedAt a. case a_CompletedAt a of
     None \<Rightarrow> failedAt | Some c \<Rightarrow> if c > failedAt then c else failedAt) zero_time"

definition dlqService_Detail :: "'s dlqService \<Rightarrow> uuid \<Rightarrow> (err, 's, DLQDetail) prog" where
  "dlqService_Detail svc deliveryID =
     bindP (dq_GetPermanentlyFailed svc deliveryID) (\<lambda>delivery.
     bindP (map_errP (Wrap ''get endpoint for dlq detail'') (dq_GetEndpoint svc (d_EndpointID delivery))) (\<lambda>endpoint.
     bindP (map_errP (Wrap ''list attempts for dlq detail'') (dq_ListByDelivery svc deliveryID)) (\<lambda>attempts.
       returnP \<lparr>dt_Entry = \<lparr>q_DeliveryID = d_ID delivery, q_EventID = d_EventID delivery,
           q_EndpointID = d_EndpointID delivery, q_TenantID = ep_TenantID endpoint,
           q_AttemptCount = d_AttemptCount delivery, q_FailedAt = latest_completion attempts\<rparr>,
         dt_Attempts = attempts\<rparr>)))"

definition dlqService_Replay :: "'s dlqService \<Rightarrow> uuid \<Rightarrow> (err, 's, Delivery) prog" where
  "dlqService_Replay svc deliveryID =
     bindP (dq_GetByID svc deliveryID) (\<lambda>delivery.
       if d_Status delivery \<noteq> StatusPermanentlyFailed
       then failP (Wrap ''replay delivery: wrong status'' ErrConflict)
       else tryP (dq_GetEndpoint svc (d_EndpointID delivery))
         (\<lambda>e. if errors_is e ErrNotFound
              then failP (Wrap ''replay delivery: endpoint no longer exists'' ErrUnprocessable)
              else failP (Wrap ''get endpoint for replay'' e))
         (\<lambda>_. tryP (dq_CreateReplay svc (d_EventID delivery) (d_EndpointID delivery) (d_ID delivery))
           (\<lambda>e. if pg_code e = Some unique_violation
                then failP (Wrap ''replay delivery: a non-terminal replay already exists'' ErrConflict)
                else failP (Wrap ''create replay for delivery'' e))
           returnP))"

text \<open>The body of the loop of \<open>BulkReplay\<close>, and the loop with its running count.\<close>

fun bulk_replay_loop :: "'s dlqService \<Rightarrow> int \<Rightarrow> uuid list \<Rightarrow> (err \<times> int, 's, int) prog" where
  "bulk_replay_loop svc count [] = returnP count"
| "bulk_replay_loop svc count (i # ids) =
     tryP (dq_HasNonTerminalReplay svc i)
       (\<lambda>e. failP (Wrap ''bulk replay: check non-terminal replay'' e, count))
       (\<lambda>skip.
          if skip then bulk_replay_loop svc count ids
          else tryP (dq_GetByID svc i)
            (\<lambda>_. bulk_replay_loop svc count ids)
            (\<lambda>delivery. tryP (dq_CreateReplay svc (d_EventID delivery) (d_EndpointID delivery) i)
              (\<lambda>e. if pg_code e = Some unique_violation then bulk_replay_loop svc count ids
                   else failP (Wrap ''bulk replay: create replay'' e, count))
              (\<lambda>_. bulk_replay_loop svc (count + 1) ids)))"

text \<open>The check of one filter field.\<close>

definition must_exist ::
  "('k \<Rightarrow> (err, 's, 'a) prog) \<Rightarrow> 'k option \<Rightarrow> string \<Rightarrow> string \<Rightarrow> (err \<times> int, 's, unit) prog" where
  "must_exist get field missing failed =
     (case field of
        None \<Rightarrow> returnP ()
      | Some i \<Rightarrow> tryP (get i)
          (\<lambda>e. if errors_is e ErrNotFound then failP (Wrap missing ErrUnprocessable, 0)
               else failP (Wrap failed e, 0))
          (\<lambda>_. returnP ()))"

definition dlqService_BulkReplay :: "'s dlqService \<Rightarrow> DLQFilter \<Rightarrow> (err \<times> int, 's, int) prog" where
  "dlqService_BulkReplay svc filt =
     (if f_TenantID filt = None \<and> f_EndpointID filt = None
      then failP (Wrap ''bulk replay requires at least one filter field'' ErrUnprocessable, 0)
      else bindP (must_exist (dq_GetTenant svc) (f_TenantID filt)
               ''bulk replay: tenant not found'' ''bulk replay: get tenant'') (\<lambda>_.
           bindP (must_exist (dq_GetEndpoint svc) (f_EndpointID filt)
               ''bulk replay: endpoint not found'' ''bulk replay: get endpoint'') (\<lambda>_.
           bindP (map_errP (\<lambda>e. (Wrap ''bulk replay: list IDs'' e, 0)) (dq_ListPermanentlyFailedIDs svc filt))
             (bulk_replay_loop svc 0))))"

text \<open>\<open>DeliveryService.Get\<close>, whose view is the pair of the delivery and its attempts.\<close>

definition DeliveryService_Get ::
  "(uuid \<Rightarrow> (err, 's, Delivery \<times> Attempt list) prog) \<Rightarrow> uuid \<Rightarrow> (err, 's, Delivery \<times> Attempt list) prog" where
  "DeliveryService_Get store i = map_errP (Wrap ''get delivery'') (store i)"

section \<open>The stores on a working connection\<close>

lemma get_delivery_eq:
  "faults s = [] \<Longrightarrow> DeliveryStore_GetByID i s =
     (case row_by dr_id i (deliveries s) of None \<Rightarrow> Inl ErrNotFound | Some r \<Rightarrow> Inr (scanDelivery r), s)"
  by (auto simp: DeliveryStore_GetByID_def tryP_def split: option.splits)

lemma has_replay_eq:
  "faults s = [] \<Longrightarrow> DeliveryStore_HasNonTerminalReplay i s = (Inr (replay_pending i s), s)"
  by (simp add: DeliveryStore_HasNonTerminalReplay_def map_errP_def)

lemma list_ids_eq:
  "faults s = [] \<Longrightarrow> DeliveryStore_ListPermanentlyFailedIDs filt s =
     (Inr (map dr_id (filter (matches filt) (deliveries s))), s)"
  by (simp add: DeliveryStore_ListPermanentlyFailedIDs_def map_errP_def)

lemma list_failed_eq:
  "faults s = [] \<Longrightarrow> 0 \<le> limit \<Longrightarrow> 0 \<le> wrap64 (wrap64 (page - 1) * wrap64 (limit - 1)) \<Longrightarrow>
   DeliveryStore_ListPermanentlyFailed filt page limit s =
     (Inr (map (dlq_entry s) (take (nat limit)
        (drop (nat (wrap64 (wrap64 (page - 1) * wrap64 (limit - 1)))) (dead_letters filt s)))), s)"
  by (simp add: DeliveryStore_ListPermanentlyFailed_def map_errP_def)

lemma replay_pending_iff:
  "replay_pending i s \<longleftrightarrow> Some i \<in> dr_source_delivery_id ` set (filter active_replay (deliveries s))"
  by (auto simp: replay_pending_def list_ex_iff active_replay_def image_iff)

lemma linked_endpoint:
  assumes "db_ok s" and "d \<in> set (deliveries s)"
  obtains er where "row_by er_id (dr_endpoint_id d) (endpoints s) = Some er" and "er_tenant_id er = dr_tenant_id d"
proof -
  from assms obtain er where er: "er \<in> set (endpoints s)" "er_id er = dr_endpoint_id d" "er_tenant_id er = dr_tenant_id d"
    by (auto simp: db_ok_def consistent_def delivery_linked_def)
  with assms(1) row_by_unique [of er_id "endpoints s" er] that show ?thesis
    by (auto simp: db_ok_defs)
qed

text \<open>The replay of a delivery: refused by the index when one is active, otherwise a fresh
  scheduled delivery for the same event, endpoint and tenant.\<close>

definition replay_row :: "db \<Rightarrow> delivery_row \<Rightarrow> delivery_row" where
  "replay_row s d = new_delivery (dr_event_id d) (dr_endpoint_id d) (Some (dr_id d)) (now_ts s)
     (dr_tenant_id d) (uuid_src s (uuid_pos s))"

definition with_replay :: "db \<Rightarrow> delivery_row \<Rightarrow> db" where
  "with_replay s d = s\<lparr>uuid_pos := Suc (uuid_pos s), deliveries := deliveries s @ [replay_row s d]\<rparr>"

lemma active_replay_new:
  "active_replay (replay_row s d)" "dr_source_delivery_id (replay_row s d) = Some (dr_id d)"
  "dr_id (replay_row s d) = uuid_src s (uuid_pos s)" "dr_event_id (replay_row s d) = dr_event_id d"
  "dr_endpoint_id (replay_row s d) = dr_endpoint_id d" "dr_tenant_id (replay_row s d) = dr_tenant_id d"
  "dr_status (replay_row s d) = Scheduled" "dr_attempt_count (replay_row s d) = 0"
  by (simp_all add: active_replay_def replay_row_def new_delivery_def)

lemma CreateReplay_pending:
  assumes ok: "db_ok s" and "faults s = []" and d: "d \<in> set (deliveries s)" and pending: "replay_pending (dr_id d) s"
  shows "DeliveryStore_CreateReplay (dr_event_id d) (dr_endpoint_id d) (dr_id d) s =
    (Inl (Wrap ''create replay delivery'' (PgError unique_violation)), s\<lparr>uuid_pos := Suc (uuid_pos s)\<rparr>)"
proof -
  from linked_endpoint [OF ok d] obtain er where
    er: "row_by er_id (dr_endpoint_id d) (endpoints s) = Some er" "er_tenant_id er = dr_tenant_id d" by blast
  have "\<not> replay_index_ok (deliveries s @ [replay_row s d])"
    using pending active_replay_new [of s d] by (auto simp: replay_pending_iff replay_index_ok_def)
  then have "check_delivery (s\<lparr>uuid_pos := Suc (uuid_pos s)\<rparr>) (replay_row s d) = Some unique_violation"
    by (simp add: check_delivery_def)
  with assms(2) er show ?thesis
    by (simp add: DeliveryStore_CreateReplay_def map_errP_def bindP_def insert_delivery_values_def
        insert_delivery_def insert_row_def Let_def replay_row_def)
qed

lemma CreateReplay_new:
  assumes ok: "db_ok s" and "faults s = []" and d: "d \<in> set (deliveries s)"
    and free: "\<not> replay_pending (dr_id d) s" and fresh: "uuid_src s (uuid_pos s) \<notin> delivery_ids s"
  shows "DeliveryStore_CreateReplay (dr_event_id d) (dr_endpoint_id d) (dr_id d) s =
    (Inr (scanDelivery (replay_row s d)\<lparr>d_SourceDeliveryID := Some (dr_id d)\<rparr>), with_replay s d)"
proof -
  from linked_endpoint [OF ok d] obtain er where
    er: "row_by er_id (dr_endpoint_id d) (endpoints s) = Some er" "er_tenant_id er = dr_tenant_id d" by blast
  have idx: "replay_index_ok (deliveries s @ [replay_row s d])"
    using ok free active_replay_new [of s d]
    by (auto simp: replay_pending_iff replay_index_ok_def db_ok_defs)
  have refs: "dr_event_id d \<in> event_ids s" "dr_endpoint_id d \<in> endpoint_ids s" "dr_tenant_id d \<in> tenant_ids s"
      "dr_id d \<in> delivery_ids s"
    using ok d by (auto simp: db_ok_defs)
  have "check_delivery (s\<lparr>uuid_pos := Suc (uuid_pos s)\<rparr>) (replay_row s d) = None"
    using idx refs fresh active_replay_new [of s d] by (simp add: check_delivery_def)
  with assms(2) er show ?thesis
    by (simp add: DeliveryStore_CreateReplay_def map_errP_def bindP_def insert_delivery_values_def
        insert_delivery_def insert_row_def Let_def replay_row_def with_replay_def)
qed

lemma with_replay_pending: "replay_pending j (with_replay s d) \<longleftrightarrow> j = dr_id d \<or> replay_pending j s"
  using active_replay_new [of s d] by (auto simp: replay_pending_iff with_replay_def)

section \<open>The dead letter store as an interface\<close>

text \<open>What bulk replay relies on.  \<open>failed\<close> lists the dead letters of a filter, \<open>pending\<close>
  says that a dead letter has an active replay, \<open>origins\<close> lists the source of every delivery
  ever created; \<open>good n\<close> means that there is room for \<open>n\<close> more.\<close>

locale replay_store =
  fixes svc :: "'s dlqService"
    and failed :: "'s \<Rightarrow> DLQFilter \<Rightarrow> uuid list"
    and pending :: "'s \<Rightarrow> uuid \<Rightarrow> bool"
    and origins :: "'s \<Rightarrow> uuid option list"
    and tenant_known :: "'s \<Rightarrow> uuid \<Rightarrow> bool"
    and endpoint_known :: "'s \<Rightarrow> uuid \<Rightarrow> bool"
    and good :: "nat \<Rightarrow> 's \<Rightarrow> bool"
  assumes less_room: "good (Suc n) s \<Longrightarrow> good n s"
    and tenant: "good n s \<Longrightarrow> tenant_known s t \<Longrightarrow> \<exists>x. dq_GetTenant svc t s = (Inr x, s)"
    and endpoint: "good n s \<Longrightarrow> endpoint_known s e \<Longrightarrow> \<exists>x. dq_GetEndpoint svc e s = (Inr x, s)"
    and listed: "good n s \<Longrightarrow> dq_ListPermanentlyFailedIDs svc filt s = (Inr (failed s filt), s)"
    and distinct_failed: "good n s \<Longrightarrow> distinct (failed s filt)"
    and has: "good n s \<Longrightarrow> dq_HasNonTerminalReplay svc i s = (Inr (pending s i), s)"
    and get: "good n s \<Longrightarrow> i \<in> set (failed s filt) \<Longrightarrow> \<exists>d. dq_GetByID svc i s = (Inr d, s)"
    and create: "good (Suc n) s \<Longrightarrow> i \<in> set (failed s filt) \<Longrightarrow> \<not> pending s i \<Longrightarrow>
      dq_GetByID svc i s = (Inr d, s) \<Longrightarrow>
      \<exists>r s'. dq_CreateReplay svc (d_EventID d) (d_EndpointID d) i s = (Inr r, s') \<and> good n s' \<and>
        pending s' = (pending s)(i := True) \<and> origins s' = origins s @ [Some i] \<and> failed s' = failed s \<and>
        tenant_known s' = tenant_known s \<and> endpoint_known s' = endpoint_known s"
begin

lemma loop:
  assumes "good (length ids) s" and "set ids \<subseteq> set (failed s filt)" and "distinct ids"
  shows "\<exists>s'. bulk_replay_loop svc c ids s = (Inr (c + int (length (filter (\<lambda>i. \<not> pending s i) ids))), s') \<and>
    good 0 s' \<and> (\<forall>j. pending s' j \<longleftrightarrow> pending s j \<or> j \<in> set ids) \<and>
    origins s' = origins s @ map Some (filter (\<lambda>i. \<not> pending s i) ids) \<and> failed s' = failed s \<and>
    tenant_known s' = tenant_known s \<and> endpoint_known s' = endpoint_known s"
  using assms
proof (induction ids arbitrary: s c)
  case (Cons i ids)
  have has_i: "dq_HasNonTerminalReplay svc i s = (Inr (pending s i), s)" using Cons.prems(1) by (rule has)
  show ?case
  proof (cases "pending s i")
    case True
    have "good (length ids) s" using Cons.prems(1) less_room by simp
    with Cons.IH [of s c] Cons.prems True has_i show ?thesis by (auto simp: tryP_def)
  next
    case False
    obtain d where d: "dq_GetByID svc i s = (Inr d, s)" using get Cons.prems(1,2) by fastforce
    obtain r s1 where s1: "dq_CreateReplay svc (d_EventID d) (d_EndpointID d) i s = (Inr r, s1)"
        "good (length ids) s1" "pending s1 = (pending s)(i := True)" "origins s1 = origins s @ [Some i]"
        "failed s1 = failed s" "tenant_known s1 = tenant_known s" "endpoint_known s1 = endpoint_known s"
      using create [OF _ _ False d, of "length ids" filt] Cons.prems by auto
    have same: "filter (\<lambda>j. \<not> pending s1 j) ids = filter (\<lambda>j. \<not> pending s j) ids"
      using Cons.prems(3) by (intro filter_cong) (auto simp: s1)
    have sub: "set ids \<subseteq> set (failed s1 filt)" and dist: "distinct ids"
      using Cons.prems by (simp_all add: s1)
    have "bulk_replay_loop svc c (i # ids) s = bulk_replay_loop svc (c + 1) ids s1"
      using has_i False d s1(1) by (simp add: tryP_def)
    with Cons.IH [OF s1(2) sub dist, of "c + 1"] False same show ?thesis by (auto simp: s1)
  qed
qed simp

lemma scope:
  assumes "good n s" and "\<forall>t. f_TenantID filt = Some t \<longrightarrow> tenant_known s t"
    and "\<forall>e. f_EndpointID filt = Some e \<longrightarrow> endpoint_known s e"
  shows "must_exist (dq_GetTenant svc) (f_TenantID filt) m1 m2 s = (Inr (), s)"
    and "must_exist (dq_GetEndpoint svc) (f_EndpointID filt) m3 m4 s = (Inr (), s)"
  using assms(2,3) tenant [OF assms(1)] endpoint [OF assms(1)]
  by (fastforce simp: must_exist_def tryP_def split: option.splits)+

text \<open>A bulk replay creates one replay for each dead letter of the filter that has none, and
  doing it again creates nothing.\<close>

lemma bulk_replay:
  assumes good: "good (length (failed s filt)) s" and some: "f_TenantID filt \<noteq> None \<or> f_EndpointID filt \<noteq> None"
    and t: "\<forall>t. f_TenantID filt = Some t \<longrightarrow> tenant_known s t"
    and e: "\<forall>e. f_EndpointID filt = Some e \<longrightarrow> endpoint_known s e"
  shows "\<exists>s'. dlqService_BulkReplay svc filt s =
      (Inr (int (length (filter (\<lambda>i. \<not> pending s i) (failed s filt)))), s') \<and>
    origins s' = origins s @ map Some (filter (\<lambda>i. \<not> pending s i) (failed s filt)) \<and>
    (\<forall>j. pending s' j \<longleftrightarrow> pending s j \<or> j \<in> set (failed s filt)) \<and>
    (good (length (failed s filt)) s' \<longrightarrow> fst (dlqService_BulkReplay svc filt s') = Inr 0)"
proof -
  have run: "dlqService_BulkReplay svc filt a = bulk_replay_loop svc 0 (failed a filt) a"
    if "good n a" "tenant_known a = tenant_known s" "endpoint_known a = endpoint_known s" for a n
    using some scope [OF that(1), of filt] t e that(2,3) listed [OF that(1)]
    by (auto simp: dlqService_BulkReplay_def bindP_def map_errP_def)
  from loop [OF good subset_refl distinct_failed [OF good], of 0] obtain s' where
    s': "bulk_replay_loop svc 0 (failed s filt) s =
        (Inr (int (length (filter (\<lambda>i. \<not> pending s i) (failed s filt)))), s')"
      "good 0 s'" "\<forall>j. pending s' j \<longleftrightarrow> pending s j \<or> j \<in> set (failed s filt)"
      "origins s' = origins s @ map Some (filter (\<lambda>i. \<not> pending s i) (failed s filt))" "failed s' = failed s"
      "tenant_known s' = tenant_known s" "endpoint_known s' = endpoint_known s"
    by auto
  have none: "filter (\<lambda>i. \<not> pending s' i) (failed s' filt) = []"
    using s'(3,5) by (simp add: filter_empty_conv)
  have "fst (dlqService_BulkReplay svc filt s') = Inr 0" if g: "good (length (failed s filt)) s'"
    using run [OF s'(2,6,7)] loop [of "failed s' filt" s' filt 0] none g s'(5) distinct_failed [OF s'(2), of filt]
    by auto
  with run [OF good] s' show ?thesis by auto
qed

end

definition replay_good :: "nat \<Rightarrow> db \<Rightarrow> bool" where
  "replay_good n s \<longleftrightarrow> db_ok s \<and> faults s = [] \<and> fresh_keys n s"

definition dead_ids :: "db \<Rightarrow> DLQFilter \<Rightarrow> uuid list" where
  "dead_ids s filt = map dr_id (filter (matches filt) (deliveries s))"

lemma with_replay_good:
  assumes "replay_good (Suc n) s" and "d \<in> set (deliveries s)" and "\<not> replay_pending (dr_id d) s"
  shows "replay_good n (with_replay s d)"
proof -
  have fresh: "uuid_src s (uuid_pos s) \<notin> delivery_ids s"
    using assms(1) fresh_keys_next [of n s] by (auto simp: replay_good_def used_keys_def)
  from assms(1,2) have "db_ok (snd (DeliveryStore_CreateReplay (dr_event_id d) (dr_endpoint_id d) (dr_id d) s))"
    by (intro CreateReplay_db_ok) (auto simp: replay_good_def)
  with CreateReplay_new [of s d] assms fresh have "db_ok (with_replay s d)" by (simp add: replay_good_def)
  moreover have "fresh_keys n (with_replay s d)"
    using assms(1) active_replay_new [of s d]
    by (intro fresh_keys_step [of n s]) (auto simp: replay_good_def with_replay_def used_keys_def)
  ultimately show ?thesis using assms(1) by (simp add: replay_good_def with_replay_def)
qed

interpretation dead_letter_table: replay_store dlq_service dead_ids "\<lambda>s i. replay_pending i s"
    "\<lambda>s. map dr_source_delivery_id (deliveries s)" "\<lambda>s t. t \<in> tenant_ids s" "\<lambda>s e. e \<in> endpoint_ids s" replay_good
proof
  fix n s i filt
  assume g: "replay_good n s"
  then have f: "faults s = []" by (simp add: replay_good_def)
  show "t \<in> tenant_ids s \<Longrightarrow> \<exists>x. dq_GetTenant dlq_service t s = (Inr x, s)" for t
    using row_by_None_iff [of tr_id t "tenants s"]
    by (auto simp: dlq_service_def get_tenant_eq [OF f] split: option.splits)
  show "e \<in> endpoint_ids s \<Longrightarrow> \<exists>x. dq_GetEndpoint dlq_service e s = (Inr x, s)" for e
    using row_by_None_iff [of er_id e "endpoints s"]
    by (auto simp: dlq_service_def get_endpoint_eq [OF f] split: option.splits)
  show "dq_ListPermanentlyFailedIDs dlq_service filt s = (Inr (dead_ids s filt), s)"
    by (simp add: dlq_service_def list_ids_eq [OF f] dead_ids_def)
  show "distinct (dead_ids s filt)"
    using g by (auto simp: dead_ids_def replay_good_def db_ok_defs intro: distinct_map_filter)
  show "dq_HasNonTerminalReplay dlq_service i s = (Inr (replay_pending i s), s)"
    by (simp add: dlq_service_def has_replay_eq [OF f])
  show "i \<in> set (dead_ids s filt) \<Longrightarrow> \<exists>d. dq_GetByID dlq_service i s = (Inr d, s)"
    using row_by_None_iff [of dr_id i "deliveries s"]
    by (auto simp: dlq_service_def get_delivery_eq [OF f] dead_ids_def split: option.splits)
next
  fix n s
  show "replay_good (Suc n) s \<Longrightarrow> replay_good n s"
    by (auto simp: replay_good_def intro: fresh_keys_mono)
next
  fix n s i filt d
  assume g: "replay_good (Suc n) s" and i: "i \<in> set (dead_ids s filt)" and p: "\<not> replay_pending i s"
    and get: "dq_GetByID dlq_service i s = (Inr d, s)"
  from i obtain row where row: "row \<in> set (deliveries s)" "dr_id row = i" by (auto simp: dead_ids_def)
  have "row_by dr_id i (deliveries s) = Some row"
    using g row row_by_unique [of dr_id "deliveries s" row] by (simp add: replay_good_def db_ok_defs)
  with get g have d: "d = scanDelivery row" by (simp add: dlq_service_def get_delivery_eq replay_good_def)
  have fresh: "uuid_src s (uuid_pos s) \<notin> delivery_ids s"
    using g fresh_keys_next [of n s] by (auto simp: replay_good_def used_keys_def)
  have "dq_CreateReplay dlq_service (d_EventID d) (d_EndpointID d) i s =
      (Inr (scanDelivery (replay_row s row)\<lparr>d_SourceDeliveryID := Some (dr_id row)\<rparr>), with_replay s row)"
    using CreateReplay_new [of s row] g row p fresh by (simp add: dlq_service_def d scanDelivery_def replay_good_def)
  moreover have "(\<lambda>j. replay_pending j (with_replay s row)) = (\<lambda>j. replay_pending j s)(i := True)"
    using row by (auto simp: with_replay_pending fun_eq_iff)
  moreover have "dead_ids (with_replay s row) = dead_ids s"
    using active_replay_new [of s row] by (auto simp: dead_ids_def with_replay_def matches_def fun_eq_iff)
  ultimately show "\<exists>r s'. dq_CreateReplay dlq_service (d_EventID d) (d_EndpointID d) i s = (Inr r, s') \<and>
      replay_good n s' \<and> (\<lambda>j. replay_pending j s') = (\<lambda>j. replay_pending j s)(i := True) \<and>
      map dr_source_delivery_id (deliveries s') = map dr_source_delivery_id (deliveries s) @ [Some i] \<and>
      dead_ids s' = dead_ids s \<and> (\<lambda>t. t \<in> tenant_ids s') = (\<lambda>t. t \<in> tenant_ids s) \<and>
      (\<lambda>e. e \<in> endpoint_ids s') = (\<lambda>e. e \<in> endpoint_ids s)"
    using with_replay_good [OF g row(1)] row p active_replay_new [of s row]
    by (intro exI [of _ "scanDelivery (replay_row s row)\<lparr>d_SourceDeliveryID := Some (dr_id row)\<rparr>"]
        exI [of _ "with_replay s row"]) (simp add: with_replay_def)
qed

section \<open>The services keep the database invariant\<close>

lemma delivery_get_D:
  assumes "DeliveryStore_GetByID i s = (x, s')"
  shows "same_tables s s' \<and> (\<forall>d. x = Inr d \<longrightarrow> (\<exists>r \<in> set (deliveries s). dr_id r = i \<and> d = scanDelivery r))"
proof -
  obtain y s1 where y: "stmt (readP (\<lambda>s. row_by dr_id i (deliveries s))) s = (y, s1)" by fastforce
  with assms have "s' = s1" by (auto simp: DeliveryStore_GetByID_def tryP_def split: sum.splits option.splits)
  moreover have "\<exists>r \<in> set (deliveries s). dr_id r = i \<and> d = scanDelivery r" if "x = Inr d" for d
    using assms that y
    by (auto simp: DeliveryStore_GetByID_def tryP_def split: sum.splits option.splits
        dest!: stmt_Inr_D row_by_SomeD)
  ultimately show ?thesis using stmt_read_same [OF y] by blast
qed

lemma same_tables_db_ok: "db_ok s \<Longrightarrow> same_tables s s' \<Longrightarrow> db_ok s'"
  using same_tables_pred [OF table_pred_db_ok] by blast

lemma create_replay_of_read:
  assumes "db_ok s" and "r \<in> set (deliveries s)" and "d = scanDelivery r"
  shows "db_ok (snd (DeliveryStore_CreateReplay (d_EventID d) (d_EndpointID d) src s))"
  using CreateReplay_db_ok [OF assms(1,2)] assms(3) by (simp add: scanDelivery_def)

lemma Replay_preserves: "preserves db_ok (dlqService_Replay dlq_service i)"
proof (rule preservesI)
  fix s assume ok: "db_ok s"
  obtain x s1 where g: "DeliveryStore_GetByID i s = (x, s1)" by fastforce
  have s1: "db_ok s1" "same_tables s s1"
    using same_tables_db_ok [OF ok] delivery_get_D [OF g] by blast+
  show "db_ok (snd (dlqService_Replay dlq_service i s))"
  proof (cases x)
    case (Inr d)
    with delivery_get_D [OF g] obtain r where r: "r \<in> set (deliveries s)" "d = scanDelivery r" by blast
    obtain y s2 where e: "EndpointStore_GetByID (d_EndpointID d) s1 = (y, s2)" by fastforce
    have s2: "db_ok s2" "r \<in> set (deliveries s2)"
      using same_tables_db_ok [OF s1(1) get_endpoint_same [OF e]] s1(2) get_endpoint_same [OF e] r(1)
      by (simp_all add: same_tables_iff)
    from create_replay_of_read [OF s2 r(2), of "d_ID d"] s1 s2 show ?thesis
      using g Inr e
      by (auto simp: dlqService_Replay_def dlq_service_def bindP_def tryP_def split: prod.splits sum.splits)
  qed (use g s1 in \<open>simp add: dlqService_Replay_def dlq_service_def bindP_def\<close>)
qed

lemma bulk_loop_preserves: "db_ok s \<Longrightarrow> db_ok (snd (bulk_replay_loop dlq_service c ids s))"
proof (induction ids arbitrary: c s)
  case (Cons i ids)
  obtain x s1 where h: "DeliveryStore_HasNonTerminalReplay i s = (x, s1)" by fastforce
  have "preserves db_ok (DeliveryStore_HasNonTerminalReplay i)" by (intro preserves_intros)
  from preservesD_eq [OF this Cons.prems h] have s1: "db_ok s1" .
  obtain y s2 where g: "DeliveryStore_GetByID i s1 = (y, s2)" by fastforce
  have s2: "db_ok s2" using same_tables_db_ok [OF s1] delivery_get_D [OF g] by blast
  have create: "db_ok (snd (DeliveryStore_CreateReplay (d_EventID d) (d_EndpointID d) i s2))" if d: "y = Inr d" for d
  proof -
    from delivery_get_D [OF g] d obtain r where "r \<in> set (deliveries s1)" "d = scanDelivery r" "same_tables s1 s2"
      by blast
    with s2 create_replay_of_read [of s2 r d i] show ?thesis by (simp add: same_tables_iff)
  qed
  show ?case
  proof (cases y)
    case (Inl e)
    with h g s1 s2 Cons.IH show ?thesis by (auto simp: dlq_service_def tryP_def split: sum.splits)
  next
    case (Inr d)
    obtain z s3 where c: "DeliveryStore_CreateReplay (d_EventID d) (d_EndpointID d) i s2 = (z, s3)" by fastforce
    with create [OF Inr] have "db_ok s3" by simp
    with h g s1 s2 c Inr Cons.IH show ?thesis
      by (auto simp: dlq_service_def tryP_def split: sum.splits)
  qed
qed simp

lemma BulkReplay_preserves: "preserves db_ok (dlqService_BulkReplay dlq_service filt)"
proof -
  have "preserves db_ok (bulk_replay_loop dlq_service 0 ids)" for ids
    by (rule preservesI) (rule bulk_loop_preserves)
  then show ?thesis
    unfolding dlqService_BulkReplay_def must_exist_def dlq_service_def dlqService.simps
    by (intro preserves_intros)
qed

lemma dlq_reads_preserve [preserves_intros]:
  "preserves db_ok (dlqService_List dlq_service filt page limit)"
  "preserves db_ok (dlqService_Detail dlq_service i)"
  "preserves db_ok (DeliveryService_Get DeliveryStore_GetByIDWithAttempts i)"
  unfolding dlqService_List_def dlqService_Detail_def DeliveryService_Get_def dlq_service_def
    dlqService.simps Let_def
  by (intro preserves_intros)+

lemmas dlq_preserve [preserves_intros] = Replay_preserves BulkReplay_preserves

section \<open>Completion times\<close>

lemma latest_completion_max:
  "foldl (\<lambda>t a. case a_CompletedAt a of None \<Rightarrow> t | Some c \<Rightarrow> if c > t then c else t) z as =
   fold max (List.map_filter a_CompletedAt as) z"
  by (induction as arbitrary: z) (auto simp: map_filter_simps max_def split: option.splits)

lemma fold_max_set: "set xs = set ys \<Longrightarrow> fold max xs z = fold max ys (z :: int)"
  by (metis Max.set_eq_fold list.simps(15))

lemma fold_max_start: "fold max xs (max z (y :: int)) = max z (fold max xs y)"
proof (induction xs arbitrary: y)
  case (Cons x xs)
  show ?case using Cons.IH [of "max x y"] by (simp add: max.left_commute [of x z y])
qed simp

lemma set_map_filter_eq: "set (List.map_filter f xs) = {y. \<exists>x \<in> set xs. f x = Some y}"
  by (induction xs) (auto simp: map_filter_simps split: option.splits)

lemma latest_completion_eq:
  "latest_completion (map scanAttempt (attempts_of i s)) =
     (case last_completed i s of None \<Rightarrow> zero_time | Some t \<Rightarrow> max zero_time t)"
proof -
  let ?as = "filter (\<lambda>a. ar_delivery_id a = i) (attempts s)"
  have "set (List.map_filter a_CompletedAt (map scanAttempt (attempts_of i s))) = set (List.map_filter ar_completed_at ?as)"
    by (auto simp: set_map_filter_eq attempts_of_def scanAttempt_def)
  then have "latest_completion (map scanAttempt (attempts_of i s)) = fold max (List.map_filter ar_completed_at ?as) zero_time"
    unfolding latest_completion_def latest_completion_max by (rule fold_max_set)
  moreover have "fold max (t # ts) zero_time = max zero_time (fold max ts t)" for ts t
    using fold_max_start [of ts zero_time t] by (simp add: max.commute)
  ultimately show ?thesis
    by (cases "List.map_filter ar_completed_at ?as") (simp_all add: last_completed_def)
qed

section \<open>Properties\<close>

lemma find_only: "x \<in> set xs \<Longrightarrow> P x \<Longrightarrow> (\<And>y. y \<in> set xs \<Longrightarrow> P y \<Longrightarrow> y = x) \<Longrightarrow> find P xs = Some x"
proof (induction xs)
  case (Cons z xs)
  show ?case
  proof (cases "P z")
    case True
    with Cons.prems(3) [of z] show ?thesis by simp
  next
    case False
    with Cons.prems(1,2) have "x \<in> set xs" by auto
    from this Cons.prems(2) have "find P xs = Some x"
      by (rule Cons.IH) (rule Cons.prems(3), simp_all)
    with False show ?thesis by simp
  qed
qed simp

lemma page_offset:
  assumes "1 \<le> page" and "1 \<le> limit" and "(page - 1) * limit \<le> max_int64"
  shows "wrap64 (wrap64 (page - 1) * wrap64 (limit + 1 - 1)) = (page - 1) * limit \<or> max_int64 < limit"
proof -
  have p: "page - 1 \<le> (page - 1) * limit" using assms(1,2) mult_left_mono [of 1 limit "page - 1"] by simp
  have nn: "0 \<le> (page - 1) * limit" using assms(1,2) by simp
  have "wrap64 (page - 1) = page - 1"
    using p assms(1,3) by (intro wrap64_id) (simp_all add: min_int64_def)
  moreover have "wrap64 ((page - 1) * limit) = (page - 1) * limit"
    using nn assms(3) by (intro wrap64_id) (simp_all add: min_int64_def)
  moreover have "wrap64 limit = limit" if "limit \<le> max_int64"
    using that assms(2) by (intro wrap64_id) (simp_all add: min_int64_def)
  ultimately show ?thesis by auto
qed

lemma dlq_page_eq:
  assumes "faults s = []" and "1 \<le> page" and "1 \<le> limit" and "limit \<le> 100" and "(page - 1) * limit \<le> max_int64"
  shows "dlqService_List dlq_service filt page limit s =
    (Inr (map (dlq_entry s) (take (nat limit) (drop (nat ((page - 1) * limit)) (dead_letters filt s))),
          \<lparr>pg_Page = page, pg_Limit = limit,
           pg_HasNext = (page * limit < int (length (dead_letters filt s)))\<rparr>), s)"
proof -
  let ?rest = "drop (nat ((page - 1) * limit)) (dead_letters filt s)"
  have off: "wrap64 (wrap64 (page - 1) * wrap64 (limit + 1 - 1)) = (page - 1) * limit"
    using page_offset [OF assms(2,3,5)] assms(4) by (simp add: max_int64_def)
  have nn: "0 \<le> (page - 1) * limit" using assms by simp
  have run: "dq_ListPermanentlyFailed dlq_service filt page (limit + 1) s =
      (Inr (map (dlq_entry s) (take (nat (limit + 1)) ?rest)), s)"
    using list_failed_eq [OF assms(1), of "limit + 1" page filt] off nn assms(3)
    by (simp add: dlq_service_def)
  have next_iff: "int (min (length ?rest) (nat (limit + 1))) > limit \<longleftrightarrow> page * limit < int (length (dead_letters filt s))"
  proof -
    define start where "start = nat ((page - 1) * limit)"
    have "int start = (page - 1) * limit" using nn by (simp add: start_def)
    then have "int start = page * limit - limit" by (simp add: left_diff_distrib)
    then show ?thesis
      using assms(3) unfolding length_drop start_def [symmetric] by linarith
  qed
  have "take (nat limit) (take (nat (limit + 1)) ?rest) = take (nat limit) ?rest"
    using assms(3) by (simp add: min_def)
  moreover have "take (nat (limit + 1)) ?rest = take (nat limit) ?rest"
    if "\<not> int (min (length ?rest) (nat (limit + 1))) > limit"
    using that assms(3) by (auto simp: min_def split: if_splits)
  ultimately show ?thesis
    using assms(2-4) run next_iff
    by (auto simp: dlqService_List_def bindP_def map_errP_def Let_def take_map)
qed

text \<open>Every page of the dead letter list is exactly its slice of the dead letters that match
  the filter, newest update first, and \<open>HasNext\<close> is true exactly when some lie beyond the
  page, for every limit the service accepts and every page whose offset fits an \<open>int64\<close>.\<close>

theorem dlq_page_is_slice:
  assumes "faults s = []" and "1 \<le> page" and "1 \<le> limit" and "limit \<le> 100" and "(page - 1) * limit \<le> max_int64"
  shows "dlqService_List dlq_service filt page limit s =
    (Inr (map (dlq_entry s) (take (nat limit) (drop (nat ((page - 1) * limit)) (dead_letters filt s))),
          \<lparr>pg_Page = page, pg_Limit = limit,
           pg_HasNext = (page * limit < int (length (dead_letters filt s)))\<rparr>), s)"
  using assms by (rule dlq_page_eq)

theorem dlq_page_is_slice_witness:
  "case fst (dlqService_List dlq_service \<lparr>f_TenantID = None, f_EndpointID = Some 10\<rparr> 1 1 sample_db) of
     Inr (es, p) \<Rightarrow> map q_DeliveryID es = [31] \<and> \<not> pg_HasNext p | Inl _ \<Rightarrow> False"
  by (subst dlq_page_is_slice)
    (simp_all add: max_int64_def dead_letters_def matches_def sample_defs dlq_entry_def last_completed_def)

lemma concat_slices:
  "concat (map (\<lambda>p. take l (drop (p * l) xs)) [0..<n]) = take (n * l) xs"
  by (induction n) (simp_all add: take_add [of "n * l" l for n] add.commute [of l])



text \<open>A page number whose offset overflows \<open>int64\<close> into a negative number is not answered
  by an empty page: the server refuses the query and the service reports an internal error.\<close>

theorem dlq_page_overflow_fails:
  assumes "faults s = []" and "1 \<le> page" and "page \<le> max_int64" and "1 \<le> limit" and "limit \<le> 100"
    and "wrap64 ((page - 1) * limit) < 0"
  shows "dlqService_List dlq_service filt page limit s =
    (Inl (Wrap ''list dlq'' (Wrap ''list permanently failed'' (PgError invalid_offset))), s)"
proof -
  have "wrap64 (page - 1) = page - 1" "wrap64 limit = limit"
    using assms by (auto intro!: wrap64_id simp: min_int64_def max_int64_def)
  with assms show ?thesis
    by (simp add: dlqService_List_def dlq_service_def DeliveryStore_ListPermanentlyFailed_def bindP_def
        map_errP_def)
qed

theorem dlq_page_overflow_fails_witness:
  "dlqService_List dlq_service \<lparr>f_TenantID = None, f_EndpointID = None\<rparr> (2 ^ 62 + 1) 2 sample_db =
    (Inl (Wrap ''list dlq'' (Wrap ''list permanently failed'' (PgError invalid_offset))), sample_db)"
  by (rule dlq_page_overflow_fails) (simp_all add: wrap64_def max_int64_def)

text \<open>C36. Replay answers by the state of the delivery: unknown, not permanently failed, already
  being replayed (all refused, no delivery added), or replayed as a new scheduled delivery of
  the same event, endpoint and tenant that records its source, the dead letter staying as it
  is.\<close>

theorem replay_outcomes:
  assumes "db_ok s" and "faults s = []" and "fresh_keys 1 s"
  shows "dlqService_Replay dlq_service i s =
    (case row_by dr_id i (deliveries s) of
       None \<Rightarrow> (Inl ErrNotFound, s)
     | Some d \<Rightarrow>
         if dr_status d \<noteq> PermanentlyFailed then (Inl (Wrap ''replay delivery: wrong status'' ErrConflict), s)
         else if replay_pending i s
         then (Inl (Wrap ''replay delivery: a non-terminal replay already exists'' ErrConflict),
               s\<lparr>uuid_pos := Suc (uuid_pos s)\<rparr>)
         else (Inr (scanDelivery (replay_row s d)\<lparr>d_SourceDeliveryID := Some i\<rparr>), with_replay s d))"
proof (cases "row_by dr_id i (deliveries s)")
  case None
  with assms(2) show ?thesis by (simp add: dlqService_Replay_def dlq_service_def bindP_def get_delivery_eq)
next
  case (Some d)
  then have d: "d \<in> set (deliveries s)" "dr_id d = i" using row_by_SomeD by fastforce+
  from linked_endpoint [OF assms(1) d(1)] obtain er where
    er: "row_by er_id (dr_endpoint_id d) (endpoints s) = Some er" by blast
  have fresh: "uuid_src s (uuid_pos s) \<notin> delivery_ids s"
    using assms(3) fresh_keys_next [of 0 s] by (auto simp: used_keys_def)
  have scan: "d_Status (scanDelivery d) \<noteq> StatusPermanentlyFailed \<longleftrightarrow> dr_status d \<noteq> PermanentlyFailed"
    by (simp add: scanDelivery_def scan_status_eq_iff)
  have ids: "d_EventID (scanDelivery d) = dr_event_id d" "d_EndpointID (scanDelivery d) = dr_endpoint_id d"
      "d_ID (scanDelivery d) = i" using d by (simp_all add: scanDelivery_def)
  show ?thesis
    using Some er scan ids d assms(2) CreateReplay_pending [OF assms(1,2) d(1)]
      CreateReplay_new [OF assms(1,2) d(1) _ fresh]
    by (auto simp: dlqService_Replay_def dlq_service_def bindP_def tryP_def get_delivery_eq get_endpoint_eq)
qed

theorem replay_outcomes_witness:
  "map d_SourceDeliveryID (case fst (dlqService_Replay dlq_service 31 sample_db) of Inr d \<Rightarrow> [d] | Inl _ \<Rightarrow> []) =
    [Some 31]"
  by (subst replay_outcomes [OF sample_db_ok])
    (simp_all add: sample_defs replay_pending_def fresh_keys_def used_keys_def)

text \<open>C31. A bulk replay creates exactly one replay for each dead letter of the filter that has no
  active one, returns their number and touches no other delivery's replays; run
  again at once it creates nothing.\<close>

theorem bulk_replay_effect:
  assumes "replay_good (length (dead_ids s filt)) s"
    and "f_TenantID filt \<noteq> None \<or> f_EndpointID filt \<noteq> None"
    and "\<forall>t. f_TenantID filt = Some t \<longrightarrow> t \<in> tenant_ids s"
    and "\<forall>e. f_EndpointID filt = Some e \<longrightarrow> e \<in> endpoint_ids s"
  shows "\<exists>s'. dlqService_BulkReplay dlq_service filt s =
      (Inr (int (length (filter (\<lambda>i. \<not> replay_pending i s) (dead_ids s filt)))), s') \<and>
    map dr_source_delivery_id (deliveries s') = map dr_source_delivery_id (deliveries s) @
      map Some (filter (\<lambda>i. \<not> replay_pending i s) (dead_ids s filt)) \<and>
    (\<forall>j. replay_pending j s' \<longleftrightarrow> replay_pending j s \<or> j \<in> set (dead_ids s filt)) \<and>
    (replay_good (length (dead_ids s filt)) s' \<longrightarrow> fst (dlqService_BulkReplay dlq_service filt s') = Inr 0)"
  using assms by (rule dead_letter_table.bulk_replay)

theorem bulk_replay_effect_witness:
  "\<exists>s'. dlqService_BulkReplay dlq_service \<lparr>f_TenantID = Some 1, f_EndpointID = None\<rparr> sample_db = (Inr 1, s') \<and>
     map dr_source_delivery_id (deliveries s') = [None, None, Some 31]"
proof -
  have one: "dead_ids sample_db \<lparr>f_TenantID = Some 1, f_EndpointID = None\<rparr> = [31]"
    by (simp add: dead_ids_def matches_def sample_defs)
  have free: "\<not> replay_pending 31 sample_db" by (simp add: replay_pending_def sample_defs)
  have "replay_good 1 sample_db"
    using sample_db_ok by (simp add: replay_good_def fresh_keys_def used_keys_def) (simp add: sample_defs)
  then show ?thesis
    using bulk_replay_effect [of sample_db "\<lparr>f_TenantID = Some 1, f_EndpointID = None\<rparr>"] one free
    by (auto simp: sample_defs)
qed

text \<open>The detail view of a dead letter agrees with its list entry in every field but the
  time of failure: the detail reports the latest completion of an attempt, or the zero time
  when no attempt was completed, where the list falls back to the last update.\<close>

theorem detail_agrees_with_list:
  assumes "db_ok s" and "faults s = []" and "d \<in> set (deliveries s)" and "dr_status d = PermanentlyFailed"
  shows "\<exists>dt. dlqService_Detail dlq_service (dr_id d) s = (Inr dt, s) \<and>
    dt_Entry dt = (dlq_entry s d)\<lparr>q_FailedAt :=
      (case last_completed (dr_id d) s of None \<Rightarrow> zero_time | Some t \<Rightarrow> max zero_time t)\<rparr> \<and>
    dt_Attempts dt = map scanAttempt (attempts_of (dr_id d) s)"
proof -
  from linked_endpoint [OF assms(1,3)] obtain er where
    er: "row_by er_id (dr_endpoint_id d) (endpoints s) = Some er" "er_tenant_id er = dr_tenant_id d" by blast
  have "r = d" if "r \<in> set (deliveries s)" "dr_id r = dr_id d" for r
    using unique_row [of dr_id "deliveries s" r d] that assms(1,3) by (simp add: db_ok_defs)
  then have row: "find (\<lambda>r. dr_id r = dr_id d \<and> dr_status r = PermanentlyFailed) (deliveries s) = Some d"
    using assms(3,4) by (intro find_only) auto
  have "DeliveryStore_GetPermanentlyFailed (dr_id d) s = (Inr (scanDelivery d), s)"
    using row assms(2) by (simp add: DeliveryStore_GetPermanentlyFailed_def tryP_def)
  with er assms(2) show ?thesis
    by (simp add: dlqService_Detail_def dlq_service_def bindP_def map_errP_def get_endpoint_eq
        AttemptStore_ListByDelivery_def latest_completion_eq scanDelivery_def scanEndpoint_def dlq_entry_def)
qed

theorem detail_agrees_with_list_witness:
  "\<exists>dt. dlqService_Detail dlq_service 31 sample_db = (Inr dt, sample_db) \<and> q_FailedAt (dt_Entry dt) = 70"
  using detail_agrees_with_list [OF sample_db_ok sample_faults, of sample_failed]
  by (auto simp: sample_defs last_completed_def zero_time_def map_filter_simps)

end
