(* ===== verification/Config.thy ===== *)
theory Config
  imports Domain
begin

text \<open>
  The package \<open>internal/config\<close>: the settings of the three subcommands, with the embedded
  struct \<open>Common\<close> as the record the others extend, their defaults (the \<open>envDefault\<close>
  tags) and the conversions to durations.  Reading the environment is the library
  \<open>caarlos0/env\<close>, an argument of the three \<open>Load\<close> functions.
\<close>

record CommonConfig =
  LogLevel :: string
  LogFormat :: string
  DatabaseURL :: string
  KafkaBrokers :: "string list"
  KafkaTopic :: string
  MetricsPort :: int

record APIConfig = CommonConfig +
  APIPort :: int
  API_DatabasePoolMax :: int

record WorkerEnvConfig = CommonConfig +
  Worker_DatabasePoolMax :: int
  Concurrency :: int
  HTTPTimeoutSeconds :: int
  KafkaConsumerGroup :: string

record SchedulerEnvConfig = CommonConfig +
  Scheduler_DatabasePoolMax :: int
  SchedulerTickMS :: int
  InFlightLeaseSeconds :: int
  ReaperTickSeconds :: int

record CircuitConfig =
  Threshold :: int
  SuspensionSeconds :: int

text \<open>Only \<open>DATABASE_URL\<close> has no default.\<close>

definition API_defaults :: "string \<Rightarrow> APIConfig" where
  "API_defaults url = \<lparr>LogLevel = ''info'', LogFormat = ''json'', DatabaseURL = url,
     KafkaBrokers = [''localhost:9092''], KafkaTopic = ''webhook.deliveries'', MetricsPort = 9090,
     APIPort = 8080, API_DatabasePoolMax = 50\<rparr>"

definition Worker_defaults :: "string \<Rightarrow> WorkerEnvConfig" where
  "Worker_defaults url = \<lparr>LogLevel = ''info'', LogFormat = ''json'', DatabaseURL = url,
     KafkaBrokers = [''localhost:9092''], KafkaTopic = ''webhook.deliveries'', MetricsPort = 9090,
     Worker_DatabasePoolMax = 20, Concurrency = 64, HTTPTimeoutSeconds = 30,
     KafkaConsumerGroup = ''webhook-workers''\<rparr>"

definition Scheduler_defaults :: "string \<Rightarrow> SchedulerEnvConfig" where
  "Scheduler_defaults url = \<lparr>LogLevel = ''info'', LogFormat = ''json'', DatabaseURL = url,
     KafkaBrokers = [''localhost:9092''], KafkaTopic = ''webhook.deliveries'', MetricsPort = 9090,
     Scheduler_DatabasePoolMax = 5, SchedulerTickMS = 500, InFlightLeaseSeconds = 300,
     ReaperTickSeconds = 60\<rparr>"

definition Circuit_defaults :: CircuitConfig where
  "Circuit_defaults = \<lparr>Threshold = 5, SuspensionSeconds = 60\<rparr>"

definition HTTPTimeout :: "WorkerEnvConfig \<Rightarrow> duration" where
  "HTTPTimeout w = wrap64 (HTTPTimeoutSeconds w * second)"

definition SchedulerTick :: "SchedulerEnvConfig \<Rightarrow> duration" where
  "SchedulerTick c = wrap64 (SchedulerTickMS c * millisecond)"

definition InFlightLease :: "SchedulerEnvConfig \<Rightarrow> duration" where
  "InFlightLease c = wrap64 (InFlightLeaseSeconds c * second)"

definition ReaperTick :: "SchedulerEnvConfig \<Rightarrow> duration" where
  "ReaperTick c = wrap64 (ReaperTickSeconds c * second)"

definition SuspensionDuration :: "CircuitConfig \<Rightarrow> duration" where
  "SuspensionDuration c = wrap64 (SuspensionSeconds c * second)"

text \<open>\<open>env_parse\<close> stands for \<open>env.Parse\<close> filling the struct from the process environment.\<close>

definition LoadAPI :: "('env \<Rightarrow> string + APIConfig) \<Rightarrow> 'env \<Rightarrow> err + APIConfig" where
  "LoadAPI env_parse environment =
     (case env_parse environment of Inl m \<Rightarrow> Inl (Wrap ''load api config'' (ErrText m)) | Inr cfg \<Rightarrow> Inr cfg)"

definition LoadWorker :: "('env \<Rightarrow> string + WorkerEnvConfig) \<Rightarrow> 'env \<Rightarrow> err + WorkerEnvConfig" where
  "LoadWorker env_parse environment =
     (case env_parse environment of Inl m \<Rightarrow> Inl (Wrap ''load worker config'' (ErrText m)) | Inr cfg \<Rightarrow> Inr cfg)"

definition LoadScheduler :: "('env \<Rightarrow> string + SchedulerEnvConfig) \<Rightarrow> 'env \<Rightarrow> err + SchedulerEnvConfig" where
  "LoadScheduler env_parse environment =
     (case env_parse environment of Inl m \<Rightarrow> Inl (Wrap ''load scheduler config'' (ErrText m)) | Inr cfg \<Rightarrow> Inr cfg)"

end
