(* ===== verification/Circuit_Store.thy ===== *)
theory Circuit_Store
  imports Sample Config
begin

text \<open>
  \<open>internal/store/circuit_store.go\<close>: the circuit breaker columns of the endpoints table.

  Each SQL statement is a row update (\<open>\<dots>_row\<close>, the \<open>SET\<close> clause with its \<open>CASE\<close>
  expressions, in which every column on the right is the old value) under the statement's
  \<open>WHERE\<close> clause.  The abstract breaker \<open>breaker\<close> says what the columns mean; the
  refinement lemmas show that the statements are its transitions.
\<close>

section \<open>The statements\<close>

definition circuit_accepts :: "uuid \<Rightarrow> endpoint_row \<Rightarrow> bool" where
  "circuit_accepts endpointID e \<longleftrightarrow> er_id e = endpointID \<and>
     (er_circuit_state e = CircuitClosed \<or> er_circuit_state e = CircuitHalfOpen)"

definition success_row :: "endpoint_row \<Rightarrow> endpoint_row" where
  "success_row e = e\<lparr>er_failure_count := 0, er_circuit_state := CircuitClosed,
     er_suspended_until := None, er_probe_delivery_id := None,
     er_sensitive_recovery := (er_circuit_state e = CircuitHalfOpen)\<rparr>"

definition CircuitStore_HandleSuccess :: "uuid \<Rightarrow> unit dbprog" where
  "CircuitStore_HandleSuccess endpointID =
     bindP (stmt (update_endpoints (circuit_accepts endpointID) success_row)) (\<lambda>_. returnP ())"

text \<open>The three \<open>CASE\<close> conditions under which a transient failure opens the circuit.\<close>

definition failure_opens :: "CircuitConfig \<Rightarrow> endpoint_row \<Rightarrow> bool" where
  "failure_opens cfg e \<longleftrightarrow>
     (if er_circuit_state e = CircuitHalfOpen then True
      else if er_sensitive_recovery e then True
      else er_failure_count e + 1 \<ge> Threshold cfg)"

definition transient_row :: "CircuitConfig \<Rightarrow> instant \<Rightarrow> endpoint_row \<Rightarrow> endpoint_row" where
  "transient_row cfg now e = e\<lparr>er_failure_count := er_failure_count e + 1,
     er_circuit_state := (if failure_opens cfg e then CircuitOpen else CircuitClosed),
     er_suspended_until := (if failure_opens cfg e then Some (now + SuspensionSeconds cfg * second)
                            else er_suspended_until e),
     er_sensitive_recovery := False,
     er_probe_delivery_id := (if er_circuit_state e = CircuitHalfOpen then None else er_probe_delivery_id e)\<rparr>"

definition CircuitStore_HandleTransientFailure :: "uuid \<Rightarrow> CircuitConfig \<Rightarrow> unit dbprog" where
  "CircuitStore_HandleTransientFailure endpointID cfg =
     bindP (stmt (with_state (\<lambda>s. update_endpoints (circuit_accepts endpointID) (transient_row cfg (now_ts s)))))
       (\<lambda>_. returnP ())"

definition probe_failed_row :: "CircuitConfig \<Rightarrow> instant \<Rightarrow> endpoint_row \<Rightarrow> endpoint_row" where
  "probe_failed_row cfg now e = e\<lparr>er_circuit_state := CircuitOpen,
     er_suspended_until := Some (now + SuspensionSeconds cfg * second), er_probe_delivery_id := None\<rparr>"

definition CircuitStore_HandleProbePermanentFailure :: "uuid \<Rightarrow> CircuitConfig \<Rightarrow> unit dbprog" where
  "CircuitStore_HandleProbePermanentFailure endpointID cfg =
     bindP (stmt (with_state (\<lambda>s.
              update_endpoints (\<lambda>e. er_id e = endpointID \<and> er_circuit_state e = CircuitHalfOpen)
                (probe_failed_row cfg (now_ts s)))))
       (\<lambda>_. returnP ())"

text \<open>The subquery: some delivery of the endpoint is not terminal.\<close>

definition open_deliveries :: "uuid \<Rightarrow> db \<Rightarrow> delivery_row list" where
  "open_deliveries endpointID s =
     filter (\<lambda>d. dr_endpoint_id d = endpointID \<and> \<not> terminal (dr_status d)) (deliveries s)"

definition suspension_expired :: "instant \<Rightarrow> endpoint_row \<Rightarrow> bool" where
  "suspension_expired now e \<longleftrightarrow> er_circuit_state e = CircuitOpen \<and>
     (case er_suspended_until e of None \<Rightarrow> False | Some u \<Rightarrow> u \<le> now)"

definition expired_row :: "db \<Rightarrow> endpoint_row \<Rightarrow> endpoint_row" where
  "expired_row s e =
     (if open_deliveries (er_id e) s \<noteq> []
      then e\<lparr>er_circuit_state := CircuitHalfOpen, er_suspended_until := None\<rparr>
      else e\<lparr>er_circuit_state := CircuitClosed, er_failure_count := 0, er_suspended_until := None\<rparr>)"

text \<open>The \<open>RETURNING\<close> rows, split as the loop over them does.\<close>

definition CircuitStore_ProcessExpiredSuspensions :: "(uuid list \<times> uuid list) dbprog" where
  "CircuitStore_ProcessExpiredSuspensions =
     map_errP (Wrap ''process expired suspensions'') (stmt (with_state (\<lambda>s.
       let updated = map (expired_row s) (filter (suspension_expired (now_ts s)) (endpoints s));
           halfOpenIDs = map er_id (filter (\<lambda>e. er_circuit_state e = CircuitHalfOpen) updated);
           closedIDs = map er_id (filter (\<lambda>e. er_circuit_state e = CircuitClosed) updated)
       in bindP (update_endpoints (suspension_expired (now_ts s)) (expired_row s))
            (\<lambda>_. returnP (halfOpenIDs, closedIDs)))))"

definition oldest_open_delivery :: "uuid \<Rightarrow> db \<Rightarrow> uuid option" where
  "oldest_open_delivery endpointID s =
     (case sort_key dr_created_at (open_deliveries endpointID s) of [] \<Rightarrow> None | d # _ \<Rightarrow> Some (dr_id d))"

definition close_empty_row :: "endpoint_row \<Rightarrow> endpoint_row" where
  "close_empty_row e = e\<lparr>er_circuit_state := CircuitClosed, er_failure_count := 0, er_probe_delivery_id := None\<rparr>"

definition half_open_at :: "uuid \<Rightarrow> endpoint_row \<Rightarrow> bool" where
  "half_open_at endpointID e \<longleftrightarrow> er_id e = endpointID \<and> er_circuit_state e = CircuitHalfOpen"

text \<open>Select the probe; close an empty queue, or record the probe and make it due.\<close>

definition CircuitStore_SetProbeDelivery :: "uuid \<Rightarrow> unit dbprog" where
  "CircuitStore_SetProbeDelivery endpointID =
     tryP (stmt (readP (oldest_open_delivery endpointID)))
       (\<lambda>e. failP (Wrap ''select probe delivery'' e))
       (\<lambda>sel. case sel of
          None \<Rightarrow> bindP (stmt (update_endpoints (half_open_at endpointID) close_empty_row)) (\<lambda>_. returnP ())
        | Some probeID \<Rightarrow>
            bindP (map_errP (Wrap ''set probe delivery id'')
                    (stmt (update_endpoints (half_open_at endpointID) (er_probe_delivery_id_update (\<lambda>_. Some probeID)))))
              (\<lambda>_. bindP (map_errP (Wrap ''reset probe next_attempt_at'')
                    (stmt (with_state (\<lambda>s.
                       update_deliveries (\<lambda>d. dr_id d = probeID \<and> dr_next_attempt_at d > now_ts s)
                         (dr_next_attempt_at_update (\<lambda>_. now_ts s))))))
                (\<lambda>_. returnP ())))"

definition CircuitStore_OrphanedHalfOpenEndpoints :: "uuid list dbprog" where
  "CircuitStore_OrphanedHalfOpenEndpoints =
     map_errP (Wrap ''find orphaned half_open'') (stmt (readP (\<lambda>s.
       map er_id (filter (\<lambda>e. er_circuit_state e = CircuitHalfOpen \<and> er_probe_delivery_id e = None)
                    (endpoints s)))))"

definition CircuitStore_GetState :: "uuid \<Rightarrow> CircuitBreakerInfo dbprog" where
  "CircuitStore_GetState endpointID =
     tryP (stmt (readP (\<lambda>s. row_by er_id endpointID (endpoints s))))
       (\<lambda>e. failP (Wrap ''get circuit state'' e))
       (\<lambda>row. case row of
          None \<Rightarrow> failP ErrNotFound
        | Some e \<Rightarrow> returnP \<lparr>cb_EndpointID = endpointID, cb_State = er_circuit_state e,
            cb_ConsecutiveFailures = er_failure_count e, cb_SuspendedUntil = er_suspended_until e\<rparr>)"

lemmas circuit_rows = success_row_def transient_row_def probe_failed_row_def expired_row_def
  close_empty_row_def

section \<open>The abstract breaker\<close>

text \<open>What the columns mean: a closed circuit counts failures and may be on probation after
  a recovery; an open one waits for an instant; a half open one waits for its probe.\<close>

datatype breaker =
    Closed int bool
  | Open int instant
  | HalfOpen int "uuid option"

definition abs_circuit :: "endpoint_row \<Rightarrow> breaker" where
  "abs_circuit e =
     (case er_circuit_state e of
        CircuitClosed \<Rightarrow> Closed (er_failure_count e) (er_sensitive_recovery e)
      | CircuitOpen \<Rightarrow> Open (er_failure_count e) (the (er_suspended_until e))
      | CircuitHalfOpen \<Rightarrow> HalfOpen (er_failure_count e) (er_probe_delivery_id e))"

fun breaker_success :: "breaker \<Rightarrow> breaker" where
  "breaker_success (Closed n sens) = Closed 0 False"
| "breaker_success (HalfOpen n p) = Closed 0 True"
| "breaker_success (Open n u) = Open n u"

fun breaker_transient :: "CircuitConfig \<Rightarrow> instant \<Rightarrow> breaker \<Rightarrow> breaker" where
  "breaker_transient cfg now (Closed n sens) =
     (if sens \<or> Threshold cfg \<le> n + 1 then Open (n + 1) (now + SuspensionSeconds cfg * second)
      else Closed (n + 1) False)"
| "breaker_transient cfg now (HalfOpen n p) = Open (n + 1) (now + SuspensionSeconds cfg * second)"
| "breaker_transient cfg now (Open n u) = Open n u"

fun breaker_probe_permanent :: "CircuitConfig \<Rightarrow> instant \<Rightarrow> breaker \<Rightarrow> breaker" where
  "breaker_probe_permanent cfg now (HalfOpen n p) = Open n (now + SuspensionSeconds cfg * second)"
| "breaker_probe_permanent cfg now b = b"

fun breaker_expire :: "instant \<Rightarrow> bool \<Rightarrow> breaker \<Rightarrow> breaker" where
  "breaker_expire now work (Open n u) =
     (if u \<le> now then (if work then HalfOpen n None else Closed 0 False) else Open n u)"
| "breaker_expire now work b = b"

fun breaker_set_probe :: "uuid option \<Rightarrow> breaker \<Rightarrow> breaker" where
  "breaker_set_probe None (HalfOpen n p) = Closed 0 False"
| "breaker_set_probe (Some d) (HalfOpen n p) = HalfOpen n (Some d)"
| "breaker_set_probe q b = b"

text \<open>The breaker of an endpoint in the database.\<close>

definition breaker_of :: "db \<Rightarrow> uuid \<Rightarrow> breaker option" where
  "breaker_of s endpointID = map_option abs_circuit (row_by er_id endpointID (endpoints s))"

subsection \<open>Rows refine the breaker\<close>

lemma abs_success:
  "circuit_ok e \<Longrightarrow> circuit_accepts (er_id e) e \<Longrightarrow> abs_circuit (success_row e) = breaker_success (abs_circuit e)"
  by (auto simp: abs_circuit_def success_row_def circuit_accepts_def)

lemma abs_transient:
  "circuit_ok e \<Longrightarrow> circuit_accepts (er_id e) e \<Longrightarrow>
   abs_circuit (transient_row cfg now e) = breaker_transient cfg now (abs_circuit e)"
  by (auto simp: abs_circuit_def transient_row_def circuit_accepts_def failure_opens_def)

lemma abs_probe_failed:
  "er_circuit_state e = CircuitHalfOpen \<Longrightarrow>
   abs_circuit (probe_failed_row cfg now e) = breaker_probe_permanent cfg now (abs_circuit e)"
  by (simp add: abs_circuit_def probe_failed_row_def)

lemma abs_expired:
  "circuit_ok e \<Longrightarrow> suspension_expired now e \<Longrightarrow>
   abs_circuit (expired_row s e) = breaker_expire now (open_deliveries (er_id e) s \<noteq> []) (abs_circuit e)"
  by (auto simp: abs_circuit_def expired_row_def suspension_expired_def circuit_ok_def split: option.splits)

lemma abs_set_probe:
  "er_circuit_state e = CircuitHalfOpen \<Longrightarrow>
   abs_circuit (e\<lparr>er_probe_delivery_id := Some d\<rparr>) = breaker_set_probe (Some d) (abs_circuit e)"
  by (simp add: abs_circuit_def)

lemma abs_close_empty:
  "circuit_ok e \<Longrightarrow> er_circuit_state e = CircuitHalfOpen \<Longrightarrow>
   abs_circuit (close_empty_row e) = breaker_set_probe None (abs_circuit e)"
  by (auto simp: abs_circuit_def close_empty_row_def circuit_ok_def)

text \<open>Where a statement's \<open>WHERE\<close> clause does not select the row, the breaker's transition
  is the identity.\<close>

lemma abs_success_else: "circuit_ok e \<Longrightarrow> \<not> circuit_accepts (er_id e) e \<Longrightarrow> breaker_success (abs_circuit e) = abs_circuit e"
  by (cases "er_circuit_state e") (auto simp: abs_circuit_def circuit_accepts_def)

lemma abs_transient_else:
  "circuit_ok e \<Longrightarrow> \<not> circuit_accepts (er_id e) e \<Longrightarrow> breaker_transient cfg now (abs_circuit e) = abs_circuit e"
  by (cases "er_circuit_state e") (auto simp: abs_circuit_def circuit_accepts_def)

lemma abs_probe_failed_else:
  "er_circuit_state e \<noteq> CircuitHalfOpen \<Longrightarrow> breaker_probe_permanent cfg now (abs_circuit e) = abs_circuit e"
  by (cases "er_circuit_state e") (auto simp: abs_circuit_def)

lemma abs_expired_else:
  "circuit_ok e \<Longrightarrow> \<not> suspension_expired now e \<Longrightarrow> breaker_expire now w (abs_circuit e) = abs_circuit e"
  by (cases "er_circuit_state e") (auto simp: abs_circuit_def suspension_expired_def circuit_ok_def)

lemma abs_set_probe_else:
  "er_circuit_state e \<noteq> CircuitHalfOpen \<Longrightarrow> breaker_set_probe q (abs_circuit e) = abs_circuit e"
  by (cases "er_circuit_state e"; cases q) (auto simp: abs_circuit_def)

subsection \<open>The statements keep the invariant\<close>

lemma circuit_ok_success: "circuit_ok e \<Longrightarrow> circuit_accepts i e \<Longrightarrow> circuit_ok (success_row e)"
  by (auto simp: circuit_ok_def success_row_def)

lemma circuit_ok_transient: "circuit_ok e \<Longrightarrow> circuit_accepts i e \<Longrightarrow> circuit_ok (transient_row cfg now e)"
  by (auto simp: circuit_ok_def transient_row_def circuit_accepts_def failure_opens_def)

lemma circuit_ok_probe_failed:
  "circuit_ok e \<Longrightarrow> er_circuit_state e = CircuitHalfOpen \<Longrightarrow> circuit_ok (probe_failed_row cfg now e)"
  by (auto simp: circuit_ok_def probe_failed_row_def)

lemma circuit_ok_expired: "circuit_ok e \<Longrightarrow> suspension_expired now e \<Longrightarrow> circuit_ok (expired_row s e)"
  by (auto simp: circuit_ok_def expired_row_def suspension_expired_def)

lemma circuit_ok_set_probe: "circuit_ok e \<Longrightarrow> half_open_at i e \<Longrightarrow> circuit_ok (e\<lparr>er_probe_delivery_id := Some d\<rparr>)"
  by (auto simp: circuit_ok_def half_open_at_def)

lemma circuit_ok_close_empty: "circuit_ok e \<Longrightarrow> half_open_at i e \<Longrightarrow> circuit_ok (close_empty_row e)"
  by (auto simp: circuit_ok_def half_open_at_def close_empty_row_def)

lemmas circuit_ok_rows = circuit_ok_success circuit_ok_transient circuit_ok_probe_failed
  circuit_ok_expired circuit_ok_set_probe circuit_ok_close_empty

lemma keeps_endpoint_keys_rows [simp]:
  "keeps_endpoint_keys success_row" "keeps_endpoint_keys (transient_row cfg now)"
  "keeps_endpoint_keys (probe_failed_row cfg now)" "keeps_endpoint_keys (expired_row s)"
  "keeps_endpoint_keys close_empty_row" "keeps_endpoint_keys (er_probe_delivery_id_update g)"
  by (simp_all add: keeps_endpoint_keys_def circuit_rows)

lemma HandleSuccess_preserves [preserves_intros]: "preserves db_ok (CircuitStore_HandleSuccess i)"
  unfolding CircuitStore_HandleSuccess_def
  by (intro preserves_intros preserves_update_endpoints) (auto intro: circuit_ok_rows)

lemma HandleTransientFailure_preserves [preserves_intros]:
  "preserves db_ok (CircuitStore_HandleTransientFailure i cfg)"
  unfolding CircuitStore_HandleTransientFailure_def
  by (intro preserves_intros preserves_update_endpoints)
    (auto intro: circuit_ok_rows)

lemma HandleProbePermanentFailure_preserves [preserves_intros]:
  "preserves db_ok (CircuitStore_HandleProbePermanentFailure i cfg)"
  unfolding CircuitStore_HandleProbePermanentFailure_def
  by (intro preserves_intros preserves_update_endpoints)
    (auto intro: circuit_ok_rows)

lemma ProcessExpiredSuspensions_preserves [preserves_intros]:
  "preserves db_ok CircuitStore_ProcessExpiredSuspensions"
  unfolding CircuitStore_ProcessExpiredSuspensions_def Let_def
  by (intro preserves_intros preserves_update_endpoints)
    (auto intro: circuit_ok_rows)

lemma keeps_delivery_keys_next [simp]: "keeps_delivery_keys (dr_next_attempt_at_update g)"
  by (simp add: keeps_delivery_keys_def)

lemma SetProbeDelivery_preserves [preserves_intros]: "preserves db_ok (CircuitStore_SetProbeDelivery i)"
  unfolding CircuitStore_SetProbeDelivery_def
  by (intro preserves_intros preserves_update_endpoints
      preserves_update_deliveries)
    (auto intro: circuit_ok_rows simp: lease_row_ok_def)

lemma OrphanedHalfOpenEndpoints_preserves [preserves_intros]:
  "preserves db_ok CircuitStore_OrphanedHalfOpenEndpoints"
  unfolding CircuitStore_OrphanedHalfOpenEndpoints_def by (intro preserves_intros)

lemma GetState_preserves [preserves_intros]: "preserves db_ok (CircuitStore_GetState i)"
  unfolding CircuitStore_GetState_def by (intro preserves_intros)

section \<open>What the statements do to the breakers\<close>

lemma breaker_of_upd:
  assumes "keeps_endpoint_keys f"
  shows "breaker_of (s\<lparr>endpoints := upd_where p f (endpoints s)\<rparr>) j =
    map_option (\<lambda>e. abs_circuit (if p e then f e else e)) (row_by er_id j (endpoints s))"
proof -
  have "row_by er_id j (upd_where p f (endpoints s)) =
      map_option (\<lambda>e. if p e then f e else e) (row_by er_id j (endpoints s))"
    using assms by (intro row_by_upd_where) (simp add: keeps_endpoint_keys_def)
  then show ?thesis by (simp add: breaker_of_def option.map_comp o_def)
qed

text \<open>A statement whose \<open>WHERE\<close> clause fixes the endpoint and whose rows refine a breaker
  transition \<open>g\<close> applies \<open>g\<close> to that endpoint and nothing else.\<close>

lemma breaker_of_transition:
  assumes ok: "db_ok s" and keys: "keeps_endpoint_keys f"
    and sel: "\<And>e. p e \<Longrightarrow> er_id e = i"
    and ref: "\<And>e. circuit_ok e \<Longrightarrow> p e \<Longrightarrow> abs_circuit (f e) = g (abs_circuit e)"
    and els: "\<And>e. circuit_ok e \<Longrightarrow> er_id e = i \<Longrightarrow> \<not> p e \<Longrightarrow> g (abs_circuit e) = abs_circuit e"
  shows "breaker_of (s\<lparr>endpoints := upd_where p f (endpoints s)\<rparr>) =
    (breaker_of s)(i := map_option g (breaker_of s i))"
proof
  fix j
  have circ: "circuit_ok e" if "row_by er_id j (endpoints s) = Some e" for e
    using that ok row_by_SomeD by (fastforce simp: db_ok_def consistent_def)
  have key: "er_id e = j" if "row_by er_id j (endpoints s) = Some e" for e
    using that row_by_SomeD by fastforce
  show "breaker_of (s\<lparr>endpoints := upd_where p f (endpoints s)\<rparr>) j =
      ((breaker_of s)(i := map_option g (breaker_of s i))) j"
  proof (cases "row_by er_id j (endpoints s)")
    case None
    then show ?thesis unfolding breaker_of_upd [OF keys] by (auto simp: breaker_of_def)
  next
    case (Some e)
    with circ key have e: "circuit_ok e" "er_id e = j" by auto
    show ?thesis
    proof (cases "p e")
      case True
      with sel e have "j = i" by blast
      with True Some e ref show ?thesis
        unfolding breaker_of_upd [OF keys] by (simp add: breaker_of_def)
    next
      case False
      with Some e els show ?thesis
        unfolding breaker_of_upd [OF keys] by (auto simp: breaker_of_def)
    qed
  qed
qed

lemma HandleSuccess_eq:
  assumes "schema_ok s" and "faults s = []"
  shows "CircuitStore_HandleSuccess i s =
    (Inr (), s\<lparr>endpoints := upd_where (circuit_accepts i) success_row (endpoints s)\<rparr>)"
  unfolding CircuitStore_HandleSuccess_def
  by (subst bindP_Inr) (use assms in \<open>auto simp: update_endpoints_ok success_row_def\<close>)

lemma HandleTransientFailure_eq:
  assumes "schema_ok s" and "faults s = []"
  shows "CircuitStore_HandleTransientFailure i cfg s =
    (Inr (), s\<lparr>endpoints := upd_where (circuit_accepts i) (transient_row cfg (now_ts s)) (endpoints s)\<rparr>)"
  unfolding CircuitStore_HandleTransientFailure_def
  by (subst bindP_Inr) (use assms in \<open>auto simp: update_endpoints_ok transient_row_def\<close>)

lemma HandleProbePermanentFailure_eq:
  assumes "schema_ok s" and "faults s = []"
  shows "CircuitStore_HandleProbePermanentFailure i cfg s =
    (Inr (), s\<lparr>endpoints := upd_where (half_open_at i) (probe_failed_row cfg (now_ts s)) (endpoints s)\<rparr>)"
  unfolding CircuitStore_HandleProbePermanentFailure_def half_open_at_def
  by (subst bindP_Inr) (use assms in \<open>auto simp: update_endpoints_ok probe_failed_row_def\<close>)

lemmas handler_eqs = HandleSuccess_eq HandleTransientFailure_eq HandleProbePermanentFailure_eq

lemma db_ok_schema: "db_ok s \<Longrightarrow> schema_ok s"
  by (simp add: db_ok_def)

lemma HandleTransientFailure_breaker:
  assumes "db_ok s" and "faults s = []"
  shows "breaker_of (snd (CircuitStore_HandleTransientFailure i cfg s)) =
    (breaker_of s)(i := map_option (breaker_transient cfg (now_ts s)) (breaker_of s i))"
proof -
  have "breaker_of (s\<lparr>endpoints := upd_where (circuit_accepts i) (transient_row cfg (now_ts s)) (endpoints s)\<rparr>) =
      (breaker_of s)(i := map_option (breaker_transient cfg (now_ts s)) (breaker_of s i))"
    using assms(1)
    by (rule breaker_of_transition)
      (auto simp: circuit_accepts_def intro: abs_transient abs_transient_else)
  then show ?thesis using assms by (simp add: HandleTransientFailure_eq db_ok_schema)
qed

lemma HandleSuccess_breaker:
  assumes "db_ok s" and "faults s = []"
  shows "breaker_of (snd (CircuitStore_HandleSuccess i s)) =
    (breaker_of s)(i := map_option breaker_success (breaker_of s i))"
proof -
  have "breaker_of (s\<lparr>endpoints := upd_where (circuit_accepts i) success_row (endpoints s)\<rparr>) =
      (breaker_of s)(i := map_option breaker_success (breaker_of s i))"
    using assms(1)
    by (rule breaker_of_transition)
      (auto simp: circuit_accepts_def intro: abs_success abs_success_else)
  then show ?thesis using assms by (simp add: HandleSuccess_eq db_ok_schema)
qed

lemma HandleProbePermanentFailure_breaker:
  assumes "db_ok s" and "faults s = []"
  shows "breaker_of (snd (CircuitStore_HandleProbePermanentFailure i cfg s)) =
    (breaker_of s)(i := map_option (breaker_probe_permanent cfg (now_ts s)) (breaker_of s i))"
proof -
  have "breaker_of (s\<lparr>endpoints := upd_where (half_open_at i) (probe_failed_row cfg (now_ts s)) (endpoints s)\<rparr>) =
      (breaker_of s)(i := map_option (breaker_probe_permanent cfg (now_ts s)) (breaker_of s i))"
    using assms(1)
    by (rule breaker_of_transition)
      (auto simp: half_open_at_def intro: abs_probe_failed abs_probe_failed_else)
  then show ?thesis using assms by (simp add: HandleProbePermanentFailure_eq db_ok_schema)
qed

lemmas handler_breakers =
  HandleSuccess_breaker HandleTransientFailure_breaker HandleProbePermanentFailure_breaker

section \<open>The contract of a failure counting breaker\<close>

text \<open>What the worker and the operator rely on, whatever represents the breaker: failures
  below the threshold only count, the threshold or a trial opens, an open breaker ignores
  outcomes.\<close>

locale failure_breaker =
  fixes transient :: "instant \<Rightarrow> 'b \<Rightarrow> 'b"
    and success :: "'b \<Rightarrow> 'b"
    and is_open :: "'b \<Rightarrow> bool"
    and on_trial :: "'b \<Rightarrow> bool"
    and failures :: "'b \<Rightarrow> int"
    and threshold :: int
  assumes below: "\<not> is_open b \<Longrightarrow> \<not> on_trial b \<Longrightarrow> failures b + 1 < threshold \<Longrightarrow>
      \<not> is_open (transient t b) \<and> \<not> on_trial (transient t b) \<and> failures (transient t b) = failures b + 1"
    and reaches: "\<not> is_open b \<Longrightarrow> on_trial b \<or> threshold \<le> failures b + 1 \<Longrightarrow> is_open (transient t b)"
    and absorbs: "is_open b \<Longrightarrow> transient t b = b \<and> success b = b"
    and resets: "\<not> is_open b \<Longrightarrow> \<not> is_open (success b) \<and> failures (success b) = 0"
begin

lemma open_run: "is_open b \<Longrightarrow> fold transient ts b = b"
  by (induction ts) (simp_all add: absorbs)

lemma closed_run:
  assumes "\<not> is_open b" and "\<not> on_trial b" and "failures b + int (length ts) < threshold"
  shows "\<not> is_open (fold transient ts b) \<and> \<not> on_trial (fold transient ts b) \<and>
    failures (fold transient ts b) = failures b + int (length ts)"
  using assms
proof (induction ts arbitrary: b)
  case (Cons t ts)
  have "\<not> is_open (transient t b) \<and> \<not> on_trial (transient t b) \<and>
      failures (transient t b) = failures b + 1"
    using Cons.prems by (intro below) auto
  with Cons.IH [of "transient t b"] Cons.prems show ?case by simp
qed simp

lemma opening_run:
  assumes "\<not> is_open b" and "ts \<noteq> []" and "on_trial b \<or> threshold \<le> failures b + int (length ts)"
  shows "is_open (fold transient ts b)"
  using assms
proof (induction ts arbitrary: b)
  case (Cons t ts)
  show ?case
  proof (cases "on_trial b \<or> threshold \<le> failures b + 1")
    case True
    with Cons.prems have "is_open (transient t b)" by (intro reaches) auto
    then show ?thesis by (simp add: open_run)
  next
    case False
    then have step: "\<not> is_open (transient t b) \<and> \<not> on_trial (transient t b) \<and>
        failures (transient t b) = failures b + 1"
      using Cons.prems(1) by (intro below) auto
    moreover from False Cons.prems have "ts \<noteq> []" by auto
    ultimately show ?thesis using Cons.IH [of "transient t b"] Cons.prems False by auto
  qed
qed simp

text \<open>The circuit opens at the threshold and not before.\<close>

lemma opens_iff:
  assumes "\<not> is_open b" and "\<not> on_trial b" and "ts \<noteq> []"
  shows "is_open (fold transient ts b) \<longleftrightarrow> threshold \<le> failures b + int (length ts)"
  using closed_run [of b ts] opening_run [of b ts] assms by force

lemma trial_run: "\<not> is_open b \<Longrightarrow> on_trial b \<Longrightarrow> ts \<noteq> [] \<Longrightarrow> is_open (fold transient ts b)"
  by (rule opening_run) auto

end

fun breaker_is_open :: "breaker \<Rightarrow> bool" where
  "breaker_is_open (Open n u) = True"
| "breaker_is_open b = False"

fun breaker_on_trial :: "breaker \<Rightarrow> bool" where
  "breaker_on_trial (Closed n sens) = sens"
| "breaker_on_trial (HalfOpen n p) = True"
| "breaker_on_trial (Open n u) = False"

fun breaker_failures :: "breaker \<Rightarrow> int" where
  "breaker_failures (Closed n sens) = n"
| "breaker_failures (Open n u) = n"
| "breaker_failures (HalfOpen n p) = n"

interpretation spec_breaker: failure_breaker "breaker_transient cfg" breaker_success
    breaker_is_open breaker_on_trial breaker_failures "Threshold cfg" for cfg
proof
  fix b :: breaker and t
  show "\<not> breaker_is_open b \<Longrightarrow> \<not> breaker_on_trial b \<Longrightarrow> breaker_failures b + 1 < Threshold cfg \<Longrightarrow>
      \<not> breaker_is_open (breaker_transient cfg t b) \<and> \<not> breaker_on_trial (breaker_transient cfg t b) \<and>
      breaker_failures (breaker_transient cfg t b) = breaker_failures b + 1"
    by (cases b) auto
  show "\<not> breaker_is_open b \<Longrightarrow> breaker_on_trial b \<or> Threshold cfg \<le> breaker_failures b + 1 \<Longrightarrow>
      breaker_is_open (breaker_transient cfg t b)"
    by (cases b) auto
  show "breaker_is_open b \<Longrightarrow> breaker_transient cfg t b = b \<and> breaker_success b = b"
    by (cases b) auto
  show "\<not> breaker_is_open b \<Longrightarrow> \<not> breaker_is_open (breaker_success b) \<and> breaker_failures (breaker_success b) = 0"
    by (cases b) auto
qed

text \<open>The columns themselves meet the contract too: a row with the statement's \<open>WHERE\<close>.\<close>

definition transient_step :: "CircuitConfig \<Rightarrow> instant \<Rightarrow> endpoint_row \<Rightarrow> endpoint_row" where
  "transient_step cfg now e = (if circuit_accepts (er_id e) e then transient_row cfg now e else e)"

definition success_step :: "endpoint_row \<Rightarrow> endpoint_row" where
  "success_step e = (if circuit_accepts (er_id e) e then success_row e else e)"

interpretation row_breaker: failure_breaker "transient_step cfg" success_step
    "\<lambda>e. er_circuit_state e = CircuitOpen"
    "\<lambda>e. er_circuit_state e = CircuitHalfOpen \<or> er_sensitive_recovery e"
    er_failure_count "Threshold cfg" for cfg
proof
  fix e :: endpoint_row and t
  have closed_or: "er_circuit_state e = CircuitClosed \<or> er_circuit_state e = CircuitHalfOpen"
    if "er_circuit_state e \<noteq> CircuitOpen"
    using that by (cases "er_circuit_state e") auto
  note defs = transient_step_def success_step_def transient_row_def success_row_def
    circuit_accepts_def failure_opens_def
  show "er_circuit_state e \<noteq> CircuitOpen \<Longrightarrow>
      \<not> (er_circuit_state e = CircuitHalfOpen \<or> er_sensitive_recovery e) \<Longrightarrow>
      er_failure_count e + 1 < Threshold cfg \<Longrightarrow>
      er_circuit_state (transient_step cfg t e) \<noteq> CircuitOpen \<and>
      \<not> (er_circuit_state (transient_step cfg t e) = CircuitHalfOpen \<or>
          er_sensitive_recovery (transient_step cfg t e)) \<and>
      er_failure_count (transient_step cfg t e) = er_failure_count e + 1"
    using closed_or by (auto simp: defs)
  show "er_circuit_state e \<noteq> CircuitOpen \<Longrightarrow>
      (er_circuit_state e = CircuitHalfOpen \<or> er_sensitive_recovery e) \<or>
      Threshold cfg \<le> er_failure_count e + 1 \<Longrightarrow>
      er_circuit_state (transient_step cfg t e) = CircuitOpen"
    using closed_or by (auto simp: defs)
  show "er_circuit_state e = CircuitOpen \<Longrightarrow> transient_step cfg t e = e \<and> success_step e = e"
    by (auto simp: defs)
  show "er_circuit_state e \<noteq> CircuitOpen \<Longrightarrow>
      er_circuit_state (success_step e) \<noteq> CircuitOpen \<and> er_failure_count (success_step e) = 0"
    using closed_or by (auto simp: defs)
qed

section \<open>Properties\<close>



text \<open>Failures reported one after the other, each at its instant.\<close>

definition report_failures :: "uuid \<Rightarrow> CircuitConfig \<Rightarrow> instant list \<Rightarrow> db \<Rightarrow> db" where
  "report_failures i cfg ts s =
     fold (\<lambda>t s. snd (CircuitStore_HandleTransientFailure i cfg (s\<lparr>now_ts := t\<rparr>))) ts s"

lemma breaker_of_clock [simp]: "breaker_of (s\<lparr>now_ts := t\<rparr>) = breaker_of s"
  by (simp add: breaker_of_def fun_eq_iff)

lemma report_failures_breaker:
  "db_ok s \<Longrightarrow> faults s = [] \<Longrightarrow>
   breaker_of (report_failures i cfg ts s) i = map_option (fold (breaker_transient cfg) ts) (breaker_of s i)"
proof (induction ts arbitrary: s)
  case (Cons t ts)
  let ?s1 = "snd (CircuitStore_HandleTransientFailure i cfg (s\<lparr>now_ts := t\<rparr>))"
  have ok: "db_ok (s\<lparr>now_ts := t\<rparr>)" "faults (s\<lparr>now_ts := t\<rparr>) = []" using Cons.prems by simp_all
  have "db_ok ?s1" using preservesD [OF HandleTransientFailure_preserves ok(1)] .
  moreover have "faults ?s1 = []"
    using HandleTransientFailure_eq [OF db_ok_schema [OF ok(1)] ok(2), of i cfg] ok(2) by simp
  ultimately have "breaker_of (report_failures i cfg ts ?s1) i = map_option (fold (breaker_transient cfg) ts) (breaker_of ?s1 i)"
    by (rule Cons.IH)
  then show ?case
    using HandleTransientFailure_breaker [OF ok, of i cfg]
    by (simp add: report_failures_def option.map_comp comp_def)
qed (simp add: report_failures_def option.map_id id_def [symmetric])

text \<open>A closed circuit with a clean record opens at its threshold of consecutive transient
  failures and not before, whenever they come, and then stays open however many more
  follow.\<close>

theorem circuit_opens_at_threshold:
  assumes "db_ok s" and "faults s = []" and "breaker_of s i = Some (Closed 0 False)" and "ts \<noteq> []"
  shows "\<exists>b. breaker_of (report_failures i cfg ts s) i = Some b \<and>
    (breaker_is_open b \<longleftrightarrow> Threshold cfg \<le> int (length ts))"
  using report_failures_breaker [OF assms(1,2), of i cfg ts]
    spec_breaker.opens_iff [of "Closed 0 False" ts cfg] assms(3,4)
  by simp

theorem circuit_opens_at_threshold_witness:
  "\<exists>b. breaker_of (report_failures 10 Circuit_defaults [1, 2, 3, 4, 5] sample_db) 10 = Some b \<and> breaker_is_open b"
  using circuit_opens_at_threshold [OF sample_db_ok sample_faults, of 10 "[1, 2, 3, 4, 5]" Circuit_defaults]
  by (simp add: breaker_of_def abs_circuit_def sample_defs Circuit_defaults_def)

text \<open>Sensitive recovery: when the probe of a half open circuit succeeds the circuit closes,
  and the very next transient failure opens it again, whatever the threshold.\<close>

theorem probation_after_recovery:
  assumes "db_ok s" and "faults s = []" and "breaker_of s i = Some (HalfOpen n p)"
  shows "let s1 = snd (CircuitStore_HandleSuccess i s); s2 = snd (CircuitStore_HandleTransientFailure i cfg s1) in
    breaker_of s1 i = Some (Closed 0 True) \<and>
    breaker_of s2 i = Some (Open 1 (now_ts s1 + SuspensionSeconds cfg * second))"
proof -
  let ?s1 = "snd (CircuitStore_HandleSuccess i s)"
  have b1: "breaker_of ?s1 i = Some (Closed 0 True)"
    using HandleSuccess_breaker [OF assms(1,2), of i] assms(3) by simp
  have "db_ok ?s1" using preservesD [OF HandleSuccess_preserves assms(1)] .
  moreover have "faults ?s1 = []"
    using HandleSuccess_eq [OF db_ok_schema [OF assms(1)] assms(2), of i] assms(2) by simp
  ultimately have "breaker_of (snd (CircuitStore_HandleTransientFailure i cfg ?s1)) i =
      Some (Open 1 (now_ts ?s1 + SuspensionSeconds cfg * second))"
    using HandleTransientFailure_breaker [of ?s1 i cfg] b1 by simp
  with b1 show ?thesis by (simp add: Let_def)
qed

theorem probation_after_recovery_witness:
  "breaker_of (snd (CircuitStore_HandleSuccess 10 (sample_db\<lparr>endpoints := [sample_endpoint\<lparr>er_circuit_state := CircuitHalfOpen\<rparr>]\<rparr>))) 10 =
    Some (Closed 0 True)"
proof -
  let ?s = "sample_db\<lparr>endpoints := [sample_endpoint\<lparr>er_circuit_state := CircuitHalfOpen\<rparr>]\<rparr>"
  have "db_ok ?s"
    by (simp add: db_ok_defs sample_defs replay_index_ok_def active_replay_def lease_row_ok_def
        delivery_linked_def circuit_ok_def)
  moreover have "breaker_of ?s 10 = Some (HalfOpen 0 None)"
    by (simp add: breaker_of_def abs_circuit_def sample_defs)
  ultimately show ?thesis
    using probation_after_recovery [of ?s 10 0 None Circuit_defaults] by (simp add: Let_def)
qed

end
