(* ===== verification/API.thy ===== *)
theory API
  imports Event_Service DLQ_Service Circuit_Store
begin

text \<open>
  The package \<open>internal/api\<close>: the data transfer objects (\<open>dto.go\<close>), the handlers
  (\<open>handlers_*.go\<close>), the middlewares (\<open>middleware.go\<close>).

  A handler takes what it reads of the request and a state and gives the response it writes.
  Its service is a record or a function argument, as its Go interface.  \<open>parse_id\<close>
  stands for \<open>uuid.Parse\<close>, the \<open>decode\<close> arguments for \<open>encoding/json\<close> on the request
  type (\<open>None\<close>: the decoder's error).
\<close>

section \<open>Data transfer objects\<close>

record TenantResponse =
  tq_ID :: uuid
  tq_Name :: "string option"
  tq_CreatedAt :: instant

record EndpointRequest =
  eq_URL :: string
  eq_TenantID :: "uuid option"

record EndpointResponse =
  eo_ID :: uuid
  eo_URL :: string
  eo_TenantID :: uuid
  eo_CreatedAt :: instant

record EndpointCreatedResponse = EndpointResponse +
  eo_SigningSecret :: string

record EventRequest =
  vq_EndpointID :: uuid
  vq_TenantID :: "uuid option"
  vq_Payload :: "bytes option"

record AttemptResponse =
  ao_Sequence :: int
  ao_StartedAt :: instant
  ao_CompletedAt :: "instant option"
  ao_Outcome :: string
  ao_ResponseStatusCode :: "int option"
  ao_ErrorReason :: "string option"

record DeliveryResponse =
  do_ID :: uuid
  do_EndpointID :: uuid
  do_EventID :: uuid
  do_Status :: string
  do_AttemptCount :: int
  do_NextAttemptAt :: "instant option"
  do_CreatedAt :: instant
  do_UpdatedAt :: instant
  do_Attempts :: "AttemptResponse list"

record DLQItemResponse =
  io_DeliveryID :: uuid
  io_EventID :: uuid
  io_EndpointID :: uuid
  io_TenantID :: uuid
  io_AttemptCount :: int
  io_FailedAt :: instant

record DLQDetailResponse = DLQItemResponse +
  io_Attempts :: "AttemptResponse list"

record BulkReplayRequest =
  bq_TenantID :: "uuid option"
  bq_EndpointID :: "uuid option"

record CircuitBreakerResponse =
  co_EndpointID :: uuid
  co_State :: string
  co_ConsecutiveFailures :: int
  co_SuspendedUntil :: "instant option"

text \<open>The text of an error response: none, a constant, or the text of an error.\<close>

datatype detail = NoDetail | Detail string | DetailOf err

datatype body =
    ErrorResponse string detail
  | PlainText string
  | TenantBody TenantResponse
  | EndpointBody EndpointResponse
  | EndpointCreatedBody EndpointCreatedResponse
  | RotateSecretBody string
  | EventAcceptedBody uuid uuid
  | DeliveryBody DeliveryResponse
  | DLQListBody "DLQItemResponse list" Pagination
  | DLQDetailBody DLQDetailResponse
  | ReplayBody uuid string
  | BulkReplayBody int
  | CircuitBody CircuitBreakerResponse

record response =
  rs_Status :: int
  rs_Body :: body

definition writeJSON :: "int \<Rightarrow> body \<Rightarrow> response" where
  "writeJSON status b = \<lparr>rs_Status = status, rs_Body = b\<rparr>"

definition writeError :: "int \<Rightarrow> string \<Rightarrow> detail \<Rightarrow> response" where
  "writeError status code det = writeJSON status (ErrorResponse code det)"

definition NewTenantResponse :: "Tenant \<Rightarrow> TenantResponse" where
  "NewTenantResponse t = \<lparr>tq_ID = tn_ID t, tq_Name = tn_Name t, tq_CreatedAt = tn_CreatedAt t\<rparr>"

definition NewEndpointResponse :: "Endpoint \<Rightarrow> EndpointResponse" where
  "NewEndpointResponse e = \<lparr>eo_ID = ep_ID e, eo_URL = ep_URL e, eo_TenantID = ep_TenantID e,
     eo_CreatedAt = ep_CreatedAt e\<rparr>"

definition attempt_response :: "Attempt \<Rightarrow> AttemptResponse" where
  "attempt_response a = \<lparr>ao_Sequence = a_Sequence a, ao_StartedAt = a_StartedAt a, ao_CompletedAt = a_CompletedAt a,
     ao_Outcome = outcome_text (a_Outcome a), ao_ResponseStatusCode = a_ResponseStatusCode a,
     ao_ErrorReason = a_ErrorReason a\<rparr>"

definition NewDeliveryResponse :: "Delivery \<Rightarrow> Attempt list \<Rightarrow> DeliveryResponse" where
  "NewDeliveryResponse d as = \<lparr>do_ID = d_ID d, do_EndpointID = d_EndpointID d, do_EventID = d_EventID d,
     do_Status = status_text (d_Status d), do_AttemptCount = d_AttemptCount d,
     do_NextAttemptAt = (if d_Status d = StatusScheduled then Some (d_NextAttemptAt d) else None),
     do_CreatedAt = d_CreatedAt d, do_UpdatedAt = d_UpdatedAt d, do_Attempts = map attempt_response as\<rparr>"

section \<open>Handlers\<close>

text \<open>A handler ends by writing one response, whatever its service returned.\<close>

definition respond ::
  "('e, 's, 'a) prog \<Rightarrow> ('e \<Rightarrow> response) \<Rightarrow> ('a \<Rightarrow> response) \<Rightarrow> 's \<Rightarrow> response \<times> 's" where
  "respond m on_err on_ok s = (case m s of (Inl e, s') \<Rightarrow> (on_err e, s') | (Inr x, s') \<Rightarrow> (on_ok x, s'))"

definition internal_error :: response where
  "internal_error = writeError 500 ''internal_error'' NoDetail"

definition unexpected_error :: response where
  "unexpected_error = writeError 500 ''internal_error'' (Detail ''unexpected error'')"

subsection \<open>Tenants\<close>

text \<open>The category \<open>Cc\<close> is U+0000 to U+001F and U+007F to U+009F.\<close>

definition is_control :: "nat \<Rightarrow> bool" where
  "is_control r \<longleftrightarrow> r < 32 \<or> (127 \<le> r \<and> r < 160)"

definition validateTenantName :: "string \<Rightarrow> string option" where
  "validateTenantName name =
     (if length name = 0 then Some ''name must not be empty''
      else if length (runes name) > 255 then Some ''name must not exceed 255 characters''
      else if list_ex is_control (runes name) then Some ''name must not contain control characters (Unicode Cc)''
      else None)"

definition tenant_Create ::
  "(bytes \<Rightarrow> string option option) \<Rightarrow> 's TenantService \<Rightarrow> bytes \<Rightarrow> 's \<Rightarrow> response \<times> 's" where
  "tenant_Create decode svc bod s =
     (case decode bod of
        None \<Rightarrow> (writeError 400 ''bad_request'' (Detail ''malformed JSON body''), s)
      | Some name \<Rightarrow>
          (case (case name of None \<Rightarrow> None | Some n \<Rightarrow> validateTenantName n) of
             Some msg \<Rightarrow> (writeError 400 ''invalid_name'' (Detail msg), s)
           | None \<Rightarrow> respond (TenantService_Create svc name) (\<lambda>_. internal_error)
               (\<lambda>t. writeJSON 201 (TenantBody (NewTenantResponse t))) s))"

definition tenant_GetByID ::
  "(string \<Rightarrow> uuid option) \<Rightarrow> 's TenantService \<Rightarrow> string \<Rightarrow> 's \<Rightarrow> response \<times> 's" where
  "tenant_GetByID parse_id svc rawID s =
     (case parse_id rawID of
        None \<Rightarrow> (writeError 400 ''invalid_tenant_id'' NoDetail, s)
      | Some i \<Rightarrow> respond (TenantService_GetByID svc i)
          (\<lambda>e. if errors_is e ErrNotFound then writeError 404 ''tenant_not_found'' NoDetail else internal_error)
          (\<lambda>t. writeJSON 200 (TenantBody (NewTenantResponse t))) s)"

subsection \<open>Endpoints\<close>

definition endpoint_Create ::
  "(bytes \<Rightarrow> EndpointRequest option) \<Rightarrow> (string \<Rightarrow> string + parsed_url) \<Rightarrow> (nat \<Rightarrow> err + bytes) \<Rightarrow>
   's EndpointService \<Rightarrow> bytes \<Rightarrow> 's \<Rightarrow> response \<times> 's" where
  "endpoint_Create decode parse rand_read svc bod s =
     (case decode bod of
        None \<Rightarrow> (writeError 400 ''bad_request'' (Detail ''malformed JSON body''), s)
      | Some req \<Rightarrow>
          (case eq_TenantID req of
             None \<Rightarrow> (writeError 400 ''missing_tenant_id'' NoDetail, s)
           | Some t \<Rightarrow> respond (EndpointService_Register parse rand_read svc (eq_URL req) t)
               (\<lambda>e. if errors_is e ErrInvalidURL then writeError 400 ''invalid_url'' (DetailOf e)
                    else if errors_is e ErrTenantNotFound then writeError 422 ''tenant_not_found'' NoDetail
                    else internal_error)
               (\<lambda>e. writeJSON 201 (EndpointCreatedBody \<lparr>eo_ID = ep_ID e, eo_URL = ep_URL e,
                  eo_TenantID = ep_TenantID e, eo_CreatedAt = ep_CreatedAt e,
                  eo_SigningSecret = hex_encode (case ep_SigningSecret e of None \<Rightarrow> [] | Some k \<Rightarrow> k)\<rparr>)) s))"

definition endpoint_RotateSecret ::
  "(string \<Rightarrow> uuid option) \<Rightarrow> (nat \<Rightarrow> err + bytes) \<Rightarrow> 's EndpointService \<Rightarrow> string \<Rightarrow> 's \<Rightarrow> response \<times> 's" where
  "endpoint_RotateSecret parse_id rand_read svc rawID s =
     (case parse_id rawID of
        None \<Rightarrow> (writeError 400 ''invalid_endpoint_id'' NoDetail, s)
      | Some i \<Rightarrow> respond (EndpointService_RotateSecret rand_read svc i)
          (\<lambda>e. if errors_is e ErrNotFound then writeError 404 ''endpoint_not_found'' NoDetail else internal_error)
          (\<lambda>k. writeJSON 200 (RotateSecretBody (hex_encode k))) s)"

definition endpoint_Get ::
  "(string \<Rightarrow> uuid option) \<Rightarrow> 's EndpointService \<Rightarrow> string \<Rightarrow> 's \<Rightarrow> response \<times> 's" where
  "endpoint_Get parse_id svc rawID s =
     (case parse_id rawID of
        None \<Rightarrow> (writeError 404 ''endpoint_not_found'' NoDetail, s)
      | Some i \<Rightarrow> respond (EndpointService_Get svc i)
          (\<lambda>e. if errors_is e ErrNotFound then writeError 404 ''endpoint_not_found'' NoDetail else internal_error)
          (\<lambda>e. writeJSON 200 (EndpointBody (NewEndpointResponse e))) s)"

subsection \<open>Events\<close>

definition validateIdempotencyKey :: "string \<Rightarrow> string option" where
  "validateIdempotencyKey key =
     (if length key = 0 \<or> length key > 255 then Some ''Idempotency-Key must be 1-255 printable ASCII characters''
      else if list_ex (\<lambda>c. (of_char c :: nat) < 33 \<or> (of_char c :: nat) > 126) key
      then Some ''Idempotency-Key contains invalid character''
      else None)"

text \<open>Reading the body through \<open>MaxBytesReader\<close>: the bytes, an overlong body, or another
  failure.  The header is absent or has a value.\<close>

datatype read_result = Body bytes | TooLarge | ReadFailed

definition max_body :: int where "max_body = 2 ^ 20"

definition read_body :: "bytes option \<Rightarrow> read_result" where
  "read_body incoming =
     (case incoming of None \<Rightarrow> ReadFailed | Some b \<Rightarrow> if int (length b) > max_body then TooLarge else Body b)"

record 's EventMetrics =
  em_Rejected :: "string \<Rightarrow> 's \<Rightarrow> 's"
  em_Submitted :: "uuid \<Rightarrow> 's \<Rightarrow> 's"

definition rejected :: "'s EventMetrics option \<Rightarrow> string \<Rightarrow> 's \<Rightarrow> 's" where
  "rejected m reason s = (case m of None \<Rightarrow> s | Some em \<Rightarrow> em_Rejected em reason s)"

definition submit_failed :: "'s EventMetrics option \<Rightarrow> err \<Rightarrow> 's \<Rightarrow> response \<times> 's" where
  "submit_failed m e s =
     (if errors_is e ErrNotFound
      then (writeError 404 ''endpoint_not_found'' NoDetail, rejected m ''endpoint_not_found'' s)
      else if errors_is e ErrTenantNotFound then (writeError 422 ''tenant_not_found'' NoDetail, s)
      else if errors_is e ErrTenantEndpointMismatch then (writeError 422 ''tenant_endpoint_mismatch'' NoDetail, s)
      else if errors_is e ErrConflict
      then (writeError 409 ''idempotency_conflict'' (Detail ''payload hash differs from original submission''), s)
      else (internal_error, s))"

text \<open>The service is its method \<open>Submit\<close>.  A nil delivery is dereferenced: the handler panics,
  which is \<open>None\<close>.\<close>

definition event_Submit ::
  "(bytes \<Rightarrow> EventRequest option) \<Rightarrow> 's EventMetrics option \<Rightarrow>
   (uuid \<Rightarrow> bytes option \<Rightarrow> string \<Rightarrow> bytes \<Rightarrow> uuid \<Rightarrow> (err, 's, Delivery option) prog) \<Rightarrow>
   bytes option \<Rightarrow> string option \<Rightarrow> 's \<Rightarrow> response option \<times> 's" where
  "event_Submit decode m svc incoming header s =
     (case read_body incoming of
        TooLarge \<Rightarrow> (Some (writeError 413 ''payload_too_large'' (Detail ''request body exceeds 1 MiB'')),
                     rejected m ''payload_too_large'' s)
      | ReadFailed \<Rightarrow> (Some (writeError 400 ''bad_request'' (Detail ''failed to read body'')), s)
      | Body rawBody \<Rightarrow>
          (case decode rawBody of
             None \<Rightarrow> (Some (writeError 400 ''bad_request'' (Detail ''malformed JSON body'')), rejected m ''bad_request'' s)
           | Some req \<Rightarrow>
               (case vq_TenantID req of
                  None \<Rightarrow> (Some (writeError 400 ''missing_tenant_id'' NoDetail), s)
                | Some t \<Rightarrow>
                    (case (case header of None \<Rightarrow> None | Some key \<Rightarrow> validateIdempotencyKey key) of
                       Some msg \<Rightarrow> (Some (writeError 400 ''invalid_idempotency_key'' (Detail msg)), s)
                     | None \<Rightarrow>
                         (case svc (vq_EndpointID req) (vq_Payload req) (case header of None \<Rightarrow> [] | Some key \<Rightarrow> key) rawBody t s of
                            (Inl e, s') \<Rightarrow> (case submit_failed m e s' of (r, s'') \<Rightarrow> (Some r, s''))
                          | (Inr d, s') \<Rightarrow>
                              (let s'' = (case m of None \<Rightarrow> s' | Some em \<Rightarrow> em_Submitted em (vq_EndpointID req) s') in
                               (case d of None \<Rightarrow> None
                                | Some d' \<Rightarrow> Some (writeJSON 202 (EventAcceptedBody (d_ID d') (d_EventID d'))), s'')))))))"

subsection \<open>Deliveries and circuits\<close>

definition delivery_Get ::
  "(string \<Rightarrow> uuid option) \<Rightarrow> (uuid \<Rightarrow> (err, 's, Delivery \<times> Attempt list) prog) \<Rightarrow> string \<Rightarrow> 's \<Rightarrow> response \<times> 's" where
  "delivery_Get parse_id store rawID s =
     (case parse_id rawID of
        None \<Rightarrow> (writeError 404 ''delivery_not_found'' NoDetail, s)
      | Some i \<Rightarrow> respond (DeliveryService_Get store i)
          (\<lambda>e. if errors_is e ErrNotFound then writeError 404 ''delivery_not_found'' NoDetail else internal_error)
          (\<lambda>(d, as). writeJSON 200 (DeliveryBody (NewDeliveryResponse d as))) s)"

definition circuit_GetState ::
  "(string \<Rightarrow> uuid option) \<Rightarrow> (uuid \<Rightarrow> (err, 's, CircuitBreakerInfo) prog) \<Rightarrow> string \<Rightarrow> 's \<Rightarrow> response \<times> 's" where
  "circuit_GetState parse_id store rawID s =
     (case parse_id rawID of
        None \<Rightarrow> (writeError 400 ''invalid_endpoint_id'' NoDetail, s)
      | Some i \<Rightarrow> respond (store i)
          (\<lambda>e. if errors_is e ErrNotFound then writeError 404 ''endpoint_not_found'' NoDetail else internal_error)
          (\<lambda>info. let state = circuit_text (cb_State info) in
             writeJSON 200 (CircuitBody \<lparr>co_EndpointID = i,
               co_State = (if state = ''half_open'' then ''half-open'' else state),
               co_ConsecutiveFailures = cb_ConsecutiveFailures info,
               co_SuspendedUntil = (if cb_State info = CircuitOpen then cb_SuspendedUntil info else None)\<rparr>)) s)"

subsection \<open>Dead letters\<close>

text \<open>A query parameter that is absent or empty, and the two kinds of present ones.\<close>

definition query_id :: "(string \<Rightarrow> uuid option) \<Rightarrow> string \<Rightarrow> response \<Rightarrow> response + uuid option" where
  "query_id parse_id raw bad =
     (if raw \<noteq> [] then (case parse_id raw of None \<Rightarrow> Inl bad | Some i \<Rightarrow> Inr (Some i)) else Inr None)"

definition query_int :: "string \<Rightarrow> int \<Rightarrow> (int \<Rightarrow> bool) \<Rightarrow> response \<Rightarrow> response + int" where
  "query_int raw dflt ok bad =
     (if raw \<noteq> [] then (case Atoi raw of None \<Rightarrow> Inl bad | Some v \<Rightarrow> if ok v then Inr v else Inl bad)
      else Inr dflt)"

definition dlq_item :: "DLQEntry \<Rightarrow> DLQItemResponse" where
  "dlq_item e = \<lparr>io_DeliveryID = q_DeliveryID e, io_EventID = q_EventID e, io_EndpointID = q_EndpointID e,
     io_TenantID = q_TenantID e, io_AttemptCount = q_AttemptCount e, io_FailedAt = q_FailedAt e\<rparr>"

record dlq_query =
  gq_TenantID :: string
  gq_EndpointID :: string
  gq_Page :: string
  gq_Limit :: string

definition dlq_params :: "(string \<Rightarrow> uuid option) \<Rightarrow> dlq_query \<Rightarrow> response + DLQFilter \<times> int \<times> int" where
  "dlq_params parse_id q =
     (case query_id parse_id (gq_TenantID q)
             (writeError 400 ''invalid_tenant_id'' (Detail ''tenant_id must be a valid UUID'')) of
        Inl r \<Rightarrow> Inl r | Inr t \<Rightarrow>
      (case query_id parse_id (gq_EndpointID q)
             (writeError 400 ''invalid_endpoint_id'' (Detail ''endpoint_id must be a valid UUID'')) of
        Inl r \<Rightarrow> Inl r | Inr e \<Rightarrow>
      (case query_int (gq_Page q) 1 (\<lambda>v. \<not> v < 1)
             (writeError 400 ''invalid_page'' (Detail ''page must be an integer >= 1'')) of
        Inl r \<Rightarrow> Inl r | Inr page \<Rightarrow>
      (case query_int (gq_Limit q) 20 (\<lambda>v. \<not> (v < 1 \<or> v > 100))
             (writeError 400 ''invalid_limit'' (Detail ''limit must be an integer between 1 and 100'')) of
        Inl r \<Rightarrow> Inl r | Inr limit \<Rightarrow> Inr (\<lparr>f_TenantID = t, f_EndpointID = e\<rparr>, page, limit)))))"

definition dlq_List :: "(string \<Rightarrow> uuid option) \<Rightarrow> 's dlqService \<Rightarrow> dlq_query \<Rightarrow> 's \<Rightarrow> response \<times> 's" where
  "dlq_List parse_id svc q s =
     (case dlq_params parse_id q of
        Inl r \<Rightarrow> (r, s)
      | Inr (filt, page, limit) \<Rightarrow> respond (dlqService_List svc filt page limit)
          (\<lambda>e. if errors_is e ErrNotFound then writeError 404 ''not_found'' (DetailOf e) else unexpected_error)
          (\<lambda>(entries, pg). writeJSON 200 (DLQListBody (map dlq_item entries) pg)) s)"

definition dlq_Detail :: "(string \<Rightarrow> uuid option) \<Rightarrow> 's dlqService \<Rightarrow> string \<Rightarrow> 's \<Rightarrow> response \<times> 's" where
  "dlq_Detail parse_id svc rawID s =
     (case parse_id rawID of
        None \<Rightarrow> (writeError 400 ''invalid_delivery_id'' (Detail ''delivery_id must be a valid UUID''), s)
      | Some i \<Rightarrow> respond (dlqService_Detail svc i)
          (\<lambda>e. if errors_is e ErrNotFound then writeError 404 ''not_found'' (Detail ''delivery not found'')
               else unexpected_error)
          (\<lambda>dt. writeJSON 200 (DLQDetailBody (DLQItemResponse.extend (dlq_item (dt_Entry dt))
             (DLQDetailResponse.fields (map attempt_response (dt_Attempts dt)))))) s)"

definition dlq_BulkReplay :: "(bytes \<Rightarrow> err + BulkReplayRequest) \<Rightarrow> 's dlqService \<Rightarrow> bytes \<Rightarrow> 's \<Rightarrow> response \<times> 's" where
  "dlq_BulkReplay decode svc bod s =
     (case decode bod of
        Inl e \<Rightarrow> (writeError 400 ''invalid_body'' (DetailOf e), s)
      | Inr req \<Rightarrow>
          if bq_TenantID req = None \<and> bq_EndpointID req = None
          then (writeError 400 ''missing_filter'' (Detail ''at least one of tenant_id or endpoint_id must be provided''), s)
          else respond (dlqService_BulkReplay svc \<lparr>f_TenantID = bq_TenantID req, f_EndpointID = bq_EndpointID req\<rparr>)
            (\<lambda>(e, _). if errors_is e ErrUnprocessable then writeError 422 ''unprocessable'' (DetailOf e)
                      else unexpected_error)
            (\<lambda>count. writeJSON 202 (BulkReplayBody count)) s)"

definition dlq_Replay :: "(string \<Rightarrow> uuid option) \<Rightarrow> 's dlqService \<Rightarrow> string \<Rightarrow> 's \<Rightarrow> response \<times> 's" where
  "dlq_Replay parse_id svc rawID s =
     (case parse_id rawID of
        None \<Rightarrow> (writeError 400 ''invalid_delivery_id'' (Detail ''delivery_id must be a valid UUID''), s)
      | Some i \<Rightarrow> respond (dlqService_Replay svc i)
          (\<lambda>e. if errors_is e ErrNotFound then writeError 404 ''not_found'' (Detail ''delivery not found'')
               else if errors_is e ErrConflict
               then writeError 409 ''conflict'' (Detail ''delivery is not permanently_failed or a non-terminal replay already exists'')
               else if errors_is e ErrUnprocessable
               then writeError 422 ''unprocessable'' (Detail ''the endpoint referenced by the delivery no longer exists'')
               else unexpected_error)
          (\<lambda>d. writeJSON 202 (ReplayBody (d_ID d) (status_text (d_Status d)))) s)"

section \<open>Event submission\<close>

text \<open>The handler on the event service, without metrics.\<close>

abbreviation post_event ::
  "(bytes \<Rightarrow> EventRequest option) \<Rightarrow> (bytes \<Rightarrow> bytes option) \<Rightarrow> bytes option \<Rightarrow> string option \<Rightarrow> db \<Rightarrow> response option \<times> db" where
  "post_event decode jsonb \<equiv> event_Submit decode None (submit jsonb)"

lemmas post_event_defs = event_Submit_def rejected_def submit_failed_def writeError_def writeJSON_def internal_error_def

text \<open>Either the request is refused before the service is called, or its body was read, decoded
  and had a tenant, and the service was called on its fields.\<close>

lemma post_event_cases [consumes 1, case_names refused called]:
  assumes "post_event decode jsonb incoming header s = (resp, s')"
  obtains r where "resp = Some r" "rs_Status r \<in> {400, 413}" "s' = s"
    | raw req t k res where "incoming = Some raw" "int (length raw) \<le> max_body" "decode raw = Some req"
      "vq_TenantID req = Some t" "k = (case header of None \<Rightarrow> [] | Some key \<Rightarrow> key)"
      "submit jsonb (vq_EndpointID req) (vq_Payload req) k raw t s = (res, s')"
      "resp = (case res of Inl e \<Rightarrow> Some (fst (submit_failed None e s')) | Inr d \<Rightarrow>
         (case d of None \<Rightarrow> None | Some d' \<Rightarrow> Some (writeJSON 202 (EventAcceptedBody (d_ID d') (d_EventID d')))))"
proof (cases "read_body incoming")
  case (Body raw)
  then have raw: "incoming = Some raw" "int (length raw) \<le> max_body"
    by (auto simp: read_body_def split: option.splits if_splits)
  show ?thesis
  proof (cases "decode raw")
    case None
    with assms Body that(1) show ?thesis by (auto simp: post_event_defs)
  next
    case (Some req)
    show ?thesis
    proof (cases "vq_TenantID req")
      case None
      with assms Body Some that(1) show ?thesis by (auto simp: post_event_defs)
    next
      case (Some t)
      let ?k = "case header of None \<Rightarrow> [] | Some key \<Rightarrow> key"
      show ?thesis
      proof (cases "case header of None \<Rightarrow> None | Some key \<Rightarrow> validateIdempotencyKey key")
        case (Some m)
        with assms Body \<open>decode raw = Some req\<close> \<open>vq_TenantID req = Some t\<close> that(1) show ?thesis
          by (auto simp: post_event_defs)
      next
        case None
        obtain res s2 where res: "submit jsonb (vq_EndpointID req) (vq_Payload req) ?k raw t s = (res, s2)"
          by fastforce
        have "snd (submit_failed None e s2) = s2" for e
          by (simp add: submit_failed_def rejected_def)
        then have "event_Submit decode None (submit jsonb) incoming header s =
            (case res of Inl e \<Rightarrow> Some (fst (submit_failed None e s2)) | Inr d \<Rightarrow>
             (case d of None \<Rightarrow> None | Some d' \<Rightarrow> Some (writeJSON 202 (EventAcceptedBody (d_ID d') (d_EventID d')))), s2)"
          using Body \<open>decode raw = Some req\<close> \<open>vq_TenantID req = Some t\<close> None res
          by (simp add: event_Submit_def prod_eq_iff split: sum.splits prod.splits option.splits)
        with assms raw \<open>decode raw = Some req\<close> \<open>vq_TenantID req = Some t\<close> res show ?thesis
          by (intro that(2) [of raw req t ?k res]) auto
      qed
    qed
  qed
qed (use assms that(1) in \<open>auto simp: post_event_defs\<close>)

lemma submit_failed_status:
  "rs_Status (fst (submit_failed None e s)) \<in> {404, 409, 422, 500}"
  "errors_is e ErrConn \<Longrightarrow> \<not> errors_is e ErrNotFound \<Longrightarrow> \<not> errors_is e ErrTenantNotFound \<Longrightarrow>
   \<not> errors_is e ErrTenantEndpointMismatch \<Longrightarrow> \<not> errors_is e ErrConflict \<Longrightarrow>
   rs_Status (fst (submit_failed None e s)) = 500"
  by (auto simp: submit_failed_def writeError_def writeJSON_def internal_error_def)

lemma submitted_row:
  assumes "submitted jsonb e payload t s s' r"
  shows "dr_endpoint_id r = e" and "r \<in> set (deliveries s')"
proof -
  obtain v :: event_row where r: "r = new_delivery (vr_id v) e None (now_ts s) t (dr_id r)"
    and d: "deliveries s' = deliveries s @ [r]"
    using assms unfolding submitted_def by blast
  from arg_cong [OF r, of dr_endpoint_id] show "dr_endpoint_id r = e" by (simp add: new_delivery_def)
  from d show "r \<in> set (deliveries s')" by simp
qed

text \<open>C26. Every submission is answered (the handler never dereferences a nil delivery) with one of
  seven statuses; unless it is 202 or 500 the request changed no table, whatever the
  connection did.\<close>

theorem event_request_outcomes:
  "case post_event decode jsonb incoming header s of (resp, s') \<Rightarrow>
     \<exists>r. resp = Some r \<and> rs_Status r \<in> {202, 400, 404, 409, 413, 422, 500} \<and>
       (rs_Status r \<in> {202, 500} \<or> same_tables s s')"
proof -
  have commit: "rs_Status (fst (submit_failed None (Wrap a (Wrap b ErrConn)) s')) = 500" for a b and s' :: db
    by (rule submit_failed_status(2)) auto
  obtain resp s' where run: "post_event decode jsonb incoming header s = (resp, s')" by fastforce
  then have "\<exists>r. resp = Some r \<and> rs_Status r \<in> {202, 400, 404, 409, 413, 422, 500} \<and>
      (rs_Status r \<in> {202, 500} \<or> same_tables s s')"
  proof (cases rule: post_event_cases)
    case (called raw req t k res)
    show ?thesis
    proof (cases res)
      case (Inl e)
      with called(7) have resp: "resp = Some (fst (submit_failed None e s'))" by simp
      from submit_failure [OF called(6) [unfolded Inl]]
      have "same_tables s s' \<or> rs_Status (fst (submit_failed None e s')) = 500"
        using commit by auto
      with resp submit_failed_status(1) [of e s'] show ?thesis by auto
    next
      case (Inr d)
      with submit_result [OF called(6) [unfolded Inr]] called(7) show ?thesis
        by (auto simp: writeJSON_def)
    qed
  qed auto
  with run show ?thesis by simp
qed

text \<open>C27. An accepted event is stored: when the answer is 202, the body was at most one mebibyte,
  named a tenant, and the delivery with the answered ids is in the database, for the endpoint
  of the request; its event is stored too.\<close>

theorem accepted_event_is_stored:
  assumes "db_ok s" and "post_event decode jsonb incoming header s = (Some r, s')" and "rs_Status r = 202"
  shows "\<exists>raw req d v. incoming = Some raw \<and> length raw \<le> 2 ^ 20 \<and> decode raw = Some req \<and>
    vq_TenantID req \<noteq> None \<and> d \<in> set (deliveries s') \<and> dr_endpoint_id d = vq_EndpointID req \<and>
    v \<in> set (events s') \<and> vr_id v = dr_event_id d \<and> vr_endpoint_id v = vq_EndpointID req \<and>
    rs_Body r = EventAcceptedBody (dr_id d) (dr_event_id d)"
  using assms(2)
proof (cases rule: post_event_cases)
  case (refused r')
  with assms(3) show ?thesis by simp
next
  case (called raw req t k res)
  obtain d where d: "res = Inr (Some d)" "r = writeJSON 202 (EventAcceptedBody (d_ID d) (d_EventID d))"
  proof (cases res)
    case (Inl e)
    with called(7) assms(3) submit_failed_status(1) [of e s'] show ?thesis by auto
  next
    case (Inr d)
    with called(7) that show ?thesis by (cases d) auto
  qed
  have ok: "db_ok s'" using preservesD_eq [OF submit_preserves assms(1) called(6)] .
  have "\<exists>q \<in> set (deliveries s'). dr_endpoint_id q = vq_EndpointID req \<and> d_ID d = dr_id q \<and> d_EventID d = dr_event_id q"
    using submit_result [OF called(6) [unfolded d(1)]]
  proof (elim disjE exE conjE)
    fix q assume "Some d = Some (scanDelivery q)" and "submitted jsonb (vq_EndpointID req) (vq_Payload req) t s s' q"
    then show ?thesis
      using submitted_row by (intro bexI [of _ q]) (auto simp: scanDelivery_def)
  next
    fix i assume same: "same_tables s s'" and cached: "cached_row (vq_EndpointID req) k raw s i"
      and eq: "Some d = Some (cached_delivery (scanIdempotency i) (vq_EndpointID req))"
    have "i \<in> set (idempotency_records s)" "ir_endpoint_id i = vq_EndpointID req"
      using cached by (auto simp: cached_row_def valid_record_def find_Some_iff has_key_def)
    with assms(1) have "idempotency_complete s i" by (simp add: db_ok_def consistent_def)
    with same eq \<open>ir_endpoint_id i = _\<close> show ?thesis
      by (auto simp: idempotency_complete_def same_tables_iff cached_delivery_def scanIdempotency_def)
  qed
  then obtain q where q: "q \<in> set (deliveries s')" "dr_endpoint_id q = vq_EndpointID req"
      "d_ID d = dr_id q" "d_EventID d = dr_event_id q" by blast
  with ok have "delivery_linked s' q" by (simp add: db_ok_def consistent_def)
  then obtain v where "v \<in> set (events s')" "vr_id v = dr_event_id q" "vr_endpoint_id v = dr_endpoint_id q"
    by (auto simp: delivery_linked_def)
  with called(1-4) q d(2) show ?thesis
    by (auto simp: max_body_def writeJSON_def intro!: exI [of _ raw] exI [of _ req] exI [of _ q] exI [of _ v])
qed

theorem accepted_event_is_stored_witness:
  "\<exists>r s' d. post_event (\<lambda>_. Some \<lparr>vq_EndpointID = 10, vq_TenantID = Some 1, vq_Payload = Some ''{}''\<rparr>) Some
      (Some ''{}'') (Some ''key'') sample_db = (Some r, s') \<and> d \<in> set (deliveries s') \<and>
      rs_Body r = EventAcceptedBody (dr_id d) (dr_event_id d)"
proof -
  let ?decode = "\<lambda>_. Some \<lparr>vq_EndpointID = 10, vq_TenantID = Some 1, vq_Payload = Some ''{}''\<rparr>"
  from sample_submission obtain d s1 where
    run: "submit Some 10 (Some ''{}'') ''key'' ''{}'' 1 sample_db = (Inr d, s1)" by blast
  from submit_result [OF run] obtain d' where "d = Some d'" by blast
  with run have post: "post_event ?decode Some (Some ''{}'') (Some ''key'') sample_db =
      (Some (writeJSON 202 (EventAcceptedBody (d_ID d') (d_EventID d'))), s1)"
    by (simp add: event_Submit_def read_body_def max_body_def validateIdempotencyKey_def)
  from accepted_event_is_stored [OF sample_db_ok post] post show ?thesis
    by (auto simp: writeJSON_def)
qed

text \<open>A submission without a payload is not refused as a bad request: it passes every check,
  the insertion of the event violates a constraint and the answer is an internal error (no
  row is written).\<close>

theorem missing_payload_is_internal_error:
  assumes "faults s = []" and "decode raw = Some req" and "int (length raw) \<le> max_body"
    and "vq_Payload req = None" and "vq_TenantID req = Some t"
    and "row_by er_id (vq_EndpointID req) (endpoints s) = Some er" and "er_tenant_id er = t"
    and "row_by tr_id t (tenants s) = Some tr"
  shows "post_event decode jsonb (Some raw) None s =
    (Some (writeError 500 ''internal_error'' NoDetail), s\<lparr>uuid_pos := Suc (uuid_pos s)\<rparr>)"
proof -
  have "submit jsonb (vq_EndpointID req) None [] raw t s =
      (Inl (Wrap ''submit event'' (Wrap ''insert event'' (PgError not_null_violation))), s\<lparr>uuid_pos := Suc (uuid_pos s)\<rparr>)"
    using assms(1,6-8)
    by (simp add: EventService_Submit_def EndpointService_Get_def check_tenant_exists_def bindP_def tryP_def
        get_endpoint_eq get_tenant_eq scanEndpoint_def InTx_fine submit_body_def liftV_def map_errP_def
        insert_event_values_def rollback_def)
  with assms(2-5) show ?thesis
    by (simp add: event_Submit_def read_body_def submit_failed_def internal_error_def)
qed

theorem missing_payload_is_internal_error_witness:
  "rs_Status (the (fst (post_event (\<lambda>_. Some \<lparr>vq_EndpointID = 10, vq_TenantID = Some 1, vq_Payload = None\<rparr>) Some
      (Some ''{}'') None sample_db))) = 500"
  using missing_payload_is_internal_error [of sample_db "\<lambda>_. Some \<lparr>vq_EndpointID = 10, vq_TenantID = Some 1, vq_Payload = None\<rparr>"
      "''{}''" "\<lparr>vq_EndpointID = 10, vq_TenantID = Some 1, vq_Payload = None\<rparr>" 1 sample_endpoint]
  by (simp add: sample_defs max_body_def writeError_def writeJSON_def)

section \<open>Tenants, endpoints and queries\<close>

text \<open>The handler's check is stronger than the constraint of the table.\<close>

lemma valid_name_check: "validateTenantName name = None \<Longrightarrow> name_check (Some name)"
  by (auto simp: validateTenantName_def name_check_def Suc_le_eq split: if_splits)

lemma valid_name_text: "validateTenantName name = None \<Longrightarrow> valid_utf8 name \<Longrightarrow> text_ok name"
  using nul_byte_is_a_rune [of name]
  by (auto simp: validateTenantName_def text_ok_def list_ex_iff is_control_def dest: bspec [of _ _ 0] split: if_splits)

text \<open>Registering a tenant on a working connection: a name the check refuses is answered 400 and
  nothing is stored; any other request (also one without a name) is answered 201, never 500,
  and the created tenant is what a later GET of its id returns.\<close>

theorem tenant_registration:
  assumes "healthy s" and "fresh_keys 1 s" and "decode b = Some name" and "pred_option valid_utf8 name"
  shows "(\<exists>msg. tenant_Create decode tenant_service b s = (writeError 400 ''invalid_name'' (Detail msg), s) \<and>
       (\<exists>n. name = Some n \<and> validateTenantName n = Some msg)) \<or>
     (\<exists>t s'. tenant_Create decode tenant_service b s = (writeJSON 201 (TenantBody t), s') \<and> tq_Name t = name \<and>
       tenant_GetByID (\<lambda>_. Some (tq_ID t)) tenant_service rawID s' = (writeJSON 200 (TenantBody t), s'))"
proof (cases "case name of None \<Rightarrow> None | Some n \<Rightarrow> validateTenantName n")
  case (Some msg)
  with assms(3) show ?thesis by (auto simp: tenant_Create_def split: option.splits)
next
  case None
  let ?i = "uuid_src s (uuid_pos s)"
  let ?r = "\<lparr>tr_id = ?i, tr_name = name, tr_created_at = now_ts s\<rparr>"
  let ?s = "s\<lparr>uuid_pos := Suc (uuid_pos s), tenants := tenants s @ [?r]\<rparr>"
  have "name_check name"
    using None by (cases name) (auto simp: name_check_def dest: valid_name_check)
  moreover have "pred_option text_ok name"
    using None assms(4) by (cases name) (auto dest: valid_name_text)
  moreover have new: "?i \<notin> tenant_ids s"
    using fresh_keys_next [of 0 s] assms(2) by (simp add: used_keys_def)
  ultimately have "TenantService_Create tenant_service name s = (Inr (scanTenant ?r), ?s)"
    using insert_tenant_eq [of s name] assms(1)
    by (simp add: TenantService_Create_def tenant_service_def map_errP_def healthy_def Let_def)
  moreover have "TenantService_GetByID tenant_service ?i ?s = (Inr (scanTenant ?r), ?s)"
    using get_tenant_eq [of ?s ?i] assms(1) new
    by (simp add: TenantService_GetByID_def tenant_service_def healthy_def row_by_None_iff [symmetric])
  ultimately show ?thesis
    using None assms(3)
    by (intro disjI2 exI [of _ "NewTenantResponse (scanTenant ?r)"] exI [of _ ?s])
      (simp add: tenant_Create_def tenant_GetByID_def respond_def NewTenantResponse_def scanTenant_def)
qed

theorem tenant_registration_witness:
  "rs_Status (fst (tenant_Create (\<lambda>_. Some (Some [])) tenant_service [] sample_db)) = 400 \<and>
   rs_Status (fst (tenant_Create (\<lambda>_. Some None) tenant_service [] sample_db)) = 201"
proof -
  have h: "healthy sample_db" "fresh_keys 1 sample_db"
    using sample_schema_ok by (simp_all add: healthy_def fresh_keys_def used_keys_def sample_defs)
  have "rs_Status (fst (tenant_Create (\<lambda>_. Some (Some [])) tenant_service [] sample_db)) = 400"
    by (simp add: tenant_Create_def validateTenantName_def writeError_def writeJSON_def)
  moreover have "rs_Status (fst (tenant_Create (\<lambda>_. Some None) tenant_service [] sample_db)) = 201"
    using tenant_registration [OF h, where decode = "\<lambda>_. Some None" and b = "[]" and name = None and rawID = "[]"]
    by (auto simp: writeJSON_def)
  ultimately show ?thesis by blast
qed

lemma Atoi_range: "Atoi raw = Some v \<Longrightarrow> min_int64 \<le> v \<and> v \<le> max_int64"
  by (auto simp: Atoi_def Let_def split: if_splits prod.splits)

lemma FormatInt_ne [simp]: "FormatInt i \<noteq> []"
  by (simp add: FormatInt_def)

lemma query_id_simps:
  "query_id parse_id raw bad = Inl r \<Longrightarrow> r = bad"
  "query_id parse_id [] bad = Inr None"
  by (auto simp: query_id_def split: if_splits option.splits)

lemma query_int_simps:
  "query_int raw dflt ok bad = Inl r \<Longrightarrow> r = bad"
  "query_int raw dflt ok bad = Inr v \<Longrightarrow> (raw = [] \<and> v = dflt) \<or> (Atoi raw = Some v \<and> ok v)"
  "query_int [] dflt ok bad = Inr dflt"
  "Atoi (FormatInt v) = Some v \<Longrightarrow> ok v \<Longrightarrow> query_int (FormatInt v) dflt ok bad = Inr v"
  by (auto simp: query_int_def split: if_splits option.splits)

lemma dlq_params_cases:
  obtains r where "dlq_params parse_id q = Inl r" "rs_Status r = 400"
    | filt page limit where "dlq_params parse_id q = Inr (filt, page, limit)"
      "1 \<le> page" "page \<le> max_int64" "1 \<le> limit" "limit \<le> 100"
proof (cases "dlq_params parse_id q")
  case (Inl r)
  then have "rs_Status r = 400"
    by (auto simp: dlq_params_def writeError_def writeJSON_def split: sum.splits
        dest!: query_id_simps(1) query_int_simps(1))
  with Inl that(1) show thesis by blast
next
  case (Inr p)
  obtain filt page limit where p: "p = (filt, page, limit)" by (cases p) auto
  obtain b1 b2 where
    "query_int (gq_Page q) 1 (\<lambda>v. \<not> v < 1) b1 = Inr page"
    "query_int (gq_Limit q) 20 (\<lambda>v. \<not> (v < 1 \<or> v > 100)) b2 = Inr limit"
    using Inr unfolding p dlq_params_def by (auto split: sum.splits)
  then have "1 \<le> page" "page \<le> max_int64" "1 \<le> limit" "limit \<le> 100"
    using Atoi_range [of "gq_Page q" page] by (auto dest!: query_int_simps(2) simp: max_int64_def)
  with Inr p that(2) show thesis by blast
qed

text \<open>The query of the dead letter listing: whatever the text of the parameters, what passes has a
  page of at least 1 and a limit from 1 to 100 (so the service's own range checks never
  fail); and every such page and limit written in decimal is read back as itself, with
  page 1 and limit 20 when they are absent.\<close>

theorem dlq_query_parameters:
  "(case dlq_params parse_id q of
      Inl r \<Rightarrow> rs_Status r = 400
    | Inr (filt, page, limit) \<Rightarrow> 1 \<le> page \<and> page \<le> max_int64 \<and> 1 \<le> limit \<and> limit \<le> 100) \<and>
   (\<forall>page \<in> {1 .. max_int64}. \<forall>limit \<in> {1 .. 100}.
      dlq_params parse_id \<lparr>gq_TenantID = [], gq_EndpointID = [], gq_Page = FormatInt page, gq_Limit = FormatInt limit\<rparr> =
        Inr (\<lparr>f_TenantID = None, f_EndpointID = None\<rparr>, page, limit)) \<and>
   dlq_params parse_id \<lparr>gq_TenantID = [], gq_EndpointID = [], gq_Page = [], gq_Limit = []\<rparr> =
     Inr (\<lparr>f_TenantID = None, f_EndpointID = None\<rparr>, 1, 20)"
proof (intro conjI ballI)
  show "case dlq_params parse_id q of
      Inl r \<Rightarrow> rs_Status r = 400
    | Inr (filt, page, limit) \<Rightarrow> 1 \<le> page \<and> page \<le> max_int64 \<and> 1 \<le> limit \<and> limit \<le> 100"
    by (cases rule: dlq_params_cases [of parse_id q]) simp_all
  fix page limit :: int assume "page \<in> {1 .. max_int64}" "limit \<in> {1 .. 100}"
  moreover from this have "Atoi (FormatInt page) = Some page" "Atoi (FormatInt limit) = Some limit"
    by (auto intro!: Atoi_FormatInt simp: min_int64_def max_int64_def)
  ultimately show "dlq_params parse_id \<lparr>gq_TenantID = [], gq_EndpointID = [], gq_Page = FormatInt page,
      gq_Limit = FormatInt limit\<rparr> = Inr (\<lparr>f_TenantID = None, f_EndpointID = None\<rparr>, page, limit)"
    by (simp add: dlq_params_def query_id_simps query_int_simps)
qed (simp add: dlq_params_def query_id_simps query_int_simps)

theorem dlq_query_parameters_witness:
  "dlq_params (\<lambda>_. None) \<lparr>gq_TenantID = [], gq_EndpointID = [], gq_Page = FormatInt 3, gq_Limit = FormatInt 50\<rparr> =
     Inr (\<lparr>f_TenantID = None, f_EndpointID = None\<rparr>, 3, 50)"
  using dlq_query_parameters [of "\<lambda>_. None"] by (simp add: max_int64_def)

end
