(* ===== verification/Queue.thy ===== *)
theory Queue
  imports Entity_Stores
begin

text \<open>
  \<open>internal/queue/publisher.go\<close> and \<open>consumer.go\<close>, and the state the long running
  processes share: the database, the topic, what the consumer group has committed and what
  has been sent over HTTP.

  The client library is a parameter: a broker answers a write with the number of messages it
  accepts and, when that is not all of them, the error.  Every other fact about the queue
  is read off the field \<open>w_topic\<close>.
\<close>

section \<open>Messages and requests\<close>

record message =
  m_Key :: bytes
  m_Value :: bytes

record http_request =
  rq_URL :: string
  rq_Body :: bytes
  rq_ContentType :: string
  rq_Timestamp :: string
  rq_Signature :: string

section \<open>The state of the world\<close>

text \<open>\<open>w_inbox\<close> is what the reader will deliver next, \<open>w_acks\<close> how the broker will answer
  the next writes and commits (none left: it accepts), \<open>w_claimed\<close> the counter
  \<open>webhook_scheduler_claimed_total\<close> and \<open>w_resurrected\<close> the counter
  \<open>webhook_delivery_lease_resurrected_total\<close>.\<close>

record world =
  w_db :: db
  w_topic :: "message list"
  w_inbox :: "message list"
  w_committed :: "message list"
  w_acks :: "(nat \<times> err) option list"
  w_sent :: "http_request list"
  w_claimed :: int
  w_resurrected :: int

type_synonym 'a io = "(err, world, 'a) prog"

definition on_db :: "'a dbprog \<Rightarrow> 'a io" where
  "on_db m w = (case m (w_db w) of (r, s') \<Rightarrow> (r, w\<lparr>w_db := s'\<rparr>))"

section \<open>Publisher\<close>

record PublisherConfig =
  pc_Brokers :: "string list"
  pc_Topic :: string

datatype balancer = HashByKey
datatype required_acks = RequireAll

record Writer =
  wr_Addr :: "string list"
  wr_Topic :: string
  wr_Balancer :: balancer
  wr_AllowAutoTopicCreation :: bool
  wr_RequiredAcks :: required_acks

definition NewPublisher :: "PublisherConfig \<Rightarrow> Writer" where
  "NewPublisher cfg = \<lparr>wr_Addr = pc_Brokers cfg, wr_Topic = pc_Topic cfg, wr_Balancer = HashByKey,
     wr_AllowAutoTopicCreation = True, wr_RequiredAcks = RequireAll\<rparr>"

text \<open>\<open>WriteMessages\<close> of the library: the broker appends the messages it accepts.\<close>

definition write_messages :: "message list \<Rightarrow> unit io" where
  "write_messages msgs w =
     (case w_acks w of
        [] \<Rightarrow> (Inr (), w\<lparr>w_topic := w_topic w @ msgs\<rparr>)
      | None # as \<Rightarrow> (Inr (), w\<lparr>w_topic := w_topic w @ msgs, w_acks := as\<rparr>)
      | Some (n, e) # as \<Rightarrow> (Inl e, w\<lparr>w_topic := w_topic w @ take n msgs, w_acks := as\<rparr>))"

definition Publisher_Publish :: "bytes \<Rightarrow> bytes \<Rightarrow> unit io" where
  "Publisher_Publish key val =
     map_errP (Wrap ''publish to topic'') (write_messages [\<lparr>m_Key = key, m_Value = val\<rparr>])"

definition Publisher_PublishBatch :: "message list \<Rightarrow> unit io" where
  "Publisher_PublishBatch msgs =
     (if length msgs = 0 then returnP ()
      else map_errP (Wrap ''publish batch to topic'') (write_messages msgs))"

section \<open>Consumer\<close>

record ConsumerConfig =
  cc_Brokers :: "string list"
  cc_Topic :: string
  cc_GroupID :: string
  cc_SessionTimeout :: duration
  cc_HeartbeatInterval :: duration
  cc_StartOffset :: int

record ReaderConfig =
  rc_Brokers :: "string list"
  rc_Topic :: string
  rc_GroupID :: string
  rc_MinBytes :: int
  rc_MaxBytes :: int
  rc_StartOffset :: int
  rc_CommitInterval :: duration
  rc_SessionTimeout :: duration
  rc_HeartbeatInterval :: duration

text \<open>The library's constants \<open>LastOffset\<close> and \<open>FirstOffset\<close>.\<close>

definition LastOffset :: int where "LastOffset = - 1"
definition FirstOffset :: int where "FirstOffset = - 2"

definition NewConsumer :: "ConsumerConfig \<Rightarrow> ReaderConfig" where
  "NewConsumer cfg =
     (let startOffset = (if cc_StartOffset cfg \<noteq> 0 then cc_StartOffset cfg else LastOffset) in
      \<lparr>rc_Brokers = cc_Brokers cfg, rc_Topic = cc_Topic cfg, rc_GroupID = cc_GroupID cfg, rc_MinBytes = 1,
       rc_MaxBytes = 10000000, rc_StartOffset = startOffset, rc_CommitInterval = 0,
       rc_SessionTimeout = cc_SessionTimeout cfg, rc_HeartbeatInterval = cc_HeartbeatInterval cfg\<rparr>)"

text \<open>A fetch blocks until a message arrives or the context is cancelled: with an empty inbox
  it is the cancellation.\<close>

definition Consumer_FetchMessage :: "message io" where
  "Consumer_FetchMessage w =
     (case w_inbox w of
        [] \<Rightarrow> (Inl (Wrap ''fetch from topic'' (ErrText ''context canceled'')), w)
      | m # ms \<Rightarrow> (Inr m, w\<lparr>w_inbox := ms\<rparr>))"

definition Consumer_Commit :: "message \<Rightarrow> unit io" where
  "Consumer_Commit m w =
     (case w_acks w of
        [] \<Rightarrow> (Inr (), w\<lparr>w_committed := w_committed w @ [m]\<rparr>)
      | None # as \<Rightarrow> (Inr (), w\<lparr>w_committed := w_committed w @ [m], w_acks := as\<rparr>)
      | Some (n, e) # as \<Rightarrow> (Inl (Wrap ''commit offset'' e), w\<lparr>w_acks := as\<rparr>))"

section \<open>Facts\<close>

lemma on_db_preserves:
  "preserves I m \<Longrightarrow> preserves (\<lambda>w. I (w_db w)) (on_db m)"
  by (auto simp: preserves_def on_db_def split: prod.splits)

lemma on_db_db_ok [preserves_intros]:
  "preserves db_ok m \<Longrightarrow> preserves (\<lambda>w. db_ok (w_db w)) (on_db m)"
  by (rule on_db_preserves)

lemma write_keeps_db: "w_db (snd (write_messages msgs w)) = w_db w"
  by (auto simp: write_messages_def split: list.splits option.splits)

lemma Publish_keeps_db [simp]: "w_db (snd (Publisher_Publish k v w)) = w_db w"
  by (simp add: Publisher_Publish_def write_keeps_db)

lemma Publish_preserves [preserves_intros]: "preserves (\<lambda>w. I (w_db w)) (Publisher_Publish k v)"
  by (simp add: preserves_def)

lemma Commit_preserves [preserves_intros]: "preserves (\<lambda>w. I (w_db w)) (Consumer_Commit m)"
  by (auto simp: preserves_def Consumer_Commit_def split: list.splits option.splits)

lemma Fetch_preserves [preserves_intros]: "preserves (\<lambda>w. I (w_db w)) Consumer_FetchMessage"
  by (auto simp: preserves_def Consumer_FetchMessage_def split: list.splits)

lemma Publish_ok:
  "w_acks w = [] \<Longrightarrow> Publisher_Publish k v w = (Inr (), w\<lparr>w_topic := w_topic w @ [\<lparr>m_Key = k, m_Value = v\<rparr>]\<rparr>)"
  by (simp add: Publisher_Publish_def map_errP_def write_messages_def)

end
