(* ===== verification/Scheduler.thy ===== *)
theory Scheduler
  imports Queue Circuit_Store Sample
begin

text \<open>
  \<open>internal/scheduler/scheduler.go\<close> and \<open>internal/recovery/reaper.go\<close>: the periodic
  steps that move deliveries to the queue and recover them.

  A \<open>Config\<close> is a record of the interfaces it holds; an optional interface is an option.
  The tickers of \<open>Run\<close> are the environment's choice of when a \<open>Tick\<close> happens, and of the
  instant \<open>now\<close> it reads.  \<open>uuid_text\<close> stands for \<open>UUID.String\<close> of the library.
\<close>

section \<open>The scheduler\<close>

record 's SchedulerCircuitStore =
  sk_Orphaned :: "(err, 's, uuid list) prog"
  sk_ProcessExpired :: "(err, 's, uuid list \<times> uuid list) prog"
  sk_SetProbe :: "uuid \<Rightarrow> (err, 's, unit) prog"

record 's SchedulerConfig =
  sc_ClaimReady :: "int \<Rightarrow> instant \<Rightarrow> (err, 's, Delivery list) prog"
  sc_CircuitStore :: "'s SchedulerCircuitStore option"
  sc_Publish :: "bytes \<Rightarrow> bytes \<Rightarrow> (err, 's, unit) prog"
  sc_BatchSize :: int
  sc_LeaseDuration :: duration
  sc_ClaimedAdd :: "(int \<Rightarrow> 's \<Rightarrow> 's) option"

definition NewScheduler :: "'s SchedulerConfig \<Rightarrow> 's SchedulerConfig" where
  "NewScheduler cfg =
     (let cfg1 = (if sc_BatchSize cfg \<le> 0 then cfg\<lparr>sc_BatchSize := 100\<rparr> else cfg) in
      if sc_LeaseDuration cfg1 \<le> 0 then cfg1\<lparr>sc_LeaseDuration := 60 * second\<rparr> else cfg1)"

text \<open>The JSON text of a message.\<close>

definition kafka_json :: "(uuid \<Rightarrow> string) \<Rightarrow> uuid \<Rightarrow> uuid \<Rightarrow> bytes" where
  "kafka_json uuid_text deliveryID endpointID =
     ''{\"delivery_id\":\"'' @ uuid_text deliveryID @ ''\",\"endpoint_id\":\"'' @ uuid_text endpointID @ ''\"}''"

text \<open>A loop whose body logs its error.\<close>

definition set_probes :: "'s SchedulerCircuitStore \<Rightarrow> uuid list \<Rightarrow> (err, 's, unit) prog" where
  "set_probes cs ids s = (Inr (), for_each_ignoring (sk_SetProbe cs) ids s)"

definition recover_orphans :: "'s SchedulerCircuitStore \<Rightarrow> (err, 's, unit) prog" where
  "recover_orphans cs = tryP (sk_Orphaned cs) (\<lambda>_. returnP ()) (set_probes cs)"

definition expire_suspensions :: "'s SchedulerCircuitStore \<Rightarrow> (err, 's, unit) prog" where
  "expire_suspensions cs =
     tryP (sk_ProcessExpired cs) (\<lambda>_. returnP ()) (\<lambda>(halfOpenIDs, _). set_probes cs halfOpenIDs)"

fun publish_all ::
  "(uuid \<Rightarrow> string) \<Rightarrow> (bytes \<Rightarrow> bytes \<Rightarrow> (err, 's, unit) prog) \<Rightarrow> Delivery list \<Rightarrow> (err, 's, unit) prog" where
  "publish_all uuid_text publish [] = returnP ()"
| "publish_all uuid_text publish (d # ds) =
     bindP (map_errP (Wrap ''publish delivery'')
             (publish (uuid_text (d_EndpointID d)) (kafka_json uuid_text (d_ID d) (d_EndpointID d))))
       (\<lambda>_. publish_all uuid_text publish ds)"

definition count_claimed :: "(int \<Rightarrow> 's \<Rightarrow> 's) option \<Rightarrow> int \<Rightarrow> (err, 's, unit) prog" where
  "count_claimed metrics n s =
     (Inr (), case metrics of None \<Rightarrow> s | Some add \<Rightarrow> if n > 0 then add n s else s)"

definition Scheduler_Tick :: "(uuid \<Rightarrow> string) \<Rightarrow> 's SchedulerConfig \<Rightarrow> instant \<Rightarrow> (err, 's, unit) prog" where
  "Scheduler_Tick uuid_text cfg now =
     bindP (case sc_CircuitStore cfg of
              None \<Rightarrow> returnP ()
            | Some cs \<Rightarrow> bindP (recover_orphans cs) (\<lambda>_. expire_suspensions cs))
       (\<lambda>_. bindP (map_errP (Wrap ''claim ready'')
               (sc_ClaimReady cfg (sc_BatchSize cfg) (now + sc_LeaseDuration cfg)))
         (\<lambda>ds. bindP (publish_all uuid_text (sc_Publish cfg) ds)
           (\<lambda>_. count_claimed (sc_ClaimedAdd cfg) (int (length ds)))))"

section \<open>The reaper\<close>

record 's ReaperConfig =
  rp_Resurrect :: "(err, 's, int) prog"
  rp_Purge :: "(err, 's, int) prog"
  rp_Interval :: duration
  rp_ResurrectedAdd :: "(int \<Rightarrow> 's \<Rightarrow> 's) option"

definition NewReaper :: "'s ReaperConfig \<Rightarrow> 's ReaperConfig" where
  "NewReaper cfg = (if rp_Interval cfg \<le> 0 then cfg\<lparr>rp_Interval := 60 * second\<rparr> else cfg)"

definition Reaper_Tick :: "'s ReaperConfig \<Rightarrow> (err, 's, unit) prog" where
  "Reaper_Tick cfg =
     bindP (map_errP (Wrap ''reaper tick'') (rp_Resurrect cfg))
       (\<lambda>n. bindP (count_claimed (rp_ResurrectedAdd cfg) n)
         (\<lambda>_. bindP (map_errP (Wrap ''reaper tick purge'') (rp_Purge cfg)) (\<lambda>_. returnP ())))"

section \<open>On the stores\<close>

definition circuit_store :: "world SchedulerCircuitStore" where
  "circuit_store = \<lparr>sk_Orphaned = on_db CircuitStore_OrphanedHalfOpenEndpoints,
     sk_ProcessExpired = on_db CircuitStore_ProcessExpiredSuspensions,
     sk_SetProbe = (\<lambda>i. on_db (CircuitStore_SetProbeDelivery i))\<rparr>"

definition scheduler_config ::
  "world SchedulerCircuitStore option \<Rightarrow> int \<Rightarrow> duration \<Rightarrow> world SchedulerConfig" where
  "scheduler_config cs batch lease = NewScheduler
     \<lparr>sc_ClaimReady = (\<lambda>n u. on_db (DeliveryStore_ClaimReady n u)), sc_CircuitStore = cs,
      sc_Publish = Publisher_Publish, sc_BatchSize = batch, sc_LeaseDuration = lease,
      sc_ClaimedAdd = Some (\<lambda>n. w_claimed_update (\<lambda>c. c + n))\<rparr>"

definition reaper_config :: "duration \<Rightarrow> world ReaperConfig" where
  "reaper_config interval = NewReaper
     \<lparr>rp_Resurrect = on_db DeliveryStore_ResurrectExpiredLeases,
      rp_Purge = on_db DeliveryStore_PurgeExpiredIdempotencyRecords, rp_Interval = interval,
      rp_ResurrectedAdd = Some (\<lambda>n. w_resurrected_update (\<lambda>c. c + n))\<rparr>"

lemma scheduler_config_fields [simp]:
  "sc_ClaimReady (scheduler_config cs n l) = (\<lambda>n u. on_db (DeliveryStore_ClaimReady n u))"
  "sc_CircuitStore (scheduler_config cs n l) = cs"
  "sc_Publish (scheduler_config cs n l) = Publisher_Publish"
  "sc_BatchSize (scheduler_config cs n l) = (if n \<le> 0 then 100 else n)"
  "sc_LeaseDuration (scheduler_config cs n l) = (if l \<le> 0 then 60 * second else l)"
  "sc_ClaimedAdd (scheduler_config cs n l) = Some (\<lambda>n. w_claimed_update (\<lambda>c. c + n))"
  by (simp_all add: scheduler_config_def NewScheduler_def Let_def)

lemma reaper_config_fields [simp]:
  "rp_Resurrect (reaper_config t) = on_db DeliveryStore_ResurrectExpiredLeases"
  "rp_Purge (reaper_config t) = on_db DeliveryStore_PurgeExpiredIdempotencyRecords"
  "rp_Interval (reaper_config t) = (if t \<le> 0 then 60 * second else t)"
  "rp_ResurrectedAdd (reaper_config t) = Some (\<lambda>n. w_resurrected_update (\<lambda>c. c + n))"
  by (simp_all add: reaper_config_def NewReaper_def)

section \<open>The ticks keep the database invariant\<close>

abbreviation world_ok :: "world \<Rightarrow> bool" where "world_ok \<equiv> \<lambda>w. db_ok (w_db w)"

lemma for_each_preserves: "(\<And>x. preserves I (body x)) \<Longrightarrow> preserves I (\<lambda>s. (Inr (), for_each_ignoring body xs s))"
  by (auto simp: preserves_def intro: for_each_ignoring_preserves preservesI)

lemma preserves_case_prod [preserves_intros]:
  "(\<And>a b. preserves I (f a b)) \<Longrightarrow> preserves I (case p of (a, b) \<Rightarrow> f a b)"
  by (cases p) simp

lemma circuit_steps_preserve [preserves_intros]:
  "preserves world_ok (recover_orphans circuit_store)"
  "preserves world_ok (expire_suspensions circuit_store)"
proof -
  have "preserves world_ok (set_probes circuit_store ids)" for ids
    unfolding set_probes_def [abs_def] circuit_store_def SchedulerCircuitStore.simps
    by (intro for_each_preserves preserves_intros)
  then show "preserves world_ok (recover_orphans circuit_store)"
      "preserves world_ok (expire_suspensions circuit_store)"
    unfolding recover_orphans_def expire_suspensions_def
    by (intro preserves_intros; simp add: circuit_store_def; intro preserves_intros)+
qed

lemma publish_all_preserves: "preserves world_ok (publish_all uuid_text Publisher_Publish ds)"
proof (induction ds)
  case Nil
  show ?case unfolding publish_all.simps by (intro preserves_intros)
next
  case (Cons d ds)
  show ?case unfolding publish_all.simps by (intro preserves_intros Cons.IH)
qed

lemma count_preserves: "(\<And>n w. I (add n w) = I w) \<Longrightarrow> preserves I (count_claimed (Some add) n)"
  by (simp add: preserves_def count_claimed_def)

lemma Scheduler_Tick_preserves:
  "cs = None \<or> cs = Some circuit_store \<Longrightarrow> preserves world_ok (Scheduler_Tick uuid_text (scheduler_config cs n l) now)"
  unfolding Scheduler_Tick_def scheduler_config_fields
  by (elim disjE; simp only: option.case)
    (intro preserves_intros publish_all_preserves count_preserves; simp)+

lemma Reaper_Tick_preserves: "preserves world_ok (Reaper_Tick (reaper_config t))"
  unfolding Reaper_Tick_def reaper_config_fields
  by (intro preserves_intros count_preserves) simp

section \<open>Claims and messages\<close>

definition delivery_message :: "(uuid \<Rightarrow> string) \<Rightarrow> delivery_row \<Rightarrow> message" where
  "delivery_message uuid_text d = \<lparr>m_Key = uuid_text (dr_endpoint_id d),
     m_Value = kafka_json uuid_text (dr_id d) (dr_endpoint_id d)\<rparr>"

lemma publish_all_ok:
  "w_acks w = [] \<Longrightarrow> publish_all uuid_text Publisher_Publish ds w =
     (Inr (), w\<lparr>w_topic := w_topic w @ map (\<lambda>d. \<lparr>m_Key = uuid_text (d_EndpointID d),
        m_Value = kafka_json uuid_text (d_ID d) (d_EndpointID d)\<rparr>) ds\<rparr>)"
  by (induction ds arbitrary: w) (simp_all add: bindP_def map_errP_def Publish_ok)

lemma publish_all_db: "w_db (snd (publish_all uuid_text Publisher_Publish ds w)) = w_db w"
proof (induction ds arbitrary: w)
  case (Cons d ds)
  obtain r w1 where p: "Publisher_Publish (uuid_text (d_EndpointID d)) (kafka_json uuid_text (d_ID d) (d_EndpointID d)) w = (r, w1)"
    by fastforce
  from this have "w_db w1 = w_db w" by (metis Publish_keeps_db snd_conv)
  with Cons p show ?case by (cases r) (simp_all add: bindP_def map_errP_def)
qed simp

definition claimed_db :: "nat \<Rightarrow> instant \<Rightarrow> db \<Rightarrow> db" where
  "claimed_db n lease s = s\<lparr>deliveries := upd_where (\<lambda>d. d \<in> set (claim_batch n s))
     (claimed_row lease (now_ts s)) (deliveries s)\<rparr>"

lemma claim_on_db:
  assumes "db_ok (w_db w)" and "faults (w_db w) = []" and "0 \<le> n"
  shows "on_db (DeliveryStore_ClaimReady n lease) w =
    (Inr (map (\<lambda>d. scanDelivery (claimed_row lease (now_ts (w_db w)) d)) (claim_batch (nat n) (w_db w))),
     w\<lparr>w_db := claimed_db (nat n) lease (w_db w)\<rparr>)"
  using assms by (simp add: on_db_def ClaimReady_eq db_ok_schema claimed_db_def)

text \<open>Whatever the broker does, the tick of a scheduler without circuit breaker leaves the
  claimed database.\<close>

lemma tick_db:
  assumes "db_ok (w_db w)" and "faults (w_db w) = []" and "0 < n" and "0 < l"
  shows "w_db (snd (Scheduler_Tick uuid_text (scheduler_config None n l) now w)) =
    claimed_db (nat n) (now + l) (w_db w)"
proof -
  let ?ds = "map (\<lambda>d. scanDelivery (claimed_row (now + l) (now_ts (w_db w)) d)) (claim_batch (nat n) (w_db w))"
  let ?w1 = "w\<lparr>w_db := claimed_db (nat n) (now + l) (w_db w)\<rparr>"
  have "Scheduler_Tick uuid_text (scheduler_config None n l) now w =
      bindP (publish_all uuid_text Publisher_Publish ?ds)
        (\<lambda>_. count_claimed (Some (\<lambda>n. w_claimed_update (\<lambda>c. c + n))) (int (length ?ds))) ?w1"
    using claim_on_db [OF assms(1,2), of n "now + l"] assms(3,4)
    by (simp add: Scheduler_Tick_def bindP_def map_errP_def)
  then show ?thesis
    using publish_all_db [of uuid_text ?ds ?w1]
    by (auto simp: bindP_def count_claimed_def split: prod.splits sum.splits)
qed

section \<open>Recovery of leases\<close>

definition reaped_db :: "db \<Rightarrow> db" where
  "reaped_db s = s\<lparr>deliveries := upd_where (lease_expired (now_ts s)) (resurrected_row (now_ts s)) (deliveries s),
     idempotency_records := del_where (\<lambda>i. ir_expires_at i < now_ts s) (idempotency_records s)\<rparr>"

lemma Resurrect_eq:
  assumes "schema_ok s" and "faults s = []"
  shows "DeliveryStore_ResurrectExpiredLeases s =
    (Inr (int (length (filter (lease_expired (now_ts s)) (deliveries s)))),
     s\<lparr>deliveries := upd_where (lease_expired (now_ts s)) (resurrected_row (now_ts s)) (deliveries s)\<rparr>)"
  using assms
  by (simp add: DeliveryStore_ResurrectExpiredLeases_def map_errP_def)
    (subst update_deliveries_ok, auto simp: lease_expired_def active_replay_def resurrected_row_def)

lemma reaper_eq:
  assumes "db_ok (w_db w)" and "faults (w_db w) = []"
  shows "Reaper_Tick (reaper_config t) w =
    (Inr (), w\<lparr>w_db := reaped_db (w_db w),
       w_resurrected := w_resurrected w + int (length (filter (lease_expired (now_ts (w_db w))) (deliveries (w_db w))))\<rparr>)"
proof -
  let ?n = "int (length (filter (lease_expired (now_ts (w_db w))) (deliveries (w_db w))))"
  have count: "count_claimed (Some (\<lambda>n. w_resurrected_update (\<lambda>c. c + n))) ?n v =
      (Inr (), v\<lparr>w_resurrected := w_resurrected v + ?n\<rparr>)" for v
    by (cases "?n > 0") (auto simp: count_claimed_def)
  show ?thesis
    using assms
    by (simp add: Reaper_Tick_def bindP_def map_errP_def on_db_def Resurrect_eq db_ok_schema count
        DeliveryStore_PurgeExpiredIdempotencyRecords_def reaped_db_def Let_def)
qed

section \<open>Orphaned half open circuits\<close>

definition orphans :: "db \<Rightarrow> uuid set" where
  "orphans s = er_id ` {e \<in> set (endpoints s). er_circuit_state e = CircuitHalfOpen \<and> er_probe_delivery_id e = None}"

definition calm :: "db \<Rightarrow> bool" where
  "calm s \<longleftrightarrow> db_ok s \<and> faults s = []"

lemma update_endpoints_keeps_faults [simp]: "faults (snd (update_endpoints p f s)) = faults s"
  by (simp add: update_endpoints_def Let_def)

lemma update_deliveries_keeps [simp]:
  "faults (snd (update_deliveries p f s)) = faults s" "endpoints (snd (update_deliveries p f s)) = endpoints s"
  by (simp_all add: update_deliveries_def Let_def)

lemma in_orphans:
  "j \<in> orphans s \<longleftrightarrow>
     (\<exists>e \<in> set (endpoints s). er_id e = j \<and> er_circuit_state e = CircuitHalfOpen \<and> er_probe_delivery_id e = None)"
  by (auto simp: orphans_def)

lemma orphans_closed:
  "orphans (s\<lparr>endpoints := upd_where (half_open_at i) close_empty_row (endpoints s)\<rparr>) = orphans s - {i}"
  by (rule set_eqI, simp add: in_orphans bex_upd_where half_open_at_def close_empty_row_def) blast

lemma orphans_probed:
  "orphans (s\<lparr>endpoints := upd_where (half_open_at i) (er_probe_delivery_id_update (\<lambda>_. Some d)) (endpoints s)\<rparr>) = orphans s - {i}"
  by (rule set_eqI, simp add: in_orphans bex_upd_where half_open_at_def) blast

lemma orphans_cong: "endpoints s' = endpoints s \<Longrightarrow> orphans s' = orphans s"
  by (simp add: orphans_def)

lemma oldest_is_delivery: "oldest_open_delivery i s = Some d \<Longrightarrow> d \<in> delivery_ids s"
proof -
  assume "oldest_open_delivery i s = Some d"
  then obtain r rs where r: "sort_key dr_created_at (open_deliveries i s) = r # rs" "dr_id r = d"
    by (auto simp: oldest_open_delivery_def split: list.splits)
  from r(1) have "r \<in> set (open_deliveries i s)" by (metis list.set_intros(1) set_sort)
  with r(2) show "d \<in> delivery_ids s" by (auto simp: open_deliveries_def)
qed

lemma SetProbe_orphans:
  assumes "calm s"
  shows "calm (snd (CircuitStore_SetProbeDelivery i s)) \<and>
    orphans (snd (CircuitStore_SetProbeDelivery i s)) = orphans s - {i}"
proof -
  have f: "faults s = []" and sch: "schema_ok s" using assms by (auto simp: calm_def db_ok_schema)
  have ok: "db_ok (snd (CircuitStore_SetProbeDelivery i s))"
    using preservesD [OF SetProbeDelivery_preserves] assms by (auto simp: calm_def)
  show ?thesis
  proof (cases "oldest_open_delivery i s")
    case None
    have "update_endpoints (half_open_at i) close_empty_row s =
        (Inr (int (length (filter (half_open_at i) (endpoints s)))),
         s\<lparr>endpoints := upd_where (half_open_at i) close_empty_row (endpoints s)\<rparr>)"
      by (rule update_endpoints_ok [OF sch]) (simp add: close_empty_row_def)
    with None f have "snd (CircuitStore_SetProbeDelivery i s) =
        s\<lparr>endpoints := upd_where (half_open_at i) close_empty_row (endpoints s)\<rparr>"
      by (simp add: CircuitStore_SetProbeDelivery_def tryP_def bindP_def)
    with ok f show ?thesis by (simp add: calm_def orphans_closed)
  next
    case (Some d)
    let ?s1 = "s\<lparr>endpoints := upd_where (half_open_at i) (er_probe_delivery_id_update (\<lambda>_. Some d)) (endpoints s)\<rparr>"
    have "probe_refs_ok s (endpoints ?s1)"
      using sch oldest_is_delivery [OF Some] by (auto simp: probe_refs_ok_iff ball_upd_where schema_defs)
    then have upd: "update_endpoints (half_open_at i) (er_probe_delivery_id_update (\<lambda>_. Some d)) s =
        (Inr (int (length (filter (half_open_at i) (endpoints s)))), ?s1)"
      by (simp add: update_endpoints_def Let_def)
    let ?upd = "update_deliveries (\<lambda>r. dr_id r = d \<and> dr_next_attempt_at r > now_ts ?s1)
        (dr_next_attempt_at_update (\<lambda>_. now_ts ?s1)) ?s1"
    have "snd (CircuitStore_SetProbeDelivery i s) = snd ?upd"
      using Some f upd
      by (auto simp: CircuitStore_SetProbeDelivery_def tryP_def bindP_def map_errP_def split: prod.splits sum.splits)
    moreover have "orphans (snd ?upd) = orphans ?s1" by (rule orphans_cong) simp
    ultimately show ?thesis using ok f orphans_probed [of i d s] by (simp add: calm_def)
  qed
qed

lemma set_probes_orphans:
  "calm (w_db w) \<Longrightarrow> calm (w_db (snd (set_probes circuit_store ids w))) \<and>
     orphans (w_db (snd (set_probes circuit_store ids w))) = orphans (w_db w) - set ids"
proof (induction ids arbitrary: w)
  case (Cons i ids)
  let ?w1 = "snd (on_db (CircuitStore_SetProbeDelivery i) w)"
  have db: "w_db ?w1 = snd (CircuitStore_SetProbeDelivery i (w_db w))"
    by (simp add: on_db_def split: prod.splits)
  with SetProbe_orphans [OF Cons.prems, of i] have "calm (w_db ?w1)" "orphans (w_db ?w1) = orphans (w_db w) - {i}"
    by simp_all
  with Cons.IH [of ?w1] show ?case by (auto simp: set_probes_def circuit_store_def)
qed (simp add: set_probes_def)

lemma recover_orphans_done:
  assumes "calm (w_db w)"
  shows "calm (w_db (snd (recover_orphans circuit_store w))) \<and> orphans (w_db (snd (recover_orphans circuit_store w))) = {}"
proof -
  let ?ids = "map er_id (filter (\<lambda>e. er_circuit_state e = CircuitHalfOpen \<and> er_probe_delivery_id e = None) (endpoints (w_db w)))"
  have "sk_Orphaned circuit_store w = (Inr ?ids, w)"
    using assms by (simp add: circuit_store_def on_db_def CircuitStore_OrphanedHalfOpenEndpoints_def map_errP_def calm_def)
  moreover have "orphans (w_db w) - set ?ids = {}" by (auto simp: orphans_def)
  ultimately show ?thesis
    using set_probes_orphans [OF assms, of ?ids] by (simp add: recover_orphans_def tryP_def)
qed

lemma expire_suspensions_done:
  assumes "calm (w_db w)" and "orphans (w_db w) = {}"
  shows "calm (w_db (snd (expire_suspensions circuit_store w))) \<and> orphans (w_db (snd (expire_suspensions circuit_store w))) = {}"
proof -
  define s where "s = w_db w"
  define s1 where "s1 = s\<lparr>endpoints := upd_where (suspension_expired (now_ts s)) (expired_row s) (endpoints s)\<rparr>"
  define upd where "upd = map (expired_row s) (filter (suspension_expired (now_ts s)) (endpoints s))"
  define half where "half = map er_id (filter (\<lambda>e. er_circuit_state e = CircuitHalfOpen) upd)"
  have f: "faults s = []" and sch: "schema_ok s" using assms(1) by (auto simp: calm_def db_ok_schema s_def)
  have "update_endpoints (suspension_expired (now_ts s)) (expired_row s) s =
      (Inr (int (length (filter (suspension_expired (now_ts s)) (endpoints s)))), s1)"
    unfolding s1_def by (rule update_endpoints_ok [OF sch]) (simp add: expired_row_def)
  then have run: "CircuitStore_ProcessExpiredSuspensions s =
      (Inr (half, map er_id (filter (\<lambda>e. er_circuit_state e = CircuitClosed) upd)), s1)"
    using f by (simp add: CircuitStore_ProcessExpiredSuspensions_def map_errP_def bindP_def Let_def half_def upd_def)
  have "calm s1"
    using preservesD_eq [OF ProcessExpiredSuspensions_preserves _ run] assms(1) f
    by (simp add: calm_def s_def s1_def)
  moreover have "orphans s1 \<subseteq> set half"
    using assms(2) unfolding orphans_def s1_def half_def upd_def s_def
    by (force simp: set_upd_where split: if_splits)
  moreover have "sk_ProcessExpired circuit_store w =
      (Inr (half, map er_id (filter (\<lambda>e. er_circuit_state e = CircuitClosed) upd)), w\<lparr>w_db := s1\<rparr>)"
    using run by (simp add: circuit_store_def on_db_def s_def)
  ultimately show ?thesis
    using set_probes_orphans [of "w\<lparr>w_db := s1\<rparr>" half] by (auto simp: expire_suspensions_def tryP_def)
qed

section \<open>A tick that succeeds\<close>

lemma publish_claimed:
  assumes "db_ok (w_db w)" and "faults (w_db w) = []" and "w_acks w = []" and "0 < n"
  shows "bindP (map_errP (Wrap ''claim ready'') (on_db (DeliveryStore_ClaimReady n l)))
      (\<lambda>ds. bindP (publish_all enc Publisher_Publish ds) (\<lambda>_. count_claimed (Some (\<lambda>n. w_claimed_update (\<lambda>c. c + n))) (int (length ds)))) w =
    (Inr (), w\<lparr>w_db := claimed_db (nat n) l (w_db w),
       w_topic := w_topic w @ map (delivery_message enc) (claim_batch (nat n) (w_db w)),
       w_claimed := w_claimed w + int (length (claim_batch (nat n) (w_db w)))\<rparr>)"
proof -
  let ?b = "claim_batch (nat n) (w_db w)"
  have msg: "\<lparr>m_Key = enc (d_EndpointID (scanDelivery (claimed_row u t d))),
      m_Value = kafka_json enc (d_ID (scanDelivery (claimed_row u t d))) (d_EndpointID (scanDelivery (claimed_row u t d)))\<rparr> =
      delivery_message enc d" for u t d
    by (simp add: delivery_message_def scanDelivery_def claimed_row_def)
  have count: "count_claimed (Some (\<lambda>n. w_claimed_update (\<lambda>c. c + n))) (int (length ?b)) v =
      (Inr (), v\<lparr>w_claimed := w_claimed v + int (length ?b)\<rparr>)" for v
    by (cases "?b = []") (auto simp: count_claimed_def)
  show ?thesis
    using claim_on_db [OF assms(1,2), of n l] assms(3,4)
    by (simp add: bindP_def map_errP_def publish_all_ok comp_def msg count)
qed

lemma tick_run:
  assumes "db_ok (w_db w)" and "faults (w_db w) = []" and "w_acks w = []" and "0 < n" and "0 < l"
  shows "Scheduler_Tick uuid_text (scheduler_config None n l) now w =
    (Inr (), w\<lparr>w_db := claimed_db (nat n) (now + l) (w_db w),
       w_topic := w_topic w @ map (delivery_message uuid_text) (claim_batch (nat n) (w_db w)),
       w_claimed := w_claimed w + int (length (claim_batch (nat n) (w_db w)))\<rparr>)"
  using publish_claimed [OF assms(1-4), of "now + l" uuid_text] assms(4,5)
  by (simp add: Scheduler_Tick_def bindP_Inr [where x = "()"])

section \<open>Properties\<close>


definition sample_world :: "db \<Rightarrow> world" where
  "sample_world s = \<lparr>w_db = s, w_topic = [], w_inbox = [], w_committed = [], w_acks = [], w_sent = [],
     w_claimed = 0, w_resurrected = 0\<rparr>"


text \<open>No claimed delivery is lost with its message: whatever the broker did during the tick
  (a failed write, an unknown outcome, a crash before the rest of the batch was published),
  the first reaper tick after the lease has run out makes the delivery scheduled again,
  due at once and with the attempts it had.\<close>

theorem unpublished_claim_recovered:
  assumes "db_ok (w_db w)" and "faults (w_db w) = []" and "0 < n" and "0 < l"
    and "d \<in> set (claim_batch (nat n) (w_db w))"
    and "w' = snd (Scheduler_Tick uuid_text (scheduler_config None n l) now w)"
    and "now + l < later" and "now_ts (w_db w) \<le> later"
    and "w'' = snd (Reaper_Tick (reaper_config t) (w'\<lparr>w_db := (w_db w')\<lparr>now_ts := later\<rparr>\<rparr>))"
  shows "\<exists>r \<in> set (deliveries (w_db w'')). dr_id r = dr_id d \<and> dr_status r = Scheduled \<and>
    dr_lease_until r = None \<and> dr_next_attempt_at r \<le> later \<and> dr_attempt_count r = dr_attempt_count d"
proof -
  let ?s = "w_db w"
  have db: "w_db w' = claimed_db (nat n) (now + l) ?s" using tick_db [OF assms(1-4)] assms(6) by simp
  have ok: "db_ok (w_db w')"
    using preservesD [OF Scheduler_Tick_preserves, of None w] assms(1,6) by simp
  have d: "d \<in> set (deliveries ?s)" "ready ?s d" using assms(5) set_claim_batch by blast+
  let ?c = "claimed_row (now + l) (now_ts ?s) d"
  have c: "?c \<in> set (deliveries (w_db w'))"
    using d(1) assms(5) by (force simp: db claimed_db_def set_upd_where)
  have fs: "faults (w_db w') = []" using assms(2) by (simp add: db claimed_db_def)
  have "w_db w'' = reaped_db ((w_db w')\<lparr>now_ts := later\<rparr>)"
    using reaper_eq [of "w'\<lparr>w_db := (w_db w')\<lparr>now_ts := later\<rparr>\<rparr>" t] ok fs assms(9) by simp
  moreover have "lease_expired later ?c" using assms(7) by (simp add: lease_expired_def claimed_row_def)
  ultimately have "resurrected_row later ?c \<in> set (deliveries (w_db w''))"
    using c by (force simp: reaped_db_def set_upd_where)
  moreover have "dr_next_attempt_at d \<le> now_ts ?s" using d(2) by (simp add: ready_def)
  ultimately show ?thesis
    using assms(8) by (intro bexI [of _ "resurrected_row later ?c"]) (auto simp: resurrected_row_def claimed_row_def)
qed

theorem unpublished_claim_recovered_witness:
  "\<exists>r \<in> set (deliveries (w_db (snd (Reaper_Tick (reaper_config 0)
      (let w' = snd (Scheduler_Tick (\<lambda>_. ''id'') (scheduler_config None 100 50) 1000
         ((sample_world sample_due_db)\<lparr>w_acks := [Some (0, ErrConn)]\<rparr>))
       in w'\<lparr>w_db := (w_db w')\<lparr>now_ts := 2000\<rparr>\<rparr>))))). dr_id r = 30 \<and> dr_status r = Scheduled"
proof -
  have "hd (deliveries sample_due_db) \<in> set (claim_batch (nat 100) sample_due_db)"
    by (simp add: sample_due_db_def sample_defs claim_batch_def ready_def blocks_def circuit_lets_through_def)
  then have "\<exists>r \<in> set (deliveries (w_db (snd (Reaper_Tick (reaper_config 0)
      (let w' = snd (Scheduler_Tick (\<lambda>_. ''id'') (scheduler_config None 100 50) 1000
         ((sample_world sample_due_db)\<lparr>w_acks := [Some (0, ErrConn)]\<rparr>))
       in w'\<lparr>w_db := (w_db w')\<lparr>now_ts := 2000\<rparr>\<rparr>))))). dr_id r = dr_id (hd (deliveries sample_due_db)) \<and>
      dr_status r = Scheduled \<and> dr_lease_until r = None \<and> dr_next_attempt_at r \<le> 2000 \<and>
      dr_attempt_count r = dr_attempt_count (hd (deliveries sample_due_db))"
    unfolding Let_def
    by (intro unpublished_claim_recovered [where l = 50 and now = 1000 and n = 100 and uuid_text = "\<lambda>_. ''id''" and
          w = "(sample_world sample_due_db)\<lparr>w_acks := [Some (0, ErrConn)]\<rparr>", OF _ _ _ _ _ refl _ _ refl])
      (simp_all add: sample_world_def sample_due_db_ok, simp_all add: sample_due_db_def sample_db_def)
  moreover have "dr_id (hd (deliveries sample_due_db)) = 30"
    by (simp add: sample_due_db_def sample_running_def)
  ultimately show ?thesis by auto
qed

text \<open>C16. A reaper tick returns exactly the deliveries whose lease has run out to the schedule,
  without counting an attempt, deletes exactly the expired idempotency records, and counts
  what it recovered; afterwards no lease is in the past.\<close>

theorem reaper_tick_effect:
  assumes "db_ok (w_db w)" and "faults (w_db w) = []"
  shows "Reaper_Tick (reaper_config t) w =
    (Inr (), w\<lparr>w_db := reaped_db (w_db w),
       w_resurrected := w_resurrected w + int (length (filter (lease_expired (now_ts (w_db w))) (deliveries (w_db w))))\<rparr>) \<and>
    (\<forall>d \<in> set (deliveries (reaped_db (w_db w))). \<not> lease_expired (now_ts (w_db w)) d) \<and>
    (\<forall>i \<in> set (idempotency_records (reaped_db (w_db w))). now_ts (w_db w) \<le> ir_expires_at i)"
proof (intro conjI)
  show "Reaper_Tick (reaper_config t) w =
    (Inr (), w\<lparr>w_db := reaped_db (w_db w),
       w_resurrected := w_resurrected w + int (length (filter (lease_expired (now_ts (w_db w))) (deliveries (w_db w))))\<rparr>)"
    using assms by (rule reaper_eq)
  show "\<forall>d \<in> set (deliveries (reaped_db (w_db w))). \<not> lease_expired (now_ts (w_db w)) d"
    by (simp add: reaped_db_def ball_upd_where) (simp add: lease_expired_def resurrected_row_def)
  show "\<forall>i \<in> set (idempotency_records (reaped_db (w_db w))). now_ts (w_db w) \<le> ir_expires_at i"
    by (auto simp: reaped_db_def del_where_def)
qed

theorem reaper_tick_effect_witness:
  "w_resurrected (snd (Reaper_Tick (reaper_config 0) (sample_world sample_db))) = 1"
  using reaper_tick_effect [of "sample_world sample_db" 0] sample_db_ok
  by (simp add: sample_world_def) (simp add: sample_defs lease_expired_def)

text \<open>After the circuit breaker steps of a tick no endpoint is half open without a probe: an
  endpoint whose probe was never recorded, because the scheduler crashed between the two
  statements, is given one or closed.\<close>

theorem circuit_steps_leave_no_orphans:
  assumes "db_ok (w_db w)" and "faults (w_db w) = []"
  shows "orphans (w_db (snd (bindP (recover_orphans circuit_store) (\<lambda>_. expire_suspensions circuit_store) w))) = {}"
proof -
  have c: "calm (w_db w)" using assms by (simp add: calm_def)
  obtain w1 where w1: "recover_orphans circuit_store w = (Inr (), w1)"
    using assms(2)
    by (simp add: recover_orphans_def tryP_def set_probes_def circuit_store_def on_db_def
        CircuitStore_OrphanedHalfOpenEndpoints_def map_errP_def)
  with recover_orphans_done [OF c] expire_suspensions_done [of w1] show ?thesis by (simp add: bindP_def)
qed

theorem circuit_steps_leave_no_orphans_witness:
  "orphans (w_db (snd (bindP (recover_orphans circuit_store) (\<lambda>_. expire_suspensions circuit_store) (sample_world sample_db)))) = {}"
  using sample_db_ok by (intro circuit_steps_leave_no_orphans) (simp_all add: sample_world_def)

end
