(* ===== verification/Signing.thy ===== *)
theory Signing
  imports Go_Crypto
begin

text \<open>
  \<open>internal/signing/signer.go\<close>: the signature of one delivery attempt.

  The MAC is computed over the decimal timestamp, a dot and the body.  The lemmas show the
  shape of the signature and that the encoding of timestamp and body is unambiguous, so
  that two attempts can share a signature only through a collision of HMAC-SHA256 itself.
\<close>

definition signed_message :: "int \<Rightarrow> bytes \<Rightarrow> bytes" where
  "signed_message ts body = FormatInt ts @ ''.'' @ body"

definition Sign :: "bytes \<Rightarrow> int \<Rightarrow> bytes \<Rightarrow> string" where
  "Sign secret ts body = hex_encode (hmac_sha256 secret (signed_message ts body))"

lemma append_sep_inj:
  assumes "x \<notin> set as" and "x \<notin> set bs" and "as @ x # cs = bs @ x # ds"
  shows "as = bs \<and> cs = ds"
  using assms
proof (induction as arbitrary: bs)
  case Nil
  then show ?case by (cases bs) auto
next
  case (Cons a as)
  then show ?case by (cases bs) auto
qed

lemma signed_message_inj:
  "signed_message ts body = signed_message ts' body' \<Longrightarrow> ts = ts' \<and> body = body'"
  using append_sep_inj [of "CHR ''.''" "FormatInt ts" "FormatInt ts'" body body']
  by (auto simp: signed_message_def dot_notin_FormatInt dest: FormatInt_inj)

lemma Sign_eq_iff:
  "Sign secret ts body = Sign secret' ts' body' \<longleftrightarrow>
     hmac_sha256 secret (signed_message ts body) = hmac_sha256 secret' (signed_message ts' body')"
  by (auto simp: Sign_def dest: hex_encode_inj)

text \<open>The verification procedure of \<open>docs/api-reference.md\<close> hashes the body first.\<close>

definition documented_message :: "int \<Rightarrow> bytes \<Rightarrow> bytes" where
  "documented_message ts body = FormatInt ts @ ''.'' @ hex_encode (sha256 body)"

text \<open>A signature is 64 lower case hexadecimal digits, for every secret (empty or longer
  than the hash's block included), timestamp and body.\<close>

theorem signature_format:
  "length (Sign secret ts body) = 64 \<and> list_all is_lower_hex (Sign secret ts body)"
  by (simp add: Sign_def length_hex_encode length_hmac_sha256 hex_encode_lower)

text \<open>C35. The signed message determines the attempt: if two attempts signed with the same
  secret carry the same signature, then they have the same timestamp and the same body, or
  their two different messages are a collision of HMAC-SHA256 under that secret.  No pair of
  a timestamp and a body can be re-read as another pair.\<close>

theorem signature_binds_timestamp_and_body:
  assumes "Sign secret ts body = Sign secret ts' body'"
  shows "(ts = ts' \<and> body = body') \<or>
    (\<exists>m m'. m \<noteq> m' \<and> m = signed_message ts body \<and> m' = signed_message ts' body' \<and>
       hmac_sha256 secret m = hmac_sha256 secret m')"
  using assms signed_message_inj [of ts body ts' body'] by (auto simp: Sign_eq_iff)

theorem signature_binds_timestamp_and_body_witness:
  "(1 = (1::int) \<and> ''{}'' = ''{}'') \<or>
    (\<exists>m m'. m \<noteq> m' \<and> m = signed_message 1 ''{}'' \<and> m' = signed_message 1 ''{}'' \<and>
       hmac_sha256 ''k'' m = hmac_sha256 ''k'' m')"
  by (rule signature_binds_timestamp_and_body [of "''k''" 1 "''{}''" 1 "''{}''"]) (rule refl)

text \<open>A receiver that follows the procedure of the API reference, which puts the
  hexadecimal SHA-256 of the body after the dot, authenticates another message than the
  program signs, whenever the body is not 64 bytes long.\<close>

theorem documented_message_differs:
  assumes "length body \<noteq> 64"
  shows "documented_message ts body \<noteq> signed_message ts body"
proof -
  have "length (hex_encode (sha256 body)) = 64" by (simp add: length_hex_encode length_sha256)
  with assms show ?thesis by (auto simp: documented_message_def signed_message_def)
qed

theorem documented_message_differs_witness:
  "length ''{}'' \<noteq> 64 \<and> documented_message 1 ''{}'' \<noteq> signed_message 1 ''{}''"
  using documented_message_differs [of "''{}''" 1] by simp

end
