(* ===== verification/Worker.thy ===== *)
theory Worker
  imports Scheduler Signing
begin

text \<open>
  The package \<open>internal/delivery\<close>: \<open>outcome.go\<close> (classification), \<open>http_client.go\<close>
  (the client and its redirect policy) and \<open>worker.go\<close> (one delivery attempt from the
  message to the recorded result).

  The peer of the HTTP exchange and \<open>json.Unmarshal\<close> of the message are parameters; the
  clock readings and the random numbers of one attempt are the record \<open>clock\<close>.
\<close>

section \<open>Classification\<close>

text \<open>A transport error: its text, what the first error of its chain with a \<open>Timeout\<close> method
  answers, and whether the chain contains \<open>context.DeadlineExceeded\<close>.\<close>

record http_error =
  he_Text :: string
  he_Timeout :: "bool option"
  he_Deadline :: bool

datatype http_result = Response int | TransportError http_error

definition isDeadline :: "http_error \<Rightarrow> bool" where
  "isDeadline e = (if he_Timeout e = Some True then True else he_Deadline e)"

definition Classify :: "http_result \<Rightarrow> AttemptOutcome" where
  "Classify res =
     (case res of
        TransportError e \<Rightarrow> if isDeadline e then OutcomeTimeout else OutcomeTransientFailure
      | Response code \<Rightarrow>
          if code \<ge> 200 \<and> code < 400 then OutcomeSuccess
          else if code = 429 then OutcomeTransientFailure
          else if code \<ge> 400 \<and> code < 500 then OutcomePermanentFailure
          else OutcomeTransientFailure)"

section \<open>The HTTP client\<close>

datatype redirect_policy = UseLastResponse | Follow

record http_client =
  hc_Timeout :: duration
  hc_CheckRedirect :: "nat \<Rightarrow> redirect_policy"

text \<open>The argument of the policy is \<open>len(via)\<close>.\<close>

definition NewHTTPClient :: http_client where
  "NewHTTPClient = \<lparr>hc_Timeout = 30 * second,
     hc_CheckRedirect = (\<lambda>n. if n \<ge> 1 then UseLastResponse else Follow)\<rparr>"

text \<open>\<open>Client.Do\<close> of \<open>net/http\<close>: send the request; when the answer is a redirect, ask the
  policy with the requests made so far, and follow or return the answer.  \<open>next\<close> builds the
  next request of a redirect, or nothing when the answer is not one.  Nothing bounds the loop
  but the policy.\<close>

partial_function (option) client_do ::
  "http_client \<Rightarrow> (http_request \<Rightarrow> http_result) \<Rightarrow> (http_request \<Rightarrow> int \<Rightarrow> http_request option) \<Rightarrow> nat \<Rightarrow>
   http_request \<Rightarrow> http_request list \<Rightarrow> (http_result \<times> http_request list) option" where
  "client_do client send next via req sent =
     (case send req of
        TransportError e \<Rightarrow> Some (TransportError e, sent @ [req])
      | Response code \<Rightarrow>
          (case next req code of
             None \<Rightarrow> Some (Response code, sent @ [req])
           | Some req' \<Rightarrow>
               (case hc_CheckRedirect client (Suc via) of
                  UseLastResponse \<Rightarrow> Some (Response code, sent @ [req])
                | Follow \<Rightarrow> client_do client send next (Suc via) req' (sent @ [req]))))"

lemma NewHTTPClient_do: "client_do NewHTTPClient send next 0 req sent = Some (send req, sent @ [req])"
  by (subst client_do.simps)
    (auto simp: NewHTTPClient_def split: http_result.splits option.splits)

section \<open>The worker\<close>

record 's WorkerCircuitStore =
  wc_HandleSuccess :: "uuid \<Rightarrow> (err, 's, unit) prog"
  wc_HandleTransientFailure :: "uuid \<Rightarrow> CircuitConfig \<Rightarrow> (err, 's, unit) prog"
  wc_HandleProbePermanentFailure :: "uuid \<Rightarrow> CircuitConfig \<Rightarrow> (err, 's, unit) prog"

text \<open>What the worker adds to the collectors: an attempt with its duration, the streak of failures
  of an endpoint set to zero or incremented.\<close>

record 's WorkerMetrics =
  wm_Attempt :: "uuid \<Rightarrow> AttemptOutcome \<Rightarrow> 's \<Rightarrow> 's"
  wm_ClearStreak :: "uuid \<Rightarrow> 's \<Rightarrow> 's"
  wm_AddFailure :: "uuid \<Rightarrow> 's \<Rightarrow> 's"

record 's WorkerConfig =
  wk_LoadForWorker :: "uuid \<Rightarrow> (err, 's, WorkerDelivery) prog"
  wk_MarkDelivered :: "uuid \<Rightarrow> (err, 's, unit) prog"
  wk_MarkPermanentlyFailed :: "uuid \<Rightarrow> (err, 's, unit) prog"
  wk_Reschedule :: "uuid \<Rightarrow> instant \<Rightarrow> (err, 's, unit) prog"
  wk_InsertStarted :: "uuid \<Rightarrow> int \<Rightarrow> (err, 's, uuid) prog"
  wk_UpdateOutcome :: "uuid \<Rightarrow> AttemptOutcome \<Rightarrow> int option \<Rightarrow> string option \<Rightarrow> instant \<Rightarrow> (err, 's, unit) prog"
  wk_Fetch :: "(err, 's, message) prog"
  wk_Commit :: "message \<Rightarrow> (err, 's, unit) prog"
  wk_CircuitStore :: "'s WorkerCircuitStore option"
  wk_CircuitCfg :: CircuitConfig
  wk_Do :: "http_request \<Rightarrow> 's \<Rightarrow> http_result \<times> 's"
  wk_Metrics :: "'s WorkerMetrics option"

record clock =
  ck_Sign :: int
  ck_Done :: instant
  ck_Reschedule :: instant
  ck_Rand :: "int \<Rightarrow> int"

text \<open>Building the request fails exactly when the URL does not parse; then nothing is sent.\<close>

definition doHTTP ::
  "(string \<Rightarrow> string + parsed_url) \<Rightarrow> 's WorkerConfig \<Rightarrow> int \<Rightarrow> string \<Rightarrow> bytes \<Rightarrow> bytes \<Rightarrow> 's \<Rightarrow> http_result \<times> 's" where
  "doHTTP parse cfg ts url payload signingSecret s =
     (case parse url of
        Inl m \<Rightarrow> (TransportError \<lparr>he_Text = m, he_Timeout = None, he_Deadline = False\<rparr>, s)
      | Inr _ \<Rightarrow> wk_Do cfg \<lparr>rq_URL = url, rq_Body = payload, rq_ContentType = ''application/json'',
          rq_Timestamp = FormatInt ts, rq_Signature = Sign signingSecret ts payload\<rparr> s)"

text \<open>A call whose error is logged only.\<close>

definition ignore_err :: "(err, 's, unit) prog \<Rightarrow> (err, 's, unit) prog" where
  "ignore_err m = tryP m (\<lambda>_. returnP ()) returnP"

definition update_circuit ::
  "'s WorkerConfig \<Rightarrow> WorkerDelivery \<Rightarrow> AttemptOutcome \<Rightarrow> (err, 's, unit) prog" where
  "update_circuit cfg wd out =
     (let endpointID = d_EndpointID (wd_Delivery wd) in
      case wk_CircuitStore cfg of
        None \<Rightarrow> returnP ()
      | Some cs \<Rightarrow>
          if out = OutcomeSuccess then ignore_err (wc_HandleSuccess cs endpointID)
          else if out = OutcomePermanentFailure then
            if wd_EndpointCircuitState wd = ''half_open''
            then ignore_err (wc_HandleProbePermanentFailure cs endpointID (wk_CircuitCfg cfg))
            else returnP ()
          else ignore_err (wc_HandleTransientFailure cs endpointID (wk_CircuitCfg cfg)))"

definition record_metrics :: "'s WorkerConfig \<Rightarrow> ('s WorkerMetrics \<Rightarrow> 's \<Rightarrow> 's) \<Rightarrow> (err, 's, unit) prog" where
  "record_metrics cfg add s = (Inr (), case wk_Metrics cfg of None \<Rightarrow> s | Some m \<Rightarrow> add m s)"

definition finish_delivery ::
  "duration list \<Rightarrow> 's WorkerConfig \<Rightarrow> clock \<Rightarrow> uuid \<Rightarrow> uuid \<Rightarrow> int \<Rightarrow> AttemptOutcome \<Rightarrow> (err, 's, unit) prog" where
  "finish_delivery schedule cfg ck endpointID deliveryID attemptSeq out =
     (if out = OutcomeSuccess then
        bindP (record_metrics cfg (\<lambda>m. wm_ClearStreak m endpointID)) (\<lambda>_. wk_MarkDelivered cfg deliveryID)
      else if out = OutcomePermanentFailure then wk_MarkPermanentlyFailed cfg deliveryID
      else
        bindP (record_metrics cfg (\<lambda>m. wm_AddFailure m endpointID)) (\<lambda>_.
          if attemptSeq \<ge> MaxAttempts then wk_MarkPermanentlyFailed cfg deliveryID
          else wk_Reschedule cfg deliveryID (ck_Reschedule ck + Delay schedule (ck_Rand ck) (attemptSeq + 1))))"

definition status_code_of :: "http_result \<Rightarrow> int option" where
  "status_code_of res = (case res of Response c \<Rightarrow> Some c | TransportError _ \<Rightarrow> None)"

definition error_reason_of :: "http_result \<Rightarrow> string option" where
  "error_reason_of res = (case res of Response _ \<Rightarrow> None | TransportError e \<Rightarrow> Some (he_Text e))"

text \<open>\<open>process\<close>: the part after the answer is \<open>settle\<close>.\<close>

definition settle ::
  "duration list \<Rightarrow> 's WorkerConfig \<Rightarrow> clock \<Rightarrow> WorkerDelivery \<Rightarrow> uuid \<Rightarrow> uuid \<Rightarrow> int \<Rightarrow> http_result \<Rightarrow> (err, 's, unit) prog" where
  "settle schedule cfg ck wd deliveryID attemptID attemptSeq res =
     (let out = Classify res in
      bindP (ignore_err (wk_UpdateOutcome cfg attemptID out (status_code_of res) (error_reason_of res) (ck_Done ck))) (\<lambda>_.
      bindP (record_metrics cfg (\<lambda>m. wm_Attempt m (d_EndpointID (wd_Delivery wd)) out)) (\<lambda>_.
      bindP (update_circuit cfg wd out) (\<lambda>_.
        finish_delivery schedule cfg ck (d_EndpointID (wd_Delivery wd)) deliveryID attemptSeq out))))"

definition Worker_process ::
  "(string \<Rightarrow> string + parsed_url) \<Rightarrow> duration list \<Rightarrow> 's WorkerConfig \<Rightarrow> clock \<Rightarrow> uuid \<Rightarrow> (err, 's, unit) prog" where
  "Worker_process parse schedule cfg ck deliveryID =
     bindP (map_errP (Wrap ''load delivery'') (wk_LoadForWorker cfg deliveryID)) (\<lambda>wd.
       let attemptSeq = d_AttemptCount (wd_Delivery wd) + 1 in
       bindP (map_errP (Wrap ''insert attempt'') (wk_InsertStarted cfg deliveryID attemptSeq)) (\<lambda>attemptID s.
         case doHTTP parse cfg (ck_Sign ck) (wd_EndpointURL wd) (wd_Payload wd) (wd_SigningSecret wd) s of
           (res, s') \<Rightarrow> settle schedule cfg ck wd deliveryID attemptID attemptSeq res s'))"

text \<open>\<open>unmarshal\<close> reads the delivery id out of the message value.\<close>

definition Worker_ProcessOne ::
  "(string \<Rightarrow> string + parsed_url) \<Rightarrow> (bytes \<Rightarrow> err + uuid) \<Rightarrow> duration list \<Rightarrow> 's WorkerConfig \<Rightarrow> clock \<Rightarrow> (err, 's, unit) prog" where
  "Worker_ProcessOne parse unmarshal schedule cfg ck =
     bindP (map_errP (Wrap ''fetch message'') (wk_Fetch cfg)) (\<lambda>msg.
       case unmarshal (m_Value msg) of
         Inl e \<Rightarrow> bindP (ignore_err (wk_Commit cfg msg)) (\<lambda>_. failP (Wrap ''unmarshal kafka message'' e))
       | Inr deliveryID \<Rightarrow> bindP (Worker_process parse schedule cfg ck deliveryID) (\<lambda>_. wk_Commit cfg msg))"

section \<open>On the stores\<close>

definition worker_circuit_store :: "world WorkerCircuitStore" where
  "worker_circuit_store = \<lparr>wc_HandleSuccess = (\<lambda>i. on_db (CircuitStore_HandleSuccess i)),
     wc_HandleTransientFailure = (\<lambda>i c. on_db (CircuitStore_HandleTransientFailure i c)),
     wc_HandleProbePermanentFailure = (\<lambda>i c. on_db (CircuitStore_HandleProbePermanentFailure i c))\<rparr>"

text \<open>The client of the network: \<open>peer\<close> answers a request by the requests made before it.\<close>

definition http_do ::
  "http_client \<Rightarrow> (http_request list \<Rightarrow> http_request \<Rightarrow> http_result) \<Rightarrow> (http_request \<Rightarrow> int \<Rightarrow> http_request option) \<Rightarrow>
   http_request \<Rightarrow> world \<Rightarrow> http_result \<times> world" where
  "http_do client peer next req w =
     (case the (client_do client (peer (w_sent w)) next 0 req []) of
        (res, sent) \<Rightarrow> (res, w\<lparr>w_sent := w_sent w @ sent\<rparr>))"

lemma http_do_default:
  "http_do NewHTTPClient peer next req w = (peer (w_sent w) req, w\<lparr>w_sent := w_sent w @ [req]\<rparr>)"
  by (simp add: http_do_def NewHTTPClient_do)

text \<open>\<open>NewWorker\<close>: a nil client is replaced by the default one.\<close>

definition NewWorker ::
  "http_client option \<Rightarrow> world WorkerCircuitStore option \<Rightarrow> CircuitConfig \<Rightarrow>
   (http_request list \<Rightarrow> http_request \<Rightarrow> http_result) \<Rightarrow> (http_request \<Rightarrow> int \<Rightarrow> http_request option) \<Rightarrow> world WorkerConfig" where
  "NewWorker client cs circuitCfg peer next =
     \<lparr>wk_LoadForWorker = (\<lambda>i. on_db (DeliveryStore_LoadForWorker i)),
      wk_MarkDelivered = (\<lambda>i. on_db (DeliveryStore_MarkDelivered i)),
      wk_MarkPermanentlyFailed = (\<lambda>i. on_db (DeliveryStore_MarkPermanentlyFailed i)),
      wk_Reschedule = (\<lambda>i t. on_db (DeliveryStore_Reschedule i t)),
      wk_InsertStarted = (\<lambda>i n. on_db (AttemptStore_InsertStarted i n)),
      wk_UpdateOutcome = (\<lambda>i out c r t. on_db (AttemptStore_UpdateOutcome i out c r t)),
      wk_Fetch = Consumer_FetchMessage, wk_Commit = Consumer_Commit, wk_CircuitStore = cs,
      wk_CircuitCfg = circuitCfg,
      wk_Do = http_do (case client of None \<Rightarrow> NewHTTPClient | Some c \<Rightarrow> c) peer next, wk_Metrics = None\<rparr>"

section \<open>The attempt keeps the database invariant\<close>

lemma ignore_err_preserves [preserves_intros]: "preserves I m \<Longrightarrow> preserves I (ignore_err m)"
  unfolding ignore_err_def by (intro preserves_intros)

lemma http_do_db: "w_db (snd (http_do client peer next req w)) = w_db w"
  by (simp add: http_do_def split: prod.splits)

text \<open>An attempt keeps what every operation it is configured with keeps; up to the final mark only
  the operations of \<open>attempt_keeps\<close> run.\<close>

definition attempt_keeps :: "('s \<Rightarrow> bool) \<Rightarrow> 's WorkerConfig \<Rightarrow> bool" where
  "attempt_keeps I cfg \<longleftrightarrow>
     (\<forall>i. preserves I (wk_LoadForWorker cfg i)) \<and> (\<forall>i n. preserves I (wk_InsertStarted cfg i n)) \<and>
     (\<forall>i out c r t. preserves I (wk_UpdateOutcome cfg i out c r t)) \<and>
     (\<forall>cs i c. wk_CircuitStore cfg = Some cs \<longrightarrow> preserves I (wc_HandleSuccess cs i) \<and>
        preserves I (wc_HandleTransientFailure cs i c) \<and> preserves I (wc_HandleProbePermanentFailure cs i c)) \<and>
     (\<forall>req s. I s \<longrightarrow> I (snd (wk_Do cfg req s))) \<and>
     (\<forall>m e out s. wk_Metrics cfg = Some m \<longrightarrow> I s \<longrightarrow>
        I (wm_Attempt m e out s) \<and> I (wm_ClearStreak m e s) \<and> I (wm_AddFailure m e s))"

definition operations_keep :: "('s \<Rightarrow> bool) \<Rightarrow> 's WorkerConfig \<Rightarrow> bool" where
  "operations_keep I cfg \<longleftrightarrow> attempt_keeps I cfg \<and>
     (\<forall>i. preserves I (wk_MarkDelivered cfg i) \<and> preserves I (wk_MarkPermanentlyFailed cfg i)) \<and>
     (\<forall>i t. preserves I (wk_Reschedule cfg i t))"

lemma update_circuit_keeps: "attempt_keeps I cfg \<Longrightarrow> preserves I (update_circuit cfg wd out)"
proof (cases "wk_CircuitStore cfg")
  case None
  then show ?thesis by (simp add: update_circuit_def Let_def preserves_return)
next
  case (Some cs)
  moreover assume "attempt_keeps I cfg"
  ultimately have "preserves I (wc_HandleSuccess cs i)" "preserves I (wc_HandleTransientFailure cs i c)"
      "preserves I (wc_HandleProbePermanentFailure cs i c)" for i c
    by (simp_all add: attempt_keeps_def)
  then show ?thesis
    unfolding update_circuit_def Let_def Some option.case by (intro preserves_intros)
qed

lemma metrics_keep:
  "attempt_keeps I cfg \<Longrightarrow> preserves I (record_metrics cfg (\<lambda>m. wm_Attempt m e out))"
  "attempt_keeps I cfg \<Longrightarrow> preserves I (record_metrics cfg (\<lambda>m. wm_ClearStreak m e))"
  "attempt_keeps I cfg \<Longrightarrow> preserves I (record_metrics cfg (\<lambda>m. wm_AddFailure m e))"
  by (auto simp: attempt_keeps_def preserves_def record_metrics_def split: option.splits)

lemma finish_keeps: "operations_keep I cfg \<Longrightarrow> preserves I (finish_delivery schedule cfg ck e i n out)"
  unfolding finish_delivery_def operations_keep_def by (intro preserves_intros metrics_keep) auto

lemma no_metrics: "wk_Metrics cfg = None \<Longrightarrow> bindP (record_metrics cfg add) f = f ()"
  by (rule ext) (simp add: bindP_def record_metrics_def)

lemma doHTTP_keeps: "attempt_keeps I cfg \<Longrightarrow> I s \<Longrightarrow> I (snd (doHTTP parse cfg ts url body secret s))"
  by (auto simp: attempt_keeps_def doHTTP_def split: sum.splits)

text \<open>Where an attempt ends: before its final mark, or in the mark.\<close>

lemma ignore_err_run: "ignore_err m s = (Inr (), snd (m s))"
  by (auto simp: ignore_err_def tryP_def split: prod.splits sum.splits)

lemma settle_mark:
  assumes keep: "attempt_keeps I cfg" and "I s"
  shows "\<exists>out s1. I s1 \<and> settle schedule cfg ck wd i a n res s =
    finish_delivery schedule cfg ck (d_EndpointID (wd_Delivery wd)) i n out s1"
proof -
  let ?s1 = "snd (wk_UpdateOutcome cfg a (Classify res) (status_code_of res) (error_reason_of res) (ck_Done ck) s)"
  let ?s2 = "snd (record_metrics cfg (\<lambda>m. wm_Attempt m (d_EndpointID (wd_Delivery wd)) (Classify res)) ?s1)"
  let ?s3 = "snd (update_circuit cfg wd (Classify res) ?s2)"
  have "I ?s1" using keep \<open>I s\<close> by (simp add: attempt_keeps_def preservesD)
  then have "I ?s3" using preservesD [OF metrics_keep(1) [OF keep]] preservesD [OF update_circuit_keeps [OF keep]] by blast
  moreover have bind: "bindP m f t = f x (snd (m t))" if "fst (m t) = Inr x" for m f t and x :: 'x
    using that by (auto simp: bindP_def split: prod.splits)
  have "fst (update_circuit cfg wd (Classify res) t) = Inr ()" for t
    by (auto simp: update_circuit_def Let_def ignore_err_run split: option.splits)
  then have "settle schedule cfg ck wd i a n res s =
      finish_delivery schedule cfg ck (d_EndpointID (wd_Delivery wd)) i n (Classify res) ?s3"
    by (simp add: settle_def Let_def bind ignore_err_run record_metrics_def)
  ultimately show ?thesis by blast
qed

lemma process_mark:
  assumes keep: "attempt_keeps I cfg" and "I s"
  shows "I (snd (Worker_process parse schedule cfg ck i s)) \<or>
    (\<exists>wd out s1. fst (wk_LoadForWorker cfg i s) = Inr wd \<and> I s1 \<and> Worker_process parse schedule cfg ck i s =
       finish_delivery schedule cfg ck (d_EndpointID (wd_Delivery wd)) i (d_AttemptCount (wd_Delivery wd) + 1) out s1)"
proof -
  obtain r s1 where load: "wk_LoadForWorker cfg i s = (r, s1)" by fastforce
  have "preserves I (wk_LoadForWorker cfg i)" using keep by (simp add: attempt_keeps_def)
  from preservesD_eq [OF this \<open>I s\<close> load] have s1: "I s1" .
  show ?thesis
  proof (cases r)
    case (Inl e)
    with load s1 show ?thesis by (simp add: Worker_process_def bindP_def map_errP_def)
  next
    case (Inr wd)
    let ?n = "d_AttemptCount (wd_Delivery wd) + 1"
    obtain q s2 where ins: "wk_InsertStarted cfg i ?n s1 = (q, s2)" by fastforce
    have "preserves I (wk_InsertStarted cfg i ?n)" using keep by (simp add: attempt_keeps_def)
    from preservesD_eq [OF this s1 ins] have s2: "I s2" .
    obtain res s3 where http: "doHTTP parse cfg (ck_Sign ck) (wd_EndpointURL wd) (wd_Payload wd) (wd_SigningSecret wd) s2 = (res, s3)"
      by fastforce
    with doHTTP_keeps [OF keep s2, of parse "ck_Sign ck" "wd_EndpointURL wd" "wd_Payload wd" "wd_SigningSecret wd"]
    have s3: "I s3" by simp
    show ?thesis
    proof (cases q)
      case (Inl e)
      with load ins s2 \<open>r = Inr wd\<close> show ?thesis by (simp add: Worker_process_def bindP_def map_errP_def Let_def)
    next
      case (Inr a)
      have "Worker_process parse schedule cfg ck i s = settle schedule cfg ck wd i a ?n res s3"
        using load ins http \<open>r = Inr wd\<close> Inr by (simp add: Worker_process_def bindP_def map_errP_def Let_def)
      with settle_mark [OF keep s3] load \<open>r = Inr wd\<close> show ?thesis by (metis fst_conv)
    qed
  qed
qed

lemma process_keeps:
  assumes "operations_keep I cfg"
  shows "preserves I (Worker_process parse schedule cfg ck i)"
proof (rule preservesI)
  fix s assume "I s"
  have "attempt_keeps I cfg" using assms by (simp add: operations_keep_def)
  from process_mark [OF this \<open>I s\<close>, of parse schedule ck i]
  show "I (snd (Worker_process parse schedule cfg ck i s))"
    using preservesD [OF finish_keeps [OF assms]] by fastforce
qed

lemma NewWorker_keeps_db_ok:
  "cs = None \<or> cs = Some worker_circuit_store \<Longrightarrow> operations_keep world_ok (NewWorker client cs ccfg peer next)"
  by (auto simp: operations_keep_def attempt_keeps_def NewWorker_def http_do_db worker_circuit_store_def
      intro!: preserves_intros)

lemma on_db_committed: "preserves (\<lambda>w. w_committed w = c) (on_db m)"
  by (simp add: preserves_def on_db_def split: prod.splits)

lemma NewWorker_keeps_committed:
  "cs = None \<or> cs = Some worker_circuit_store \<Longrightarrow>
   operations_keep (\<lambda>w. w_committed w = c) (NewWorker client cs ccfg peer next)"
  by (auto simp: operations_keep_def attempt_keeps_def NewWorker_def on_db_committed worker_circuit_store_def http_do_def
      split: prod.splits)

lemmas process_preserves = process_keeps [OF NewWorker_keeps_db_ok]
lemmas process_committed = process_keeps [OF NewWorker_keeps_committed]
lemma update_circuit_preserves:
  "cs = None \<or> cs = Some worker_circuit_store \<Longrightarrow> preserves world_ok (update_circuit (NewWorker client cs ccfg peer next) wd out)"
  using NewWorker_keeps_db_ok by (intro update_circuit_keeps) (simp add: operations_keep_def)

section \<open>What an attempt does\<close>

definition started_attempt :: "uuid \<Rightarrow> int \<Rightarrow> db \<Rightarrow> attempt_row" where
  "started_attempt i n s = \<lparr>ar_id = uuid_src s (uuid_pos s), ar_delivery_id = i, ar_sequence = n,
     ar_started_at = now_ts s, ar_completed_at = None, ar_response_status_code = None,
     ar_outcome = OutcomeTransientFailure, ar_error_reason = None\<rparr>"

definition settled_row :: "duration list \<Rightarrow> clock \<Rightarrow> AttemptOutcome \<Rightarrow> instant \<Rightarrow> delivery_row \<Rightarrow> delivery_row" where
  "settled_row schedule ck out now d =
     (if out = OutcomeSuccess then delivered_row now d
      else if out = OutcomePermanentFailure \<or> dr_attempt_count d + 1 \<ge> MaxAttempts then failed_row now d
      else rescheduled_row (ck_Reschedule ck + Delay schedule (ck_Rand ck) (dr_attempt_count d + 2)) now d)"

definition settled_endpoints ::
  "'s WorkerCircuitStore option \<Rightarrow> CircuitConfig \<Rightarrow> AttemptOutcome \<Rightarrow> uuid \<Rightarrow> string \<Rightarrow> instant \<Rightarrow> endpoint_row list \<Rightarrow> endpoint_row list" where
  "settled_endpoints cs cfg out e state now rows =
     (if cs = None then rows
      else if out = OutcomeSuccess then upd_where (circuit_accepts e) success_row rows
      else if out = OutcomePermanentFailure
      then if state = ''half_open'' then upd_where (half_open_at e) (probe_failed_row cfg now) rows else rows
      else upd_where (circuit_accepts e) (transient_row cfg now) rows)"

definition signed_request :: "clock \<Rightarrow> WorkerDelivery \<Rightarrow> http_request" where
  "signed_request ck wd = \<lparr>rq_URL = wd_EndpointURL wd, rq_Body = wd_Payload wd,
     rq_ContentType = ''application/json'', rq_Timestamp = FormatInt (ck_Sign ck),
     rq_Signature = Sign (wd_SigningSecret wd) (ck_Sign ck) (wd_Payload wd)\<rparr>"

lemma InsertStarted_new:
  assumes "faults s = []" and "uuid_src s (uuid_pos s) \<notin> used_keys s" and "i \<in> delivery_ids s"
    and "\<forall>a \<in> set (attempts s). \<not> (ar_delivery_id a = i \<and> ar_sequence a = n)"
  shows "AttemptStore_InsertStarted i n s = (Inr (ar_id (started_attempt i n s)),
    s\<lparr>uuid_pos := Suc (uuid_pos s), attempts := attempts s @ [started_attempt i n s]\<rparr>)"
proof -
  have "(i, n) \<notin> (\<lambda>a. (ar_delivery_id a, ar_sequence a)) ` set (attempts s)" using assms(4) by auto
  then have "check_attempt (s\<lparr>uuid_pos := Suc (uuid_pos s)\<rparr>) (started_attempt i n s) = None"
    using assms(2,3) by (auto simp: check_attempt_def started_attempt_def used_keys_def)
  with assms(1) show ?thesis
    by (simp add: AttemptStore_InsertStarted_def bindP_def insert_attempt_def insert_row_def Let_def started_attempt_def)
qed

lemma InsertStarted_duplicate:
  assumes "faults s = []" and "a \<in> set (attempts s)" and "ar_delivery_id a = i" and "ar_sequence a = n"
  shows "AttemptStore_InsertStarted i n s = (Inl (PgError unique_violation), s\<lparr>uuid_pos := Suc (uuid_pos s)\<rparr>)"
proof -
  have "(i, n) \<in> (\<lambda>a. (ar_delivery_id a, ar_sequence a)) ` set (attempts s)" using assms by force
  then have "check_attempt (s\<lparr>uuid_pos := Suc (uuid_pos s)\<rparr>) (started_attempt i n s) = Some unique_violation"
    by (simp add: check_attempt_def started_attempt_def)
  with assms(1) show ?thesis
    by (simp add: AttemptStore_InsertStarted_def bindP_def insert_attempt_def insert_row_def Let_def started_attempt_def)
qed

lemma UpdateOutcome_last:
  assumes "faults s = []" and "attempts s = old @ [a]" and "ar_id a \<notin> ar_id ` set old"
  shows "AttemptStore_UpdateOutcome (ar_id a) out code reason t s =
    (Inr (), s\<lparr>attempts := old @ [outcome_row out t code reason a]\<rparr>)"
proof -
  have "upd_where (\<lambda>b. ar_id b = ar_id a) (outcome_row out t code reason) (attempts s) =
      upd_where (\<lambda>b. ar_id b = ar_id a) (outcome_row out t code reason) old @ [outcome_row out t code reason a]"
    by (simp add: assms(2) upd_where_def)
  moreover have "upd_where (\<lambda>b. ar_id b = ar_id a) (outcome_row out t code reason) old = old"
    using assms(3) by (intro upd_where_none) (auto simp: image_iff)
  ultimately show ?thesis using assms(1) by (simp add: AttemptStore_UpdateOutcome_def)
qed

lemma LoadForWorker_row:
  "faults s = [] \<Longrightarrow> worker_row i s = Some wd \<Longrightarrow> DeliveryStore_LoadForWorker i s = (Inr wd, s)"
  by (simp add: DeliveryStore_LoadForWorker_def tryP_def)

lemma update_circuit_run:
  assumes "db_ok (w_db w)" and "faults (w_db w) = []" and "cs = None \<or> cs = Some worker_circuit_store"
  shows "update_circuit (NewWorker client cs ccfg peer next) wd out w =
    (Inr (), w\<lparr>w_db := (w_db w)\<lparr>endpoints := settled_endpoints cs ccfg out (d_EndpointID (wd_Delivery wd))
        (wd_EndpointCircuitState wd) (now_ts (w_db w)) (endpoints (w_db w))\<rparr>\<rparr>)"
proof -
  note sch = db_ok_schema [OF assms(1)]
  note run = handler_eqs [OF sch assms(2)] on_db_def
  have same: "w\<lparr>w_db := (w_db w)\<lparr>endpoints := endpoints (w_db w)\<rparr>\<rparr> = w" by simp
  from assms(3) show ?thesis
    by (elim disjE) (cases out; simp add: update_circuit_def Let_def NewWorker_def settled_endpoints_def
        worker_circuit_store_def ignore_err_def tryP_def run same)+
qed

lemma finish_run:
  assumes "schema_ok (w_db w)" and "faults (w_db w) = []" and "row_by dr_id i (deliveries (w_db w)) = Some d"
    and "terminal (dr_status d) \<longrightarrow> dr_source_delivery_id d = None"
  shows "finish_delivery schedule (NewWorker client cs ccfg peer next) ck e i (dr_attempt_count d + 1) out w =
    (Inr (), w\<lparr>w_db := (w_db w)\<lparr>deliveries := upd_where (\<lambda>r. dr_id r = i)
       (\<lambda>r. settled_row schedule ck out (now_ts (w_db w)) d) (deliveries (w_db w))\<rparr>\<rparr>)"
proof -
  have only: "r = d" if "r \<in> set (deliveries (w_db w))" "dr_id r = i" for r
    using that assms(1,3) row_by_unique [of dr_id "deliveries (w_db w)" r] by (simp add: schema_defs)
  have upd: "upd_where (\<lambda>r. dr_id r = i) f (deliveries (w_db w)) =
      upd_where (\<lambda>r. dr_id r = i) (\<lambda>_. f d) (deliveries (w_db w))" for f
    using only by (auto simp: upd_where_def)
  note upds = upd [of "delivered_row t" for t] upd [of "failed_row t" for t] upd [of "rescheduled_row n t" for n t]
  have re: "DeliveryStore_Reschedule i t (w_db w) = (Inr (), (w_db w)\<lparr>deliveries :=
      upd_where (\<lambda>r. dr_id r = i) (rescheduled_row t (now_ts (w_db w))) (deliveries (w_db w))\<rparr>)" for t
    using assms by (intro Reschedule_eq) auto
  show ?thesis
    using MarkDelivered_eq [OF assms(1,2), of i] MarkPermanentlyFailed_eq [OF assms(1,2), of i] re
    by (simp add: on_db_def finish_delivery_def NewWorker_def no_metrics settled_row_def upds add.assoc)
qed

lemma process_run:
  assumes ok: "db_ok (w_db w)" and f: "faults (w_db w) = []" and cs: "cs = None \<or> cs = Some worker_circuit_store"
    and row: "row_by dr_id i (deliveries (w_db w)) = Some d"
    and st: "terminal (dr_status d) \<longrightarrow> dr_source_delivery_id d = None"
    and load: "worker_row i (w_db w) = Some wd" and parse: "parse (wd_EndpointURL wd) = Inr u"
    and fresh: "fresh_keys 1 (w_db w)"
    and new: "\<forall>a \<in> set (attempts (w_db w)). \<not> (ar_delivery_id a = i \<and> ar_sequence a = dr_attempt_count d + 1)"
    and res: "res = peer (w_sent w) (signed_request ck wd)"
  shows "Worker_process parse schedule (NewWorker None cs ccfg peer next) ck i w =
    (Inr (), w\<lparr>w_sent := w_sent w @ [signed_request ck wd],
       w_db := (w_db w)\<lparr>uuid_pos := Suc (uuid_pos (w_db w)),
         attempts := attempts (w_db w) @ [outcome_row (Classify res) (ck_Done ck) (status_code_of res)
            (error_reason_of res) (started_attempt i (dr_attempt_count d + 1) (w_db w))],
         endpoints := settled_endpoints cs ccfg (Classify res) (dr_endpoint_id d) (wd_EndpointCircuitState wd)
            (now_ts (w_db w)) (endpoints (w_db w)),
         deliveries := upd_where (\<lambda>r. dr_id r = i)
            (\<lambda>r. settled_row schedule ck (Classify res) (now_ts (w_db w)) d) (deliveries (w_db w))\<rparr>\<rparr>)"
proof -
  let ?cfg = "NewWorker None cs ccfg peer next" and ?s = "w_db w" and ?n = "dr_attempt_count d + 1"
  let ?a = "started_attempt i ?n ?s"
  have i: "i \<in> delivery_ids ?s" using row row_by_SomeD by fastforce
  have key: "uuid_src ?s (uuid_pos ?s) \<notin> used_keys ?s" using fresh fresh_keys_next [of 0] by simp
  have wd: "wd_Delivery wd = scanDelivery d"
    using load row by (auto simp: worker_row_def split: option.splits)
  define s1 where "s1 = ?s\<lparr>uuid_pos := Suc (uuid_pos ?s), attempts := attempts ?s @ [?a]\<rparr>"
  define s2 where "s2 = s1\<lparr>attempts := attempts ?s @ [outcome_row (Classify res) (ck_Done ck) (status_code_of res) (error_reason_of res) ?a]\<rparr>"
  have ins: "AttemptStore_InsertStarted i ?n ?s = (Inr (ar_id ?a), s1)"
    unfolding s1_def using f key i new by (rule InsertStarted_new)
  have upd: "AttemptStore_UpdateOutcome (ar_id ?a) (Classify res) (status_code_of res) (error_reason_of res) (ck_Done ck) s1 = (Inr (), s2)"
    unfolding s2_def using f key
    by (intro UpdateOutcome_last) (auto simp: s1_def started_attempt_def used_keys_def)
  have "db_ok s1" using preservesD_eq [OF attempt_ops_preserve(1) ok ins] .
  from preservesD_eq [OF attempt_ops_preserve(3) this upd] have s2: "db_ok s2" "faults s2 = []"
    using f by (simp_all add: s2_def s1_def)
  let ?w2 = "w\<lparr>w_sent := w_sent w @ [signed_request ck wd], w_db := s2\<rparr>"
  let ?E = "settled_endpoints cs ccfg (Classify res) (dr_endpoint_id d) (wd_EndpointCircuitState wd) (now_ts ?s) (endpoints ?s)"
  have circ: "update_circuit ?cfg wd (Classify res) ?w2 = (Inr (), ?w2\<lparr>w_db := s2\<lparr>endpoints := ?E\<rparr>\<rparr>)"
    using update_circuit_run [of ?w2 cs None ccfg peer "next" wd "Classify res"] s2 cs wd
    by (simp add: scanDelivery_def s2_def s1_def)
  let ?w3 = "?w2\<lparr>w_db := s2\<lparr>endpoints := ?E\<rparr>\<rparr>"
  have "world_ok ?w3"
    using preservesD_eq [OF update_circuit_preserves [OF cs] _ circ] s2 by simp
  then have sch: "schema_ok (w_db ?w3)" by (simp add: db_ok_def)
  have fin: "finish_delivery schedule ?cfg ck (dr_endpoint_id d) i ?n (Classify res) ?w3 = (Inr (), ?w3\<lparr>w_db := (w_db ?w3)\<lparr>deliveries :=
      upd_where (\<lambda>r. dr_id r = i) (\<lambda>r. settled_row schedule ck (Classify res) (now_ts ?s) d) (deliveries ?s)\<rparr>\<rparr>)"
    using finish_run [OF sch, of i d schedule None cs ccfg peer "next" ck "dr_endpoint_id d" "Classify res"] s2 row st
    by (simp add: s2_def s1_def)
  have http: "doHTTP parse ?cfg (ck_Sign ck) (wd_EndpointURL wd) (wd_Payload wd) (wd_SigningSecret wd) v =
      (peer (w_sent v) (signed_request ck wd), v\<lparr>w_sent := w_sent v @ [signed_request ck wd]\<rparr>)" for v
    using parse by (simp add: doHTTP_def NewWorker_def http_do_default signed_request_def)
  have cfg: "wk_LoadForWorker ?cfg i w = (Inr wd, w)" "wk_InsertStarted ?cfg i ?n w = (Inr (ar_id ?a), w\<lparr>w_db := s1\<rparr>)"
    "wk_UpdateOutcome ?cfg (ar_id ?a) (Classify res) (status_code_of res) (error_reason_of res) (ck_Done ck)
       (w\<lparr>w_db := s1, w_sent := w_sent w @ [signed_request ck wd]\<rparr>) = (Inr (), ?w2)"
    "wk_Metrics ?cfg = None"
    using LoadForWorker_row [OF f load] ins upd by (simp_all add: NewWorker_def on_db_def)
  have "d_AttemptCount (wd_Delivery wd) + 1 = ?n" by (simp add: wd scanDelivery_def)
  then have "Worker_process parse schedule ?cfg ck i w =
      settle schedule ?cfg ck wd i (ar_id ?a) ?n res (w\<lparr>w_db := s1, w_sent := w_sent w @ [signed_request ck wd]\<rparr>)"
    using cfg(1,2) http res by (simp add: Worker_process_def bindP_def map_errP_def Let_def)
  also have "\<dots> = finish_delivery schedule ?cfg ck (dr_endpoint_id d) i ?n (Classify res) ?w3"
    using cfg(3,4) circ wd by (simp add: settle_def Let_def bindP_def ignore_err_def tryP_def record_metrics_def scanDelivery_def)
  finally show ?thesis using fin by (simp add: s2_def s1_def)
qed

section \<open>The retry budget\<close>

text \<open>The row of a delivery through a sequence of attempts; a terminal delivery is not attempted
  again.\<close>

fun run_attempts :: "duration list \<Rightarrow> (AttemptOutcome \<times> clock \<times> instant) list \<Rightarrow> delivery_row \<Rightarrow> delivery_row" where
  "run_attempts schedule [] d = d"
| "run_attempts schedule ((out, ck, now) # xs) d =
     (if terminal (dr_status d) then d else run_attempts schedule xs (settled_row schedule ck out now d))"

lemma settled_row_cases:
  "dr_attempt_count (settled_row schedule ck out now d) = dr_attempt_count d + 1"
  "terminal (dr_status (settled_row schedule ck out now d)) \<longleftrightarrow>
     IsTerminal out \<or> MaxAttempts \<le> dr_attempt_count d + 1"
  "IsRetryable out \<Longrightarrow> terminal (dr_status (settled_row schedule ck out now d)) \<Longrightarrow>
     dr_status (settled_row schedule ck out now d) = PermanentlyFailed"
  by (auto simp: settled_row_def delivery_rows IsTerminal_def IsRetryable_def)

lemma run_attempts_terminal: "terminal (dr_status d) \<Longrightarrow> run_attempts schedule xs d = d"
  by (cases xs) auto

lemma run_attempts_bound:
  assumes "\<not> terminal (dr_status d)" and "dr_attempt_count d < MaxAttempts"
  shows "dr_attempt_count (run_attempts schedule xs d) \<le> MaxAttempts \<and>
    (MaxAttempts \<le> dr_attempt_count d + int (length xs) \<longrightarrow> terminal (dr_status (run_attempts schedule xs d)))"
  using assms
proof (induction schedule xs d rule: run_attempts.induct)
  case (2 schedule out ck now xs d)
  let ?d = "settled_row schedule ck out now d"
  show ?case
  proof (cases "terminal (dr_status ?d)")
    case True
    with 2 show ?thesis by (simp add: run_attempts_terminal settled_row_cases)
  next
    case False
    then have "dr_attempt_count ?d < MaxAttempts" by (simp add: settled_row_cases)
    with 2 False show ?thesis by (simp add: settled_row_cases)
  qed
qed simp

lemma run_attempts_retryable:
  assumes "\<not> terminal (dr_status d)" and "dr_attempt_count d < MaxAttempts" and "\<forall>(out, _) \<in> set xs. IsRetryable out"
  shows "dr_attempt_count (run_attempts schedule xs d) = min (dr_attempt_count d + int (length xs)) MaxAttempts \<and>
    (terminal (dr_status (run_attempts schedule xs d)) \<longleftrightarrow> MaxAttempts \<le> dr_attempt_count d + int (length xs)) \<and>
    (terminal (dr_status (run_attempts schedule xs d)) \<longrightarrow> dr_status (run_attempts schedule xs d) = PermanentlyFailed)"
  using assms
proof (induction schedule xs d rule: run_attempts.induct)
  case (2 schedule out ck now xs d)
  let ?d = "settled_row schedule ck out now d"
  have out: "IsRetryable out" using 2(4) by simp
  show ?case
  proof (cases "terminal (dr_status ?d)")
    case True
    with out have "MaxAttempts \<le> dr_attempt_count d + 1"
      by (simp add: settled_row_cases IsRetryable_iff_not_terminal)
    with 2(2,3) True out settled_row_cases(3) [OF out True] show ?thesis
      by (simp add: run_attempts_terminal settled_row_cases(1))
  next
    case False
    then have "dr_attempt_count ?d < MaxAttempts" by (simp add: settled_row_cases)
    with 2 False show ?thesis by (simp add: settled_row_cases(1) add.assoc)
  qed
qed auto

section \<open>Properties\<close>

text \<open>Classification of an attempt: success is exactly a status from 200 to 399, permanent
  failure exactly one from 400 to 499 other than 429, timeout exactly a transport error
  with a deadline in it; everything else is a transient failure, and only that and
  a timeout are retried.\<close>

theorem classification:
  "(Classify res = OutcomeSuccess \<longleftrightarrow> (\<exists>c. res = Response c \<and> 200 \<le> c \<and> c < 400)) \<and>
   (Classify res = OutcomePermanentFailure \<longleftrightarrow> (\<exists>c. res = Response c \<and> 400 \<le> c \<and> c < 500 \<and> c \<noteq> 429)) \<and>
   (Classify res = OutcomeTimeout \<longleftrightarrow> (\<exists>e. res = TransportError e \<and> (he_Timeout e = Some True \<or> he_Deadline e))) \<and>
   (IsRetryable (Classify res) \<longleftrightarrow> (\<exists>e. res = TransportError e) \<or>
      (\<exists>c. res = Response c \<and> (c < 200 \<or> c = 429 \<or> 500 \<le> c)))"
  by (cases res) (auto simp: Classify_def isDeadline_def IsRetryable_def)

text \<open>The default client follows no redirect: whatever the peer answers, one request is
  sent, its answer is returned (the loop always ends), and a redirect status returned this way
  counts as a successful delivery.\<close>

theorem default_client_never_follows:
  "client_do NewHTTPClient send next 0 req sent = Some (send req, sent @ [req]) \<and>
   (\<forall>c. 300 \<le> c \<and> c < 400 \<longrightarrow> Classify (Response c) = OutcomeSuccess)"
  by (simp add: NewHTTPClient_do Classify_def)

theorem default_client_never_follows_witness:
  "\<forall>q. client_do NewHTTPClient (\<lambda>_. Response 301) (\<lambda>r _. Some r) 0 q [] = Some (Response 301, [q]) \<and>
   Classify (Response 301) = OutcomeSuccess"
  using default_client_never_follows [of "\<lambda>_. Response 301" "\<lambda>r _. Some r" _ "[]"] by simp


definition sample_clock :: clock where
  "sample_clock = \<lparr>ck_Sign = 1, ck_Done = 1000, ck_Reschedule = 1000, ck_Rand = (\<lambda>_. 0)\<rparr>"


text \<open>C21. Delivery is at least once in the worst way: a worker that gets the message of an original
  delivery that is already finished (delivered or failed) sends the request once more, and if
  this answer is retryable and the budget is not used up, the finished delivery is scheduled
  again.\<close>

theorem redelivered_message_revives:
  assumes "db_ok (w_db w)" and "faults (w_db w) = []" and "cs = None \<or> cs = Some worker_circuit_store"
    and "row_by dr_id i (deliveries (w_db w)) = Some d"
    and "terminal (dr_status d)" and "dr_source_delivery_id d = None" and "dr_attempt_count d + 1 < MaxAttempts"
    and "worker_row i (w_db w) = Some wd" and "parse (wd_EndpointURL wd) = Inr u"
    and "fresh_keys 1 (w_db w)"
    and "\<forall>a \<in> set (attempts (w_db w)). \<not> (ar_delivery_id a = i \<and> ar_sequence a = dr_attempt_count d + 1)"
    and "IsRetryable (Classify (peer (w_sent w) (signed_request ck wd)))"
  shows "\<exists>w' d'. Worker_process parse schedule (NewWorker None cs ccfg peer next) ck i w = (Inr (), w') \<and>
    w_sent w' = w_sent w @ [signed_request ck wd] \<and>
    row_by dr_id i (deliveries (w_db w')) = Some d' \<and> dr_status d' = Scheduled"
proof -
  let ?res = "peer (w_sent w) (signed_request ck wd)"
  let ?d = "settled_row schedule ck (Classify ?res) (now_ts (w_db w)) d"
  have run: "\<exists>w'. Worker_process parse schedule (NewWorker None cs ccfg peer next) ck i w = (Inr (), w') \<and>
      w_sent w' = w_sent w @ [signed_request ck wd] \<and>
      deliveries (w_db w') = upd_where (\<lambda>r. dr_id r = i) (\<lambda>_. ?d) (deliveries (w_db w))"
    using process_run [where parse = parse and wd = wd and u = u and peer = peer and ck = ck,
        OF assms(1-4) _ assms(8-11) refl, of schedule ccfg "next"] assms(6) by simp
  have "dr_id ?d = i" using assms(4) row_by_SomeD by (fastforce simp: settled_row_def delivery_rows)
  then have "row_by dr_id i (upd_where (\<lambda>r. dr_id r = i) (\<lambda>_. ?d) (deliveries (w_db w))) = Some ?d"
    using assms(4) by (subst row_by_upd_where) (auto dest: row_by_SomeD)
  moreover have "dr_status ?d = Scheduled"
    using assms(7,12) by (auto simp: settled_row_def IsRetryable_def delivery_rows)
  ultimately show ?thesis using run by auto
qed

theorem redelivered_message_revives_witness:
  "\<exists>w' d'. Worker_process (\<lambda>_. Inr \<lparr>u_Scheme = ''https'', u_Host = ''a''\<rparr>) productionSchedule
      (NewWorker None None Circuit_defaults (\<lambda>_ _. Response 503) (\<lambda>_ _. None)) sample_clock 31 (sample_world sample_db) = (Inr (), w') \<and>
      length (w_sent w') = 1 \<and> row_by dr_id 31 (deliveries (w_db w')) = Some d' \<and> dr_status d' = Scheduled"
proof -
  let ?wd = "\<lparr>wd_Delivery = scanDelivery sample_failed, wd_EndpointURL = ''https://a.test/'',
      wd_Payload = ''{}'', wd_SigningSecret = ''k'', wd_EndpointCircuitState = ''closed''\<rparr>"
  have load: "worker_row 31 sample_db = Some ?wd" by (simp add: worker_row_def sample_defs)
  have sent: "w_sent (sample_world sample_db) = []" by (simp add: sample_world_def)
  have "\<exists>w' d'. Worker_process (\<lambda>_. Inr \<lparr>u_Scheme = ''https'', u_Host = ''a''\<rparr>) productionSchedule
      (NewWorker None None Circuit_defaults (\<lambda>_ _. Response 503) (\<lambda>_ _. None)) sample_clock 31 (sample_world sample_db) = (Inr (), w') \<and>
      w_sent w' = w_sent (sample_world sample_db) @ [signed_request sample_clock ?wd] \<and>
      row_by dr_id 31 (deliveries (w_db w')) = Some d' \<and> dr_status d' = Scheduled"
    by (rule redelivered_message_revives [where d = sample_failed])
      (simp_all add: sample_world_def sample_db_ok load,
       simp_all add: sample_defs fresh_keys_def used_keys_def Classify_def IsRetryable_def MaxAttempts_def)
  then show ?thesis unfolding sent by auto
qed

text \<open>The retry budget: a new delivery gets at most nine attempts whatever their outcomes and
  is terminal after nine; when all of them are retryable it is retried until the ninth and
  then fails permanently, not earlier.\<close>

theorem retry_budget:
  assumes "\<not> terminal (dr_status d)" and "dr_attempt_count d = 0"
  shows "dr_attempt_count (run_attempts schedule xs d) \<le> 9 \<and>
    (9 \<le> length xs \<longrightarrow> terminal (dr_status (run_attempts schedule xs d))) \<and>
    ((\<forall>(out, _) \<in> set xs. IsRetryable out) \<longrightarrow>
       dr_attempt_count (run_attempts schedule xs d) = min (int (length xs)) 9 \<and>
       (dr_status (run_attempts schedule xs d) = PermanentlyFailed \<longleftrightarrow> 9 \<le> length xs))"
proof -
  have m: "MaxAttempts = 9" by (simp add: MaxAttempts_def)
  show ?thesis
    using run_attempts_bound [of d schedule xs] run_attempts_retryable [of d xs schedule] assms
    by (auto simp: m terminal_iff)
qed

theorem retry_budget_witness:
  "dr_status (run_attempts productionSchedule (replicate 9 (OutcomeTimeout, sample_clock, 5))
     (sample_running\<lparr>dr_attempt_count := 0\<rparr>)) = PermanentlyFailed"
  using retry_budget [of "sample_running\<lparr>dr_attempt_count := 0\<rparr>" productionSchedule
      "replicate 9 (OutcomeTimeout, sample_clock, 5)"]
  by (simp add: sample_running_def IsRetryable_def)

text \<open>C39. A worker that crashed between recording the start of an attempt and its result leaves
  the delivery wedged: every later attempt at it fails on the unique sequence number before
  any request is sent, and changes nothing of the delivery, so the same happens again after
  every recovery of its lease.\<close>

theorem interrupted_attempt_wedges:
  assumes "faults (w_db w) = []" and "worker_row i (w_db w) = Some wd"
    and "a \<in> set (attempts (w_db w))" and "ar_delivery_id a = i"
    and "ar_sequence a = d_AttemptCount (wd_Delivery wd) + 1"
  shows "Worker_process parse schedule (NewWorker client cs ccfg peer next) ck i w =
    (Inl (Wrap ''insert attempt'' (PgError unique_violation)), w\<lparr>w_db := (w_db w)\<lparr>uuid_pos := Suc (uuid_pos (w_db w))\<rparr>\<rparr>)"
  using LoadForWorker_row [OF assms(1,2)] InsertStarted_duplicate [OF assms(1,3,4,5)]
  by (simp add: Worker_process_def NewWorker_def on_db_def bindP_def map_errP_def Let_def)

theorem interrupted_attempt_wedges_witness:
  "fst (Worker_process (\<lambda>_. Inr \<lparr>u_Scheme = ''https'', u_Host = ''a''\<rparr>) productionSchedule
      (NewWorker None None Circuit_defaults (\<lambda>_ _. Response 200) (\<lambda>_ _. None)) sample_clock 30
      (sample_world (sample_db\<lparr>attempts := [sample_attempt\<lparr>ar_delivery_id := 30, ar_sequence := 3, ar_completed_at := None\<rparr>]\<rparr>))) =
    Inl (Wrap ''insert attempt'' (PgError unique_violation))"
  by (subst interrupted_attempt_wedges [where a = "sample_attempt\<lparr>ar_delivery_id := 30, ar_sequence := 3, ar_completed_at := None\<rparr>"
        and wd = "\<lparr>wd_Delivery = scanDelivery sample_running, wd_EndpointURL = ''https://a.test/'',
      wd_Payload = ''{}'', wd_SigningSecret = ''k'', wd_EndpointCircuitState = ''closed''\<rparr>"])
    (simp_all add: sample_world_def worker_row_def sample_defs scanDelivery_def)



end
