(* ===== verification/Server.thy ===== *)
theory Server
  imports API Scheduler Worker
begin

text \<open>
  The middlewares and the routes of the HTTP server (\<open>internal/api/middleware.go\<close>,
  \<open>server.go\<close>), logging and metrics (\<open>internal/observability\<close>), and the wiring of the three
  subcommands (\<open>cmd/webhookd/main.go\<close>).

  A handler under the middlewares may panic, which is the error of its \<open>prog\<close>.  The mux is
  modelled by what matters of it here, which patterns are registered.
\<close>

section \<open>Middlewares\<close>

record http_in =
  hi_Method :: string
  hi_Path :: string
  hi_RequestID :: string
  hi_ContextID :: string

record http_out =
  ho_Status :: int
  ho_Body :: body
  ho_RequestID :: "string option"

record log_line =
  ll_Method :: string
  ll_Path :: string
  ll_Status :: int
  ll_RequestID :: string

type_synonym ('p, 's) http_handler = "http_in \<Rightarrow> ('p, 's, http_out) prog"

text \<open>\<open>new_id\<close> is the generated request id.\<close>

definition RequestID :: "string \<Rightarrow> ('p, 's) http_handler \<Rightarrow> ('p, 's) http_handler" where
  "RequestID new_id next r =
     (let i = (if hi_RequestID r = [] then new_id else hi_RequestID r) in
      bindP (next (r\<lparr>hi_ContextID := i\<rparr>)) (\<lambda>out. returnP (out\<lparr>ho_RequestID := Some i\<rparr>)))"

definition Recover :: "('p \<Rightarrow> 's \<Rightarrow> 's) \<Rightarrow> ('p, 's) http_handler \<Rightarrow> ('p, 's) http_handler" where
  "Recover log_panic next r =
     tryP (next r)
       (\<lambda>p s. (Inr \<lparr>ho_Status = 500, ho_Body = PlainText ''internal server error'', ho_RequestID = None\<rparr>, log_panic p s))
       returnP"

definition Logging :: "(log_line \<Rightarrow> 's \<Rightarrow> 's) \<Rightarrow> ('p, 's) http_handler \<Rightarrow> ('p, 's) http_handler" where
  "Logging log next r =
     bindP (next r) (\<lambda>out s. (Inr out, log \<lparr>ll_Method = hi_Method r, ll_Path = hi_Path r,
        ll_Status = ho_Status out, ll_RequestID = hi_ContextID r\<rparr> s))"

text \<open>\<open>Compose\<close> applies the middlewares from the last to the first.\<close>

definition Compose :: "(('p, 's) http_handler \<Rightarrow> ('p, 's) http_handler) list \<Rightarrow> ('p, 's) http_handler \<Rightarrow> ('p, 's) http_handler" where
  "Compose mws h = fold (\<lambda>mw h. mw h) (rev mws) h"

section \<open>The server\<close>

text \<open>\<open>sv_Metrics\<close>: whether the pointer to the metrics is set.\<close>

record ServerConfig =
  sv_APIAddr :: string
  sv_MetricsAddr :: string
  sv_Metrics :: bool

record Server =
  srv_cfg :: ServerConfig
  srv_routes :: "string list"
  srv_ReadHeaderTimeout :: duration
  srv_ReadTimeout :: duration
  srv_WriteTimeout :: duration
  srv_IdleTimeout :: duration

definition NewServer :: "ServerConfig \<Rightarrow> Server" where
  "NewServer cfg = \<lparr>srv_cfg = cfg, srv_routes = [], srv_ReadHeaderTimeout = 5 * second,
     srv_ReadTimeout = 60 * second, srv_WriteTimeout = 60 * second, srv_IdleTimeout = 120 * second\<rparr>"

definition api_handler ::
  "string \<Rightarrow> ('p \<Rightarrow> 's \<Rightarrow> 's) \<Rightarrow> (log_line \<Rightarrow> 's \<Rightarrow> 's) \<Rightarrow> ('p, 's) http_handler \<Rightarrow> ('p, 's) http_handler" where
  "api_handler new_id log_panic log mux = Compose [RequestID new_id, Recover log_panic, Logging log] mux"

definition HandleFunc :: "string \<Rightarrow> Server \<Rightarrow> Server" where
  "HandleFunc pattern s = s\<lparr>srv_routes := srv_routes s @ [pattern]\<rparr>"

definition RegisterEndpoints :: "Server \<Rightarrow> Server" where
  "RegisterEndpoints s = HandleFunc ''POST /v1/endpoints/{id}/rotate-secret''
     (HandleFunc ''GET /v1/endpoints/{id}'' (HandleFunc ''POST /v1/endpoints'' s))"

definition RegisterEvents :: "Server \<Rightarrow> Server" where
  "RegisterEvents s = HandleFunc ''POST /v1/events'' s"

definition RegisterTenants :: "Server \<Rightarrow> Server" where
  "RegisterTenants s = HandleFunc ''GET /v1/tenants/{id}'' (HandleFunc ''POST /v1/tenants'' s)"

definition RegisterDeliveries :: "Server \<Rightarrow> Server" where
  "RegisterDeliveries s = HandleFunc ''GET /v1/deliveries/{id}'' s"

definition RegisterDLQ :: "Server \<Rightarrow> Server" where
  "RegisterDLQ s = HandleFunc ''POST /v1/dlq/{delivery_id}/replay'' (HandleFunc ''POST /v1/dlq/replay''
     (HandleFunc ''GET /v1/dlq/{delivery_id}'' (HandleFunc ''GET /v1/dlq'' s)))"

definition RegisterCircuitBreaker :: "Server \<Rightarrow> Server" where
  "RegisterCircuitBreaker s = HandleFunc ''GET /v1/endpoints/{id}/circuit-breaker'' s"

section \<open>Logging and metrics\<close>

datatype level = LevelDebug | LevelInfo | LevelWarn | LevelError
datatype log_format = TextHandler | JSONHandler

definition parseLevel :: "string \<Rightarrow> level" where
  "parseLevel s =
     (let l = ToLower s in
      if l = ''debug'' then LevelDebug
      else if l = ''warn'' \<or> l = ''warning'' then LevelWarn
      else if l = ''error'' then LevelError
      else LevelInfo)"

definition NewLogger :: "string \<Rightarrow> string \<Rightarrow> level \<times> log_format" where
  "NewLogger lvl fmt = (parseLevel lvl, if ToLower fmt = ''text'' then TextHandler else JSONHandler)"

definition FromContext :: "string \<Rightarrow> (string \<times> string) list \<Rightarrow> (string \<times> string) list" where
  "FromContext ctx_id attrs = (if ctx_id \<noteq> [] then attrs @ [(''request_id'', ctx_id)] else attrs)"

section \<open>The pool\<close>

record pool_settings =
  ps_URL :: string
  ps_MaxConns :: int
  ps_MaxConnLifetime :: duration
  ps_HealthCheckPeriod :: duration

definition wrap32 :: "int \<Rightarrow> int" where
  "wrap32 x = (x + 2 ^ 31) mod 2 ^ 32 - 2 ^ 31"

text \<open>\<open>parse_config\<close>, \<open>connect\<close> and \<open>ping\<close> stand for \<open>pgxpool\<close>; a parsed configuration
  comes with the library's default number of connections.\<close>

definition NewPool ::
  "(string \<Rightarrow> err + int) \<Rightarrow> (pool_settings \<Rightarrow> err option) \<Rightarrow> (pool_settings \<Rightarrow> err option) \<Rightarrow> string \<Rightarrow> int \<Rightarrow> err + pool_settings" where
  "NewPool parse_config connect ping url maxConns =
     (if url = [] then Inl (ErrText ''database url is required'')
      else case parse_config url of
        Inl e \<Rightarrow> Inl (Wrap ''parse database url'' e)
      | Inr dflt \<Rightarrow>
          (let cfg = \<lparr>ps_URL = url, ps_MaxConns = (if maxConns > 0 then wrap32 maxConns else dflt),
                     ps_MaxConnLifetime = 30 * minute, ps_HealthCheckPeriod = 30 * second\<rparr> in
           case connect cfg of
             Some e \<Rightarrow> Inl (Wrap ''create pool'' e)
           | None \<Rightarrow> (case ping cfg of Some e \<Rightarrow> Inl (Wrap ''ping postgres'' e) | None \<Rightarrow> Inr cfg)))"

section \<open>The subcommands\<close>

datatype subcommand = RunAPI | RunWorker | RunScheduler | Usage
datatype command_result = Run subcommand | ExitUsage int

text \<open>\<open>main\<close>: the arguments after the program's name.\<close>

definition dispatch :: "string list \<Rightarrow> command_result" where
  "dispatch args =
     (case args of
        [] \<Rightarrow> ExitUsage 2
      | sub # _ \<Rightarrow>
          if sub = ''api'' then Run RunAPI
          else if sub = ''worker'' then Run RunWorker
          else if sub = ''scheduler'' then Run RunScheduler
          else if sub = ''-h'' \<or> sub = ''--help'' \<or> sub = ''help'' then Run Usage
          else ExitUsage 2)"

definition runAPI :: "APIConfig \<Rightarrow> Server" where
  "runAPI cfg = RegisterDeliveries (RegisterEvents (RegisterEndpoints (RegisterTenants
     (NewServer \<lparr>sv_APIAddr = CHR '':'' # FormatInt (APIPort cfg), sv_MetricsAddr = CHR '':'' # FormatInt (MetricsPort cfg),
       sv_Metrics = True\<rparr>))))"

text \<open>One worker per unit of concurrency, each with its own consumer.  Neither the HTTP client
  nor a circuit store is given; \<open>ccfg\<close> is the zero \<open>CircuitConfig\<close>.\<close>

definition zero_circuit_config :: CircuitConfig where
  "zero_circuit_config = \<lparr>Threshold = 0, SuspensionSeconds = 0\<rparr>"

definition runWorker ::
  "(http_request list \<Rightarrow> http_request \<Rightarrow> http_result) \<Rightarrow> (http_request \<Rightarrow> int \<Rightarrow> http_request option) \<Rightarrow> WorkerEnvConfig \<Rightarrow>
   (ReaderConfig \<times> world WorkerConfig) list" where
  "runWorker peer next cfg = map (\<lambda>_. (NewConsumer \<lparr>cc_Brokers = KafkaBrokers cfg, cc_Topic = KafkaTopic cfg,
       cc_GroupID = KafkaConsumerGroup cfg, cc_SessionTimeout = 0, cc_HeartbeatInterval = 0, cc_StartOffset = 0\<rparr>,
     NewWorker None None zero_circuit_config peer next)) [0..<nat (Concurrency cfg)]"

definition runScheduler :: "SchedulerEnvConfig \<Rightarrow> Writer \<times> world SchedulerConfig \<times> world ReaperConfig \<times> duration" where
  "runScheduler cfg =
     (NewPublisher \<lparr>pc_Brokers = KafkaBrokers cfg, pc_Topic = KafkaTopic cfg\<rparr>,
      scheduler_config None 100 (wrap64 (InFlightLeaseSeconds cfg * second)),
      reaper_config (wrap64 (ReaperTickSeconds cfg * second)),
      wrap64 (SchedulerTickMS cfg * millisecond))"

section \<open>Properties\<close>

lemma api_handler_eq:
  "api_handler new_id log_panic log mux r = RequestID new_id (Recover log_panic (Logging log mux)) r"
  by (simp add: api_handler_def Compose_def)

text \<open>Under the server's middlewares no panic escapes and every response carries a request id:
  the caller's when it sent one, else the generated one, which is also the one the handler and
  the log line see.  A panic becomes a plain 500; the request is logged exactly when the handler
  returned.\<close>

theorem middleware_contract:
  "let i = (if hi_RequestID r = [] then new_id else hi_RequestID r); r' = r\<lparr>hi_ContextID := i\<rparr> in
   api_handler new_id log_panic log mux r s =
     (case mux r' s of
        (Inl p, s') \<Rightarrow> (Inr \<lparr>ho_Status = 500, ho_Body = PlainText ''internal server error'', ho_RequestID = Some i\<rparr>, log_panic p s')
      | (Inr out, s') \<Rightarrow> (Inr (out\<lparr>ho_RequestID := Some i\<rparr>),
          log \<lparr>ll_Method = hi_Method r, ll_Path = hi_Path r, ll_Status = ho_Status out, ll_RequestID = i\<rparr> s'))"
  by (auto simp: api_handler_eq Let_def RequestID_def Recover_def Logging_def bindP_def tryP_def
      split: prod.splits sum.splits)

text \<open>The API process serves the tenant, endpoint, event and delivery routes and nothing else:
  none of the dead letter routes and not the circuit breaker route, although the server can
  register them.\<close>

theorem api_process_routes:
  "set (srv_routes (runAPI cfg)) =
     {''POST /v1/tenants'', ''GET /v1/tenants/{id}'', ''POST /v1/endpoints'', ''GET /v1/endpoints/{id}'',
      ''POST /v1/endpoints/{id}/rotate-secret'', ''POST /v1/events'', ''GET /v1/deliveries/{id}''} \<and>
   set (srv_routes (RegisterDLQ (runAPI cfg))) \<inter> {''GET /v1/dlq'', ''POST /v1/dlq/replay''} \<noteq> {} \<and>
   set (srv_routes (runAPI cfg)) \<inter> set (srv_routes (RegisterCircuitBreaker (RegisterDLQ (NewServer (srv_cfg (runAPI cfg)))))) = {}"
  by (auto simp: runAPI_def RegisterDeliveries_def RegisterEvents_def RegisterEndpoints_def RegisterTenants_def
      RegisterDLQ_def RegisterCircuitBreaker_def HandleFunc_def NewServer_def)

definition same_endpoints :: "endpoint_row list \<Rightarrow> db \<Rightarrow> bool" where
  "same_endpoints E s \<longleftrightarrow> endpoints s = E"

lemma same_endpoints_stmt: "preserves (same_endpoints E) f \<Longrightarrow> preserves (same_endpoints E) (stmt f)"
  by (rule preserves_stmt) (simp_all add: table_pred_def same_endpoints_def)

lemma update_deliveries_endpoints: "preserves (same_endpoints E) (update_deliveries p f)"
  by (simp add: preserves_def same_endpoints_def)

lemma delivery_ops_same_endpoints:
  "preserves (same_endpoints E) (DeliveryStore_LoadForWorker i)"
  "preserves (same_endpoints E) (DeliveryStore_MarkDelivered i)"
  "preserves (same_endpoints E) (DeliveryStore_MarkPermanentlyFailed i)"
  "preserves (same_endpoints E) (DeliveryStore_Reschedule i t)"
  "preserves (same_endpoints E) (DeliveryStore_ClaimReady n l)"
  unfolding DeliveryStore_LoadForWorker_def DeliveryStore_MarkDelivered_def
    DeliveryStore_MarkPermanentlyFailed_def DeliveryStore_Reschedule_def mark_by_id_def
    DeliveryStore_ClaimReady_def Let_def
  by (intro preserves_intros same_endpoints_stmt update_deliveries_endpoints)+

lemma attempt_ops_same_endpoints:
  "preserves (same_endpoints E) (AttemptStore_InsertStarted i n)"
  "preserves (same_endpoints E) (AttemptStore_UpdateOutcome a out c r t)"
proof -
  have "preserves (same_endpoints E) (insert_attempt mk)" for mk
    by (auto simp: preserves_def same_endpoints_def insert_attempt_def insert_row_def Let_def split: option.splits)
  then show "preserves (same_endpoints E) (AttemptStore_InsertStarted i n)"
    unfolding AttemptStore_InsertStarted_def by (intro preserves_intros same_endpoints_stmt)
  show "preserves (same_endpoints E) (AttemptStore_UpdateOutcome a out c r t)"
    unfolding AttemptStore_UpdateOutcome_def
    by (intro same_endpoints_stmt) (simp add: preserves_def same_endpoints_def)
qed

lemma worker_same_endpoints:
  "operations_keep (\<lambda>w. same_endpoints E (w_db w)) (NewWorker client None ccfg peer next)"
  by (auto simp: operations_keep_def attempt_keeps_def NewWorker_def http_do_db intro!: on_db_preserves delivery_ops_same_endpoints
      attempt_ops_same_endpoints)

lemma tick_same_endpoints:
  "preserves (\<lambda>w. same_endpoints E (w_db w)) (Scheduler_Tick uuid_text (scheduler_config None n l) now)"
proof -
  have pub: "preserves (\<lambda>w. same_endpoints E (w_db w)) (publish_all uuid_text Publisher_Publish ds)" for ds
    by (simp add: preserves_def publish_all_db)
  show ?thesis
    unfolding Scheduler_Tick_def scheduler_config_fields option.case
    by (intro preserves_intros on_db_preserves pub count_preserves delivery_ops_same_endpoints) simp
qed

text \<open>C40. The processes run without circuit breaker: no worker and no scheduler the commands build
  has a circuit store, so no tick and no attempt changes an endpoint row, whatever the
  configuration, the broker, the peer and the connection do.\<close>

theorem processes_leave_circuits_alone:
  "(\<forall>(rc, wc) \<in> set (runWorker peer hop wcfg). wk_CircuitStore wc = None \<and>
      (\<forall>w. endpoints (w_db (snd (Worker_process parse schedule wc ck i w))) = endpoints (w_db w))) \<and>
   (case runScheduler scfg of (wr, sc, rp, tick) \<Rightarrow> sc_CircuitStore sc = None \<and>
      (\<forall>w. endpoints (w_db (snd (Scheduler_Tick uuid_text sc now w))) = endpoints (w_db w)))"
proof (intro conjI)
  have "endpoints (w_db (snd (Worker_process parse schedule (NewWorker None None ccfg peer hop) ck i w))) = endpoints (w_db w)"
    for ccfg w
    using preservesD [OF process_keeps [OF worker_same_endpoints], of "endpoints (w_db w)" w]
    by (simp add: same_endpoints_def)
  then show "\<forall>(rc, wc) \<in> set (runWorker peer hop wcfg). wk_CircuitStore wc = None \<and>
      (\<forall>w. endpoints (w_db (snd (Worker_process parse schedule wc ck i w))) = endpoints (w_db w))"
    by (auto simp: runWorker_def) (simp add: NewWorker_def)
  have "endpoints (w_db (snd (Scheduler_Tick uuid_text (scheduler_config None n l) now w))) = endpoints (w_db w)" for n l w
    using preservesD [OF tick_same_endpoints, of "endpoints (w_db w)" w] by (simp add: same_endpoints_def)
  then show "case runScheduler scfg of (wr, sc, rp, tick) \<Rightarrow> sc_CircuitStore sc = None \<and>
      (\<forall>w. endpoints (w_db (snd (Scheduler_Tick uuid_text sc now w))) = endpoints (w_db w))"
    by (simp add: runScheduler_def)
qed

theorem processes_leave_circuits_alone_witness:
  "list_all (\<lambda>(rc, wc). endpoints (w_db (snd (Worker_process (\<lambda>_. Inr \<lparr>u_Scheme = ''https'', u_Host = ''a''\<rparr>) productionSchedule wc
       sample_clock 30 (sample_world sample_db))))  = [sample_endpoint])
     (runWorker (\<lambda>_ _. Response 503) (\<lambda>_ _. None) (Worker_defaults ''db''))"
  using processes_leave_circuits_alone [where peer = "\<lambda>_ _. Response 503" and hop = "\<lambda>_ _. None"
      and wcfg = "Worker_defaults ''db''" and parse = "\<lambda>_. Inr \<lparr>u_Scheme = ''https'', u_Host = ''a''\<rparr>"
      and schedule = productionSchedule and ck = sample_clock and i = 30, THEN conjunct1]
  by (simp add: sample_world_def sample_db_def split_beta list_all_iff)

end
