(* ===== verification/Processes.thy ===== *)
theory Processes
  imports Server
begin

text \<open>
  The long running parts: the loops \<open>Run\<close> of the scheduler, the reaper and the worker, the start
  and the shutdown of the HTTP server, the collectors of the metrics, and the start of the
  three subcommands with their exit codes.

  What the runtime does to a waiting goroutine is a list of events, in the order in which its
  \<open>select\<close> or its blocking call sees them: when several are ready, Go picks one, and every pick
  is some list.  A list that ends leaves the goroutine waiting.
\<close>

section \<open>Loops\<close>

datatype ('s, 'x) event = is_Cancel: Cancel | Fire 'x | Meanwhile "'s \<Rightarrow> 's"

datatype progress = Waiting | Returned "err option" | Panicked string

text \<open>The \<open>for\<close>/\<open>select\<close> of the two tickers; the error of a tick is logged.\<close>

fun ticker_loop :: "('x \<Rightarrow> (err, 's, unit) prog) \<Rightarrow> ('s, 'x) event list \<Rightarrow> 's \<Rightarrow> progress \<times> 's" where
  "ticker_loop tick [] s = (Waiting, s)"
| "ticker_loop tick (Cancel # es) s = (Returned None, s)"
| "ticker_loop tick (Fire x # es) s = ticker_loop tick es (snd (tick x s))"
| "ticker_loop tick (Meanwhile f # es) s = ticker_loop tick es (f s)"

text \<open>\<open>time.NewTicker\<close> panics when its interval is not positive.\<close>

definition NewTicker :: "duration \<Rightarrow> ('s \<Rightarrow> progress \<times> 's) \<Rightarrow> 's \<Rightarrow> progress \<times> 's" where
  "NewTicker interval loop s =
     (if interval \<le> 0 then (Panicked ''non-positive interval for NewTicker'', s) else loop s)"

definition Scheduler_Run ::
  "(uuid \<Rightarrow> string) \<Rightarrow> 's SchedulerConfig \<Rightarrow> duration \<Rightarrow> ('s, instant) event list \<Rightarrow> 's \<Rightarrow> progress \<times> 's" where
  "Scheduler_Run uuid_text cfg tickInterval es = NewTicker tickInterval (ticker_loop (Scheduler_Tick uuid_text cfg) es)"

definition Reaper_Run :: "'s ReaperConfig \<Rightarrow> ('s, unit) event list \<Rightarrow> 's \<Rightarrow> progress \<times> 's" where
  "Reaper_Run cfg es = NewTicker (rp_Interval cfg) (ticker_loop (\<lambda>_. Reaper_Tick cfg) es)"

text \<open>The loop of the worker: a turn is one \<open>ProcessOne\<close> and whether the context was cancelled by
  the time it returned; \<open>done\<close> is \<open>ctx.Err() != nil\<close>.\<close>

fun worker_loop :: "(clock \<Rightarrow> (err, 's, unit) prog) \<Rightarrow> (clock \<times> bool) list \<Rightarrow> bool \<Rightarrow> 's \<Rightarrow> progress \<times> 's" where
  "worker_loop one es True s = (Returned None, s)"
| "worker_loop one [] False s = (Waiting, s)"
| "worker_loop one ((ck, c) # es) False s =
     (case one ck s of
        (Inl e, s') \<Rightarrow> if c then (Returned None, s') else worker_loop one es False s'
      | (Inr _, s') \<Rightarrow> worker_loop one es c s')"

definition Worker_Run ::
  "(string \<Rightarrow> string + parsed_url) \<Rightarrow> (bytes \<Rightarrow> err + uuid) \<Rightarrow> duration list \<Rightarrow> 's WorkerConfig \<Rightarrow>
   bool \<Rightarrow> (clock \<times> bool) list \<Rightarrow> 's \<Rightarrow> progress \<times> 's" where
  "Worker_Run parse unmarshal schedule cfg done turns =
     worker_loop (Worker_ProcessOne parse unmarshal schedule cfg) turns done"

section \<open>The HTTP server\<close>

text \<open>What ends the wait of \<open>Start\<close>: the context, or a listener that stopped with an error.  A
  listener that stopped because it was shut down sends nothing.\<close>

datatype server_event = ContextDone | APIStopped "err option" | MetricsStopped "err option"

definition shutdown :: "bool \<Rightarrow> err option \<Rightarrow> err option \<Rightarrow> err option" where
  "shutdown metrics_started apiErr metricsErr =
     (if apiErr \<noteq> None then apiErr else if metrics_started then metricsErr else None)"

definition serves_metrics :: "ServerConfig \<Rightarrow> bool" where
  "serves_metrics cfg \<longleftrightarrow> sv_MetricsAddr cfg \<noteq> [] \<and> sv_Metrics cfg"

fun Server_Start :: "ServerConfig \<Rightarrow> err option \<Rightarrow> err option \<Rightarrow> server_event list \<Rightarrow> progress" where
  "Server_Start cfg apiErr metricsErr [] = Waiting"
| "Server_Start cfg apiErr metricsErr (ContextDone # es) = Returned (shutdown (serves_metrics cfg) apiErr metricsErr)"
| "Server_Start cfg apiErr metricsErr (APIStopped r # es) =
     (case r of None \<Rightarrow> Server_Start cfg apiErr metricsErr es | Some e \<Rightarrow> Returned (Some (Wrap ''api server'' e)))"
| "Server_Start cfg apiErr metricsErr (MetricsStopped r # es) =
     (if \<not> serves_metrics cfg then Server_Start cfg apiErr metricsErr es
      else case r of None \<Rightarrow> Server_Start cfg apiErr metricsErr es | Some e \<Rightarrow> Returned (Some (Wrap ''metrics server'' e)))"

section \<open>The collectors\<close>

datatype collector_kind = Counter | Gauge | Histogram "int list"

record collector =
  co_Kind :: collector_kind
  co_Name :: string
  co_Help :: string
  co_Labels :: "string list"

text \<open>\<open>ExponentialBuckets\<close> of the library, in thousandths.\<close>

definition ExponentialBuckets :: "int \<Rightarrow> int \<Rightarrow> nat \<Rightarrow> int list" where
  "ExponentialBuckets start factor count = map (\<lambda>i. start * factor ^ i) [0..<count]"

definition NewMetrics :: "collector list" where
  "NewMetrics =
     [\<lparr>co_Kind = Counter, co_Name = ''webhook_events_submitted_total'',
       co_Help = ''Total events submitted via the API.'', co_Labels = [''endpoint_id'']\<rparr>,
      \<lparr>co_Kind = Counter, co_Name = ''webhook_events_rejected_total'',
       co_Help = ''Total events rejected at the API.'', co_Labels = [''reason'']\<rparr>,
      \<lparr>co_Kind = Counter, co_Name = ''webhook_delivery_attempts_total'',
       co_Help = ''Total delivery attempts, grouped by outcome.'', co_Labels = [''endpoint_id'', ''outcome'']\<rparr>,
      \<lparr>co_Kind = Histogram (ExponentialBuckets 10 2 12), co_Name = ''webhook_delivery_attempt_duration_seconds'',
       co_Help = ''Latency of outbound delivery attempts.'', co_Labels = [''endpoint_id'']\<rparr>,
      \<lparr>co_Kind = Counter, co_Name = ''webhook_scheduler_claimed_total'',
       co_Help = ''Cumulative deliveries claimed by the scheduler.'', co_Labels = []\<rparr>,
      \<lparr>co_Kind = Gauge, co_Name = ''webhook_scheduler_queue_depth'',
       co_Help = ''Number of deliveries ready to be claimed.'', co_Labels = []\<rparr>,
      \<lparr>co_Kind = Counter, co_Name = ''webhook_delivery_lease_resurrected_total'',
       co_Help = ''Deliveries reset from in_flight to scheduled after the lease expired.'', co_Labels = []\<rparr>,
      \<lparr>co_Kind = Gauge, co_Name = ''webhook_endpoint_failure_streak'',
       co_Help = ''Consecutive failed delivery attempts per endpoint.'', co_Labels = [''endpoint_id'']\<rparr>]"

text \<open>\<open>MustRegister\<close> of the library registers the collectors in order and panics at the first whose
  name is taken.\<close>

fun MustRegister :: "collector list \<Rightarrow> string list \<Rightarrow> string list option" where
  "MustRegister [] names = Some names"
| "MustRegister (c # cs) names = (if co_Name c \<in> set names then None else MustRegister cs (names @ [co_Name c]))"

section \<open>The commands\<close>

text \<open>\<open>flags\<close> is the flag set's \<open>Parse\<close>, which answers the address for \<open>pprof\<close>; \<open>load\<close> is the
  configuration read from the environment, \<open>pool\<close> is \<open>NewPool\<close>.\<close>

record pprof_server =
  pp_Addr :: string
  pp_ReadHeaderTimeout :: duration
  pp_ShutdownTimeout :: duration

definition startPprofServer :: "string \<Rightarrow> pprof_server option" where
  "startPprofServer addr =
     (if addr = [] then None
      else Some \<lparr>pp_Addr = addr, pp_ReadHeaderTimeout = 5 * second, pp_ShutdownTimeout = 5 * second\<rparr>)"

definition start_command ::
  "(string list \<Rightarrow> err + string) \<Rightarrow> err + 'c \<Rightarrow> (string \<Rightarrow> int \<Rightarrow> err + pool_settings) \<Rightarrow>
   ('c \<Rightarrow> string) \<Rightarrow> ('c \<Rightarrow> int) \<Rightarrow> string list \<Rightarrow> err + ('c \<times> pool_settings \<times> pprof_server option)" where
  "start_command flags load pool url_of max_of args =
     (case flags args of
        Inl e \<Rightarrow> Inl e
      | Inr pprofAddr \<Rightarrow>
          (case load of
             Inl e \<Rightarrow> Inl e
           | Inr cfg \<Rightarrow>
               (case pool (url_of cfg) (max_of cfg) of
                  Inl e \<Rightarrow> Inl (Wrap ''postgres pool'' e)
                | Inr p \<Rightarrow> Inr (cfg, p, startPprofServer pprofAddr))))"

definition api_command ::
  "(string list \<Rightarrow> err + string) \<Rightarrow> err + APIConfig \<Rightarrow> (string \<Rightarrow> int \<Rightarrow> err + pool_settings) \<Rightarrow> string list \<Rightarrow>
   err option \<Rightarrow> err option \<Rightarrow> server_event list \<Rightarrow> progress" where
  "api_command flags load pool args apiErr metricsErr es =
     (case start_command flags load pool DatabaseURL API_DatabasePoolMax args of
        Inl e \<Rightarrow> Returned (Some e)
      | Inr (cfg, _) \<Rightarrow> Server_Start (srv_cfg (runAPI cfg)) apiErr metricsErr es)"

text \<open>The worker command waits for all of its workers and forgets what they return; \<open>runs\<close> gives for
  each what its \<open>Run\<close> came to.\<close>

definition worker_command ::
  "(string list \<Rightarrow> err + string) \<Rightarrow> err + WorkerEnvConfig \<Rightarrow> (string \<Rightarrow> int \<Rightarrow> err + pool_settings) \<Rightarrow> string list \<Rightarrow>
   (nat \<Rightarrow> progress) \<Rightarrow> progress" where
  "worker_command flags load pool args runs =
     (case start_command flags load pool DatabaseURL Worker_DatabasePoolMax args of
        Inl e \<Rightarrow> Returned (Some e)
      | Inr (cfg, _) \<Rightarrow> if list_all (\<lambda>i. runs i \<noteq> Waiting) [0..<nat (Concurrency cfg)] then Returned None else Waiting)"

text \<open>The scheduler command returns with the context or with the first of its two loops.\<close>

datatype loop_event = ContextEnds | LoopReturns "err option"

fun scheduler_select :: "loop_event list \<Rightarrow> progress" where
  "scheduler_select [] = Waiting"
| "scheduler_select (ContextEnds # es) = Returned None"
| "scheduler_select (LoopReturns r # es) = Returned r"

definition scheduler_command ::
  "(string list \<Rightarrow> err + string) \<Rightarrow> err + SchedulerEnvConfig \<Rightarrow> (string \<Rightarrow> int \<Rightarrow> err + pool_settings) \<Rightarrow> string list \<Rightarrow>
   loop_event list \<Rightarrow> progress" where
  "scheduler_command flags load pool args es =
     (case start_command flags load pool DatabaseURL Scheduler_DatabasePoolMax args of
        Inl e \<Rightarrow> Returned (Some e)
      | Inr (cfg, _) \<Rightarrow>
          if SchedulerTick cfg \<le> 0 then Panicked ''non-positive interval for NewTicker'' else scheduler_select es)"

text \<open>The exit code: 0, 1 for an error, 2 for a panic.\<close>

fun exitOnErr :: "progress \<Rightarrow> int option" where
  "exitOnErr Waiting = None"
| "exitOnErr (Returned None) = Some 0"
| "exitOnErr (Returned (Some e)) = Some 1"
| "exitOnErr (Panicked m) = Some 2"

definition main :: "(string list \<Rightarrow> progress) \<Rightarrow> (string list \<Rightarrow> progress) \<Rightarrow> (string list \<Rightarrow> progress) \<Rightarrow> string list \<Rightarrow> int option" where
  "main api worker scheduler args =
     (case dispatch args of
        ExitUsage n \<Rightarrow> Some n
      | Run Usage \<Rightarrow> Some 0
      | Run RunAPI \<Rightarrow> exitOnErr (api (tl args))
      | Run RunWorker \<Rightarrow> exitOnErr (worker (tl args))
      | Run RunScheduler \<Rightarrow> exitOnErr (scheduler (tl args)))"

section \<open>The loops to their end\<close>

definition after_events :: "('x \<Rightarrow> (err, 's, unit) prog) \<Rightarrow> ('s, 'x) event list \<Rightarrow> 's \<Rightarrow> 's" where
  "after_events tick es s =
     fold (\<lambda>e t. case e of Cancel \<Rightarrow> t | Fire x \<Rightarrow> snd (tick x t) | Meanwhile f \<Rightarrow> f t) es s"

lemma ticker_loop_eq:
  "ticker_loop tick es s =
     (if list_ex is_Cancel es then Returned None else Waiting, after_events tick (takeWhile (Not \<circ> is_Cancel) es) s)"
  by (induction tick es s rule: ticker_loop.induct) (simp_all add: after_events_def)

lemma worker_loop_result:
  "fst (worker_loop one es don s) = (if don \<or> list_ex snd es then Returned None else Waiting)"
proof (induction one es don s rule: worker_loop.induct)
  case (3 one ck c es s)
  obtain r s' where r: "one ck s = (r, s')" by fastforce
  with 3 show ?case by (cases r; cases c) auto
qed simp_all

lemma NewReaper_interval: "0 < rp_Interval (NewReaper cfg)"
  by (simp add: NewReaper_def)

text \<open>The collectors have distinct names, so their registration does not panic.\<close>

lemma NewMetrics_registers: "MustRegister NewMetrics [] = Some (map co_Name NewMetrics)"
  by (simp add: NewMetrics_def)

section \<open>Properties\<close>

text \<open>C38. The loops end exactly when they are cancelled.  No failing tick and no failing message ends
  the scheduler, the reaper or the worker, and none of them returns an error; until the
  cancellation the scheduler and the reaper have run every tick that fired, in order.  The
  reaper's ticker always starts; the scheduler's panics exactly when its interval is not
  positive.\<close>

theorem loops_end_on_cancellation:
  "Scheduler_Run enc sc tickInterval es s =
     (if tickInterval \<le> 0 then (Panicked ''non-positive interval for NewTicker'', s)
      else (if list_ex is_Cancel es then Returned None else Waiting,
            after_events (Scheduler_Tick enc sc) (takeWhile (Not \<circ> is_Cancel) es) s)) \<and>
   Reaper_Run (NewReaper rp) es' s =
     (if list_ex is_Cancel es' then Returned None else Waiting,
      after_events (\<lambda>_. Reaper_Tick (NewReaper rp)) (takeWhile (Not \<circ> is_Cancel) es') s) \<and>
   fst (Worker_Run parse unmarshal schedule wc don turns s) = (if don \<or> list_ex snd turns then Returned None else Waiting)"
  using NewReaper_interval [of rp]
  by (simp add: Scheduler_Run_def Reaper_Run_def Worker_Run_def NewTicker_def ticker_loop_eq worker_loop_result)

text \<open>Boundaries of the configuration nothing checks: a \<open>SCHEDULER_TICK_MS\<close> that is zero or
  negative makes the scheduler process panic (exit code 2) after it has connected, and a
  \<open>WORKER_CONCURRENCY\<close> that is zero or negative makes the worker process succeed at once
  (exit code 0) without a single worker.\<close>

theorem unchecked_configuration:
  assumes "start_command flags (Inr scfg) pool DatabaseURL Scheduler_DatabasePoolMax args = Inr x"
    and "SchedulerTickMS scfg \<in> {- 9000000000000 .. 0}"
    and "start_command flags (Inr wcfg) pool DatabaseURL Worker_DatabasePoolMax args = Inr y" and "Concurrency wcfg \<le> 0"
  shows "main api work (\<lambda>as. scheduler_command flags (Inr scfg) pool as es) (''scheduler'' # args) = Some 2 \<and>
    main api (\<lambda>as. worker_command flags (Inr wcfg) pool as runs) sched (''worker'' # args) = Some 0 \<and>
    runWorker peer hop wcfg = []"
proof -
  have tick: "SchedulerTick scfg \<le> 0"
    using assms(2) by (simp add: SchedulerTick_def wrap64_def mod_pos_pos_trivial)
  have "fst x = scfg" "fst y = wcfg"
    using assms(1,3) by (auto simp: start_command_def split: sum.splits)
  with assms tick show ?thesis
    by (cases x; cases y) (simp add: main_def dispatch_def scheduler_command_def worker_command_def runWorker_def)
qed

theorem unchecked_configuration_witness:
  "main (\<lambda>_. Waiting) (\<lambda>_. Waiting) (\<lambda>as. scheduler_command (\<lambda>_. Inr []) (Inr ((Scheduler_defaults ''db'')\<lparr>SchedulerTickMS := 0\<rparr>))
     (NewPool (\<lambda>_. Inr 4) (\<lambda>_. None) (\<lambda>_. None)) as []) [''scheduler''] = Some 2 \<and>
   main (\<lambda>_. Waiting) (\<lambda>as. worker_command (\<lambda>_. Inr []) (Inr ((Worker_defaults ''db'')\<lparr>Concurrency := 0\<rparr>))
     (NewPool (\<lambda>_. Inr 4) (\<lambda>_. None) (\<lambda>_. None)) as (\<lambda>_. Waiting)) (\<lambda>_. Waiting) [''worker''] = Some 0"
proof -
  let ?pool = "NewPool (\<lambda>_. Inr 4) (\<lambda>_. None) (\<lambda>_. None)"
  let ?s = "(Scheduler_defaults ''db'')\<lparr>SchedulerTickMS := 0\<rparr>" and ?w = "(Worker_defaults ''db'')\<lparr>Concurrency := 0\<rparr>"
  obtain x where x: "start_command (\<lambda>_. Inr []) (Inr ?s) ?pool DatabaseURL Scheduler_DatabasePoolMax [] = Inr x"
    by (simp add: start_command_def NewPool_def Scheduler_defaults_def)
  obtain y where y: "start_command (\<lambda>_. Inr []) (Inr ?w) ?pool DatabaseURL Worker_DatabasePoolMax [] = Inr y"
    by (simp add: start_command_def NewPool_def Worker_defaults_def)
  show ?thesis
    using unchecked_configuration [OF x _ y, of "\<lambda>_. Waiting" "\<lambda>_. Waiting" "[]" "\<lambda>_. Waiting" "\<lambda>_. Waiting" "\<lambda>_ _. Response 200" "\<lambda>_ _. None"]
    by simp
qed

end
