(* ===== verification/Table_Laws.thy ===== *)
theory Table_Laws
  imports Event_Service DLQ_Service Worker
begin

text \<open>
  Invariants of the tables, once for all operations.  The store methods touch the tables in few
  ways: they append rows, update rows without touching their keys, and replace the
  idempotency records.  The locale \<open>content_law\<close> asks a predicate to survive what the API's
  requests do but two: the submission of an event, which writes the idempotency records
  (\<open>submission_law\<close>), and the registration of an endpoint, which adds only endpoints whose URL was
  accepted; \<open>service_law\<close> asks for both, with any endpoint; \<open>request_law\<close> asks for what the circuit
  breaker does as well, \<open>table_law\<close> also for any update of deliveries.  Inside, every operation
  is shown to preserve the predicate.  Connection failures, lost answers and roll backs are
  covered, because a predicate on the tables does not look at the connection.  What a worker
  does before it marks the delivery already keeps the weaker \<open>attempt_law\<close>, and in particular
  the deliveries.
\<close>

section \<open>The laws\<close>

locale tables_only =
  fixes I :: "db \<Rightarrow> bool"
  assumes tables: "table_pred I"

locale attempt_law = tables_only +
  assumes upd_endpoints: "keeps_endpoint_keys f \<Longrightarrow> I s \<Longrightarrow> I (s\<lparr>endpoints := upd_where p f (endpoints s)\<rparr>)"
    and add_attempt: "I s \<Longrightarrow> I (s\<lparr>attempts := attempts s @ [ar]\<rparr>)"
    and upd_attempts: "I s \<Longrightarrow> I (s\<lparr>attempts := upd_where q (outcome_row out now c rsn) (attempts s)\<rparr>)"

locale content_law = tables_only +
  assumes upd_secrets: "I s \<Longrightarrow> I (s\<lparr>endpoints := upd_where p (er_signing_secret_update g) (endpoints s)\<rparr>)"
    and add_tenant: "I s \<Longrightarrow> I (s\<lparr>tenants := tenants s @ [tr]\<rparr>)"
    and add_event: "I s \<Longrightarrow> I (s\<lparr>events := events s @ [vr]\<rparr>)"
    and add_delivery: "I s \<Longrightarrow> I (s\<lparr>deliveries := deliveries s @ [new_delivery v e src (now_ts s) t i]\<rparr>)"

locale submission_law = content_law +
  assumes set_records: "I s \<Longrightarrow> I (s\<lparr>idempotency_records := rs\<rparr>)"

locale service_law = submission_law +
  assumes add_endpoint: "I s \<Longrightarrow> I (s\<lparr>endpoints := endpoints s @ [er]\<rparr>)"

locale request_law = attempt_law +
  assumes add_tenant: "I s \<Longrightarrow> I (s\<lparr>tenants := tenants s @ [tr]\<rparr>)"
    and add_event: "I s \<Longrightarrow> I (s\<lparr>events := events s @ [vr]\<rparr>)"
    and add_delivery: "I s \<Longrightarrow> I (s\<lparr>deliveries := deliveries s @ [new_delivery v e src (now_ts s) t i]\<rparr>)"
    and set_records: "I s \<Longrightarrow> I (s\<lparr>idempotency_records := rs\<rparr>)"

sublocale request_law \<subseteq> content?: submission_law
  by unfold_locales
    (auto simp: keeps_endpoint_keys_def upd_endpoints add_tenant add_event add_delivery set_records)

locale table_law = request_law +
  assumes upd_deliveries: "keeps_delivery_keys f \<Longrightarrow> I s \<Longrightarrow> I (s\<lparr>deliveries := upd_where p f (deliveries s)\<rparr>)"

lemma preserves_self: "(\<And>s. I s \<Longrightarrow> I (snd (f s s))) \<Longrightarrow> preserves I (with_state f)"
  by (simp add: preserves_def)

lemma preserves_liftV [preserves_intros]: "preserves I m \<Longrightarrow> preserves (\<lambda>sv. I (fst sv)) (liftV m)"
  by (auto simp: preserves_def liftV_def split: prod.splits)

lemma preserves_setV [preserves_intros]: "preserves (\<lambda>sv. I (fst sv)) (setV v)"
  by (simp add: preserves_def)

text \<open>The ticks keep what the statements they issue keep.\<close>

lemma Scheduler_Tick_keeps:
  assumes cs: "cs = None \<or> cs = Some circuit_store"
    and ops: "\<And>m u. preserves I (DeliveryStore_ClaimReady m u)" "\<And>i. preserves I (CircuitStore_SetProbeDelivery i)"
      "preserves I CircuitStore_OrphanedHalfOpenEndpoints" "preserves I CircuitStore_ProcessExpiredSuspensions"
  shows "preserves (\<lambda>w. I (w_db w)) (Scheduler_Tick uuid_text (scheduler_config cs n l) now)"
proof -
  have "preserves (\<lambda>w. I (w_db w)) (set_probes circuit_store ids)" for ids
    unfolding set_probes_def [abs_def] circuit_store_def SchedulerCircuitStore.simps
    by (intro for_each_preserves on_db_preserves ops)
  then have circuits: "preserves (\<lambda>w. I (w_db w)) (recover_orphans circuit_store)"
      "preserves (\<lambda>w. I (w_db w)) (expire_suspensions circuit_store)"
    unfolding recover_orphans_def expire_suspensions_def
    by (intro preserves_intros; simp add: circuit_store_def; intro on_db_preserves ops)+
  have publish: "preserves (\<lambda>w. I (w_db w)) (publish_all uuid_text Publisher_Publish ds)" for ds
    by (simp add: preserves_def publish_all_db)
  from cs show ?thesis
    unfolding Scheduler_Tick_def scheduler_config_fields
    by (elim disjE; simp only: option.case)
      (intro preserves_intros circuits on_db_preserves publish count_preserves ops; simp)+
qed

lemma Reaper_Tick_keeps:
  assumes "preserves I DeliveryStore_ResurrectExpiredLeases" and "preserves I DeliveryStore_PurgeExpiredIdempotencyRecords"
  shows "preserves (\<lambda>w. I (w_db w)) (Reaper_Tick (reaper_config t))"
  unfolding Reaper_Tick_def reaper_config_fields
  by (intro preserves_intros on_db_preserves count_preserves assms) simp

section \<open>Statements\<close>

context tables_only
begin

lemma pos: "I (s\<lparr>uuid_pos := n\<rparr>) = I s"
  using tables by (simp add: table_pred_def)

lemma statement: "preserves I m \<Longrightarrow> preserves I (stmt m)"
  by (rule preserves_stmt [OF tables])

lemma inserted:
  assumes "\<And>i s. I s \<Longrightarrow> I (add (mk i) s)"
  shows "preserves I (insert_row mk check add)"
  using assms by (auto simp: preserves_def insert_row_def Let_def pos split: option.splits)

end

text \<open>The consistency of the database is such a predicate.\<close>

interpretation consistency: tables_only db_ok
  by unfold_locales (rule table_pred_db_ok)

section \<open>An attempt up to its mark\<close>

context attempt_law
begin

lemma endpoints_updated: "keeps_endpoint_keys f \<Longrightarrow> preserves I (update_endpoints p f)"
  by (auto simp: preserves_def update_endpoints_def Let_def upd_endpoints)

lemma attempt_inserted: "preserves I (insert_attempt mk)"
  unfolding insert_attempt_def by (rule inserted; rule add_attempt, assumption)

lemmas attempt_laws = preserves_intros statement endpoints_updated attempt_inserted

lemma attempt_stores:
  "preserves I (AttemptStore_InsertStarted i n)" "preserves I (DeliveryStore_LoadForWorker i)"
  unfolding AttemptStore_InsertStarted_def DeliveryStore_LoadForWorker_def by (intro attempt_laws)+

lemma outcome_updated: "preserves I (AttemptStore_UpdateOutcome i out c rsn now)"
  unfolding AttemptStore_UpdateOutcome_def
  by (intro statement) (simp add: preserves_def upd_attempts)

lemma circuit_store_ops:
  "preserves I (CircuitStore_HandleSuccess i)" "preserves I (CircuitStore_HandleTransientFailure i cfg)"
  "preserves I (CircuitStore_HandleProbePermanentFailure i cfg)"
  "preserves I CircuitStore_ProcessExpiredSuspensions" "preserves I CircuitStore_OrphanedHalfOpenEndpoints"
  unfolding CircuitStore_HandleSuccess_def CircuitStore_HandleTransientFailure_def
    CircuitStore_HandleProbePermanentFailure_def CircuitStore_ProcessExpiredSuspensions_def
    CircuitStore_OrphanedHalfOpenEndpoints_def Let_def
  by (intro attempt_laws; simp)+

lemma worker_attempt:
  "cs = None \<or> cs = Some worker_circuit_store \<Longrightarrow>
   attempt_keeps (\<lambda>w. I (w_db w)) (NewWorker client cs ccfg peer next)"
  by (auto simp: attempt_keeps_def NewWorker_def http_do_db worker_circuit_store_def
      intro!: on_db_preserves attempt_stores outcome_updated circuit_store_ops)

end

section \<open>Requests\<close>

context content_law
begin

lemma secrets_updated: "preserves I (update_endpoints p (er_signing_secret_update g))"
  by (auto simp: preserves_def update_endpoints_def Let_def upd_secrets)

lemma rows_inserted:
  "preserves I (insert_tenant mkt)" "preserves I (insert_event mkv)"
  unfolding insert_tenant_def insert_event_def
  by (rule inserted; rule add_tenant add_event, assumption)+

lemma delivery_inserted:
  assumes "I s"
  shows "I (snd (insert_delivery (new_delivery v e src (now_ts s) t) s))"
proof -
  have "I (s\<lparr>uuid_pos := n, deliveries := deliveries s @ [new_delivery v e src (now_ts s) t i]\<rparr>)" for n i
    using add_delivery [OF assms [folded pos [of n s]]] by simp
  with assms show ?thesis
    by (simp add: insert_delivery_def insert_row_def Let_def pos split: option.splits)
qed

lemma null_refused: "preserves I (\<lambda>s. (Inl e, s\<lparr>uuid_pos := Suc (uuid_pos s)\<rparr>))"
  by (simp add: preserves_def pos)

lemmas laws = preserves_intros statement secrets_updated rows_inserted null_refused

lemma entity_stores:
  "preserves I (TenantStore_Insert name)" "preserves I (TenantStore_GetByID i)"
  "preserves I (EndpointStore_GetByID i)" "preserves I (EndpointStore_UpdateSecret i k)"
  unfolding TenantStore_Insert_def TenantStore_GetByID_def EndpointStore_GetByID_def EndpointStore_UpdateSecret_def
  by (intro laws; simp)+

lemma insert_values:
  "I s \<Longrightarrow> I (snd (insert_delivery_values t (new_delivery v e src (now_ts s)) s))"
  by (cases t) (simp_all add: insert_delivery_values_def delivery_inserted pos)

lemma event_values: "preserves I (insert_event_values jsonb e t payload)"
  using rows_inserted(2) by (auto simp: preserves_def insert_event_values_def pos split: option.splits)

lemma account_services:
  "preserves I (TenantService_Create tenant_service name)"
  "preserves I (EndpointService_RotateSecret rand_read endpoint_service i)"
  unfolding TenantService_Create_def EndpointService_RotateSecret_def endpoint_service_fields
  by (intro laws entity_stores; simp add: tenant_service_def; intro laws entity_stores)+

lemma endpoint_stored:
  assumes "\<And>er s. I s \<Longrightarrow> er_url er = ep_URL e \<Longrightarrow> I (s\<lparr>endpoints := endpoints s @ [er]\<rparr>)"
  shows "preserves I (EndpointStore_Insert e)"
proof -
  have "preserves I (insert_endpoint (new_endpoint (ep_URL e) t k now))" for t k now
    unfolding insert_endpoint_def by (intro inserted assms) (simp_all add: new_endpoint_def)
  then show ?thesis
    unfolding EndpointStore_Insert_def by (cases "ep_SigningSecret e"; simp only: option.case; intro laws)
qed

text \<open>A registration adds only endpoints whose URL has been accepted.\<close>

lemma registration:
  assumes "\<And>er s. I s \<Longrightarrow> ValidateURL parse (er_url er) = None \<Longrightarrow> I (s\<lparr>endpoints := endpoints s @ [er]\<rparr>)"
  shows "preserves I (EndpointService_Register parse rand_read endpoint_service url i)"
proof (cases "ValidateURL parse url")
  case None
  then have "preserves I (EndpointStore_Insert e)" if "ep_URL e = url" for e
    using that assms by (intro endpoint_stored) simp
  from this [OF Endpoint.select_convs(2)] show ?thesis
    unfolding EndpointService_Register_def None check_tenant_exists_def endpoint_service_fields option.case
    by (intro laws entity_stores)
qed (simp add: EndpointService_Register_def preserves_def)

lemma replay_inserted: "preserves I (DeliveryStore_CreateReplay v e src)"
  unfolding DeliveryStore_CreateReplay_def
  by (intro laws preserves_self insert_values)

lemma delivery_reads:
  "preserves I (DeliveryStore_GetByID i)" "preserves I (DeliveryStore_HasNonTerminalReplay i)"
  "preserves I (DeliveryStore_ListPermanentlyFailedIDs filt)"
  unfolding DeliveryStore_GetByID_def DeliveryStore_HasNonTerminalReplay_def
    DeliveryStore_ListPermanentlyFailedIDs_def
  by (intro laws)+

lemmas store_laws = laws entity_stores replay_inserted delivery_reads

lemma replay_service: "preserves I (dlqService_Replay dlq_service i)"
  unfolding dlqService_Replay_def dlq_service_def dlqService.simps by (intro store_laws)

lemma bulk_loop: "preserves I (bulk_replay_loop dlq_service n ids)"
proof (induction ids arbitrary: n)
  case Nil
  show ?case unfolding bulk_replay_loop.simps by (intro laws)
next
  case (Cons i ids)
  then show ?case
    unfolding bulk_replay_loop.simps dlq_service_def dlqService.simps by (intro store_laws)
qed

lemma bulk_service: "preserves I (dlqService_BulkReplay dlq_service filt)"
proof -
  have must: "preserves I (must_exist get field a b)" if "\<And>i. preserves I (get i)" for get field a b
    unfolding must_exist_def by (intro laws that)
  have fields: "dq_GetTenant dlq_service = TenantStore_GetByID" "dq_GetEndpoint dlq_service = EndpointStore_GetByID"
      "dq_ListPermanentlyFailedIDs dlq_service = DeliveryStore_ListPermanentlyFailedIDs"
    by (simp_all add: dlq_service_def)
  show ?thesis
    unfolding dlqService_BulkReplay_def fields by (intro store_laws bulk_loop must)
qed

end

context submission_law
begin

lemma records_replaced: "preserves I (\<lambda>s. (r s, s\<lparr>idempotency_records := g s\<rparr>))"
  by (simp add: preserves_def set_records)

lemma idempotency_store:
  "preserves I (IdempotencyTxStore_AcquireAdvisoryLock e k)" "preserves I (IdempotencyTxStore_Lookup e k)"
  "preserves I (IdempotencyTxStore_Claim e k h)" "preserves I (IdempotencyTxStore_Complete e k v d)"
proof -
  have "I (s\<lparr>uuid_pos := n, idempotency_records := rs\<rparr>)" if "I s" for s n rs
    using set_records [OF that [folded pos [of n s]]] by simp
  then have records: "preserves I (upsert_claim e k h)" "preserves I (set_complete e k v d)"
    by (auto simp: preserves_def upsert_claim_def set_complete_def Let_def pos set_records)
  show "preserves I (IdempotencyTxStore_Claim e k h)" "preserves I (IdempotencyTxStore_Complete e k v d)"
    unfolding IdempotencyTxStore_Claim_def IdempotencyTxStore_Complete_def by (intro laws records)+
  show "preserves I (IdempotencyTxStore_AcquireAdvisoryLock e k)" "preserves I (IdempotencyTxStore_Lookup e k)"
    unfolding IdempotencyTxStore_AcquireAdvisoryLock_def IdempotencyTxStore_Lookup_def by (intro laws)+
qed

lemma submission_body: "preserves (\<lambda>sv. I (fst sv)) (submit_body jsonb e payload k raw t)"
proof -
  have "preserves (\<lambda>sv. I (fst sv)) (claim_unless_cached e k raw x)" for x
    unfolding claim_unless_cached_def Let_def by (intro laws idempotency_store)
  then have "preserves (\<lambda>sv. I (fst sv)) (claim_key e k raw)"
    unfolding claim_key_def by (intro laws idempotency_store)
  then show ?thesis
    unfolding submit_body_def
    by (intro laws idempotency_store event_values preserves_self delivery_inserted) simp_all
qed

lemma submission: "preserves I (submit jsonb e payload k raw t)"
proof -
  have "preserves I (\<lambda>s. case InTx (submit_body jsonb e payload k raw t) (s, None) of
      (Inr _, (s', d)) \<Rightarrow> (Inr d, s')
    | (Inl e, (s', d)) \<Rightarrow> if e = ErrCachedResult then (Inr d, s') else (Inl (Wrap ''submit event'' e), s'))"
  proof (rule preservesI)
    fix s assume "I s"
    have "I (fst (snd (InTx (submit_body jsonb e payload k raw t) (s, None))))"
      by (rule InTx_keeps [OF tables _ \<open>I s\<close>]) (metis fst_conv preservesD_eq submission_body)
    then show "I (snd (case InTx (submit_body jsonb e payload k raw t) (s, None) of
        (Inr _, (s', d)) \<Rightarrow> (Inr d, s')
      | (Inl e, (s', d)) \<Rightarrow> if e = ErrCachedResult then (Inr d, s') else (Inl (Wrap ''submit event'' e), s')))"
      by (auto split: prod.splits sum.splits)
  qed
  then show ?thesis
    unfolding EventService_Submit_def EndpointService_Get_def check_tenant_exists_def endpoint_service_fields option.case
    by (intro laws entity_stores)
qed

end

context service_law
begin

lemma entity_services:
  "preserves I (TenantService_Create tenant_service name)"
  "preserves I (EndpointService_Register parse rand_read endpoint_service url i)"
  "preserves I (EndpointService_RotateSecret rand_read endpoint_service i)"
  by (rule account_services registration, (erule add_endpoint)?)+

end

section \<open>Everything\<close>

context table_law
begin

lemma deliveries_updated: "keeps_delivery_keys f \<Longrightarrow> preserves I (update_deliveries p f)"
  by (auto simp: preserves_def update_deliveries_def Let_def upd_deliveries)

lemma delivery_ops:
  "preserves I (DeliveryStore_ClaimReady n l)" "preserves I (DeliveryStore_MarkDelivered i)"
  "preserves I (DeliveryStore_MarkPermanentlyFailed i)" "preserves I (DeliveryStore_MarkInFlight i l)"
  "preserves I (DeliveryStore_Reschedule i n')" "preserves I DeliveryStore_ResurrectExpiredLeases"
  "preserves I DeliveryStore_PurgeExpiredIdempotencyRecords" "preserves I (CircuitStore_SetProbeDelivery i)"
  unfolding DeliveryStore_ClaimReady_def DeliveryStore_MarkDelivered_def DeliveryStore_MarkPermanentlyFailed_def
    DeliveryStore_MarkInFlight_def DeliveryStore_Reschedule_def mark_by_id_def
    DeliveryStore_ResurrectExpiredLeases_def DeliveryStore_PurgeExpiredIdempotencyRecords_def
    CircuitStore_SetProbeDelivery_def Let_def
  by (intro laws endpoints_updated deliveries_updated records_replaced; simp)+

text \<open>The steps of the processes, on the state of the world.\<close>

lemma scheduler_tick:
  "cs = None \<or> cs = Some circuit_store \<Longrightarrow>
   preserves (\<lambda>w. I (w_db w)) (Scheduler_Tick uuid_text (scheduler_config cs n l) now)"
  by (intro Scheduler_Tick_keeps delivery_ops circuit_store_ops)

lemma reaper_tick: "preserves (\<lambda>w. I (w_db w)) (Reaper_Tick (reaper_config t))"
  by (intro Reaper_Tick_keeps delivery_ops)

lemma worker_operations:
  "cs = None \<or> cs = Some worker_circuit_store \<Longrightarrow>
   operations_keep (\<lambda>w. I (w_db w)) (NewWorker client cs ccfg peer next)"
  using worker_attempt [of cs client ccfg peer "next"]
  by (auto simp: operations_keep_def NewWorker_def intro!: on_db_preserves delivery_ops)

lemma worker_one:
  assumes "cs = None \<or> cs = Some worker_circuit_store"
  shows "preserves (\<lambda>w. I (w_db w)) (Worker_ProcessOne parse unmarshal schedule (NewWorker client cs ccfg peer next) ck)"
proof -
  have fetch: "wk_Fetch (NewWorker client cs ccfg peer next) = Consumer_FetchMessage"
    and commit: "wk_Commit (NewWorker client cs ccfg peer next) = Consumer_Commit"
    by (simp_all add: NewWorker_def)
  show ?thesis
    unfolding Worker_ProcessOne_def fetch commit
    by (intro preserves_intros process_keeps worker_operations assms)
qed

end

end
