(* ===== verification/System.thy ===== *)
theory System
  imports Table_Laws Server
begin

text \<open>
  The whole service as a transition system.  A step is one request served by the API, one tick of
  the scheduler or of the reaper, one message handled by a worker, or one move of the
  environment: time passes, the broker hands out messages of the topic (in any order, any
  number of times), the connection and the broker fail as they like.

  Two kinds of statements follow: what holds in every reachable state, and what holds along
  every run.
\<close>

section \<open>Steps\<close>

text \<open>What a deployment fixes.\<close>

record deployment =
  sy_parse :: "string \<Rightarrow> string + parsed_url"
  sy_jsonb :: "bytes \<Rightarrow> bytes option"
  sy_uuid_text :: "uuid \<Rightarrow> string"
  sy_unmarshal :: "bytes \<Rightarrow> err + uuid"
  sy_schedule :: "duration list"
  sy_batch :: int
  sy_lease :: duration
  sy_circuits :: bool
  sy_CircuitCfg :: CircuitConfig
  sy_peer :: "http_request list \<Rightarrow> http_request \<Rightarrow> http_result"
  sy_hop :: "http_request \<Rightarrow> int \<Rightarrow> http_request option"

datatype action =
    CreateTenant "string option"
  | RegisterEndpoint "nat \<Rightarrow> err + bytes" string uuid
  | RotateSecret "nat \<Rightarrow> err + bytes" uuid
  | SubmitEvent uuid "bytes option" string bytes uuid
  | ReplayDelivery uuid
  | ReplayAll DLQFilter
  | SchedulerTicks instant
  | ReaperTicks
  | WorkerHandles clock
  | TimePasses duration
  | BrokerHandsOut "message list"
  | ConnectionBecomes "fault list"
  | BrokerAnswers "(nat \<times> err) option list"

definition at_db :: "('e, db, 'a) prog \<Rightarrow> world \<Rightarrow> world" where
  "at_db m w = w\<lparr>w_db := snd (m (w_db w))\<rparr>"

definition scheduler_of :: "deployment \<Rightarrow> world SchedulerConfig" where
  "scheduler_of sys = scheduler_config (if sy_circuits sys then Some circuit_store else None) (sy_batch sys) (sy_lease sys)"

definition worker_of :: "deployment \<Rightarrow> world WorkerConfig" where
  "worker_of sys = NewWorker None (if sy_circuits sys then Some worker_circuit_store else None)
     (sy_CircuitCfg sys) (sy_peer sys) (sy_hop sys)"

definition handle_message :: "deployment \<Rightarrow> clock \<Rightarrow> (err, world, unit) prog" where
  "handle_message sys ck = Worker_ProcessOne (sy_parse sys) (sy_unmarshal sys) (sy_schedule sys) (worker_of sys) ck"

fun perform :: "deployment \<Rightarrow> action \<Rightarrow> world \<Rightarrow> world" where
  "perform sys (CreateTenant name) w = at_db (TenantService_Create tenant_service name) w"
| "perform sys (RegisterEndpoint rnd url t) w = at_db (EndpointService_Register (sy_parse sys) rnd endpoint_service url t) w"
| "perform sys (RotateSecret rnd i) w = at_db (EndpointService_RotateSecret rnd endpoint_service i) w"
| "perform sys (SubmitEvent e payload k raw t) w = at_db (submit (sy_jsonb sys) e payload k raw t) w"
| "perform sys (ReplayDelivery i) w = at_db (dlqService_Replay dlq_service i) w"
| "perform sys (ReplayAll filt) w = at_db (dlqService_BulkReplay dlq_service filt) w"
| "perform sys (SchedulerTicks now) w = snd (Scheduler_Tick (sy_uuid_text sys) (scheduler_of sys) now w)"
| "perform sys ReaperTicks w = snd (Reaper_Tick (reaper_config 0) w)"
| "perform sys (WorkerHandles ck) w = snd (handle_message sys ck w)"
| "perform sys (TimePasses t) w = w\<lparr>w_db := (w_db w)\<lparr>now_ts := now_ts (w_db w) + t\<rparr>\<rparr>"
| "perform sys (BrokerHandsOut ms) w = w\<lparr>w_inbox := w_inbox w @ ms\<rparr>"
| "perform sys (ConnectionBecomes fs) w = w\<lparr>w_db := (w_db w)\<lparr>faults := fs\<rparr>\<rparr>"
| "perform sys (BrokerAnswers as) w = w\<lparr>w_acks := as\<rparr>"

text \<open>The clock of the database does not run backwards, and the broker makes no messages up.\<close>

definition allowed :: "action \<Rightarrow> world \<Rightarrow> bool" where
  "allowed a w \<longleftrightarrow> (case a of
     TimePasses t \<Rightarrow> 0 \<le> t
   | BrokerHandsOut ms \<Rightarrow> set ms \<subseteq> set (w_topic w)
   | _ \<Rightarrow> True)"

inductive step :: "deployment \<Rightarrow> world \<Rightarrow> world \<Rightarrow> bool" for sys where
  act: "allowed a w \<Longrightarrow> step sys w (perform sys a w)"

inductive_cases stepE: "step sys w w'"

text \<open>The state after the migrations: only the default tenant of migration 005 exists.\<close>

definition migrated_db :: "instant \<Rightarrow> (nat \<Rightarrow> uuid) \<Rightarrow> db" where
  "migrated_db t src = (empty_db t src)\<lparr>tenants := [\<lparr>tr_id = 1, tr_name = Some ''system-default-tenant'', tr_created_at = t\<rparr>]\<rparr>"

definition initial :: "instant \<Rightarrow> (nat \<Rightarrow> uuid) \<Rightarrow> world" where
  "initial t src = \<lparr>w_db = migrated_db t src, w_topic = [], w_inbox = [], w_committed = [], w_acks = [],
     w_sent = [], w_claimed = 0, w_resurrected = 0\<rparr>"

inductive reachable :: "deployment \<Rightarrow> world \<Rightarrow> bool" for sys where
  start: "reachable sys (initial t src)"
| further: "reachable sys w \<Longrightarrow> step sys w w' \<Longrightarrow> reachable sys w'"

section \<open>Every reachable state is consistent\<close>

lemma at_db_preserves: "preserves I m \<Longrightarrow> I (w_db w) \<Longrightarrow> I (w_db (at_db m w))"
  by (simp add: at_db_def preserves_def)

lemma worker_one_preserves:
  "cs = None \<or> cs = Some worker_circuit_store \<Longrightarrow>
   preserves world_ok (Worker_ProcessOne parse unmarshal schedule (NewWorker client cs ccfg peer hop) ck)"
proof -
  assume "cs = None \<or> cs = Some worker_circuit_store"
  then have "preserves world_ok (Worker_process parse schedule (NewWorker client cs ccfg peer hop) ck i)" for i
    by (rule process_preserves)
  moreover have "wk_Fetch (NewWorker client cs ccfg peer hop) = Consumer_FetchMessage"
      "wk_Commit (NewWorker client cs ccfg peer hop) = Consumer_Commit"
    by (simp_all add: NewWorker_def)
  ultimately show ?thesis
    unfolding Worker_ProcessOne_def by (simp only:) (intro preserves_intros)
qed

lemma perform_db_ok:
  assumes "db_ok (w_db w)"
  shows "db_ok (w_db (perform sys a w))"
proof (cases a)
  case (SchedulerTicks now)
  with assms show ?thesis
    using preservesD [OF Scheduler_Tick_preserves, of _ w] by (simp add: scheduler_of_def)
next
  case ReaperTicks
  with assms show ?thesis using preservesD [OF Reaper_Tick_preserves, of w] by simp
next
  case (WorkerHandles ck)
  with assms show ?thesis
    using preservesD [OF worker_one_preserves, of _ w] by (simp add: handle_message_def worker_of_def)
qed (use assms in \<open>auto intro!: at_db_preserves services_preserve submit_preserves dlq_preserve\<close>)

lemma migrated_db_ok: "db_ok (migrated_db t src)"
  by (simp add: migrated_db_def db_ok_defs empty_db_def replay_index_ok_def)

lemma reachable_db_ok: "reachable sys w \<Longrightarrow> db_ok (w_db w)"
  by (induction rule: reachable.induct) (auto simp: initial_def migrated_db_ok perform_db_ok elim!: stepE)

section \<open>Nothing is lost\<close>

text \<open>What of a row never changes, and the relation of having only grown.\<close>

definition delivery_key :: "delivery_row \<Rightarrow> uuid \<times> uuid \<times> uuid \<times> uuid \<times> uuid option \<times> instant" where
  "delivery_key d = (dr_id d, dr_event_id d, dr_endpoint_id d, dr_tenant_id d, dr_source_delivery_id d, dr_created_at d)"

definition endpoint_key :: "endpoint_row \<Rightarrow> uuid \<times> uuid \<times> string" where
  "endpoint_key e = (er_id e, er_tenant_id e, er_url e)"

definition attempt_key :: "attempt_row \<Rightarrow> uuid \<times> uuid \<times> int \<times> instant" where
  "attempt_key a = (ar_id a, ar_delivery_id a, ar_sequence a, ar_started_at a)"

definition grown :: "db \<Rightarrow> db \<Rightarrow> bool" where
  "grown s0 s \<longleftrightarrow> set (tenants s0) \<subseteq> set (tenants s) \<and> set (events s0) \<subseteq> set (events s) \<and>
     endpoint_key ` set (endpoints s0) \<subseteq> endpoint_key ` set (endpoints s) \<and>
     delivery_key ` set (deliveries s0) \<subseteq> delivery_key ` set (deliveries s) \<and>
     attempt_key ` set (attempts s0) \<subseteq> attempt_key ` set (attempts s)"

lemma grown_refl: "grown s s"
  by (simp add: grown_def)

lemma grown_trans: "grown a b \<Longrightarrow> grown b c \<Longrightarrow> grown a c"
  unfolding grown_def by (meson subset_trans)

lemma grown_clock [simp]: "grown s0 (s\<lparr>now_ts := t\<rparr>) = grown s0 s" "grown s0 (s\<lparr>faults := fs\<rparr>) = grown s0 s"
  by (simp_all add: grown_def)

lemma key_image_upd: "(\<And>r. key (f r) = key r) \<Longrightarrow> key ` set (upd_where p f rows) = key ` set rows"
  by (metis list.set_map map_upd_where)

interpretation history: table_law "grown s0" for s0
proof unfold_locales
  show "table_pred (grown s0)" by (simp add: table_pred_def grown_def)
  fix s
  show "grown s0 s \<Longrightarrow> keeps_endpoint_keys f \<Longrightarrow> grown s0 (s\<lparr>endpoints := upd_where p f (endpoints s)\<rparr>)" for f p
    by (simp add: grown_def endpoint_key_def keeps_endpoint_keys_def key_image_upd)
  show "grown s0 s \<Longrightarrow> keeps_delivery_keys f \<Longrightarrow> grown s0 (s\<lparr>deliveries := upd_where p f (deliveries s)\<rparr>)" for f p
    by (simp add: grown_def keeps_delivery_keys_def delivery_key_def key_image_upd)
  show "grown s0 s \<Longrightarrow> grown s0 (s\<lparr>attempts := upd_where q (outcome_row out now c rsn) (attempts s)\<rparr>)" for q out now c rsn
    by (simp add: grown_def attempt_key_def outcome_row_def key_image_upd)
qed (auto simp: grown_def)

interpretation history_requests: service_law "grown s0" for s0
  by unfold_locales (auto simp: grown_def)

lemma scheduler_of_law:
  assumes "table_law I"
  shows "preserves (\<lambda>w. I (w_db w)) (Scheduler_Tick uuid_text (scheduler_of sys) now)"
  unfolding scheduler_of_def by (intro table_law.scheduler_tick [OF assms]) simp

lemma handle_message_law:
  assumes "table_law I"
  shows "preserves (\<lambda>w. I (w_db w)) (handle_message sys ck)"
  unfolding handle_message_def worker_of_def by (intro table_law.worker_one [OF assms]) simp

lemma perform_grown: "grown (w_db w) (w_db (perform sys a w))"
proof -
  have self: "grown (w_db w) (w_db w)" by (rule grown_refl)
  note law = history.table_law_axioms [of "w_db w"]
  show ?thesis
  proof (cases a)
    case (SchedulerTicks now)
    with self show ?thesis using preservesD [OF scheduler_of_law [OF law], of w] by simp
  next
    case ReaperTicks
    with self show ?thesis using preservesD [OF history.reaper_tick, of "w_db w" w] by simp
  next
    case (WorkerHandles ck)
    with self show ?thesis using preservesD [OF handle_message_law [OF law], of w] by simp
  qed (simp_all add: self at_db_preserves [of "grown (w_db w)"] history_requests.entity_services
      history.submission history.replay_service history.bulk_service)
qed

section \<open>Order within a tenant, and the budget\<close>

text \<open>A delivery in flight has no open delivery of its tenant before it; an open delivery has used
  at most eight attempts and none more than nine; and nothing was created in the future.\<close>

definition in_order :: "delivery_row list \<Rightarrow> bool" where
  "in_order rows \<longleftrightarrow> (\<forall>d \<in> set rows. \<forall>d2 \<in> set rows. dr_status d = InFlight \<and>
     dr_tenant_id d2 = dr_tenant_id d \<and> dr_created_at d2 < dr_created_at d \<longrightarrow> terminal (dr_status d2))"

definition in_budget :: "delivery_row \<Rightarrow> bool" where
  "in_budget d \<longleftrightarrow> dr_attempt_count d \<le> (if terminal (dr_status d) then MaxAttempts else MaxAttempts - 1)"

definition orderly :: "db \<Rightarrow> bool" where
  "orderly s \<longleftrightarrow> in_order (deliveries s) \<and> (\<forall>d \<in> set (deliveries s). in_budget d \<and> dr_created_at d \<le> now_ts s)"

lemma orderly_add:
  assumes "orderly s"
  shows "orderly (s\<lparr>deliveries := deliveries s @ [new_delivery v e src (now_ts s) t i]\<rparr>)"
  using assms by (auto simp: orderly_def in_order_def in_budget_def new_delivery_def MaxAttempts_def)

interpretation requests: request_law orderly
  by unfold_locales (auto simp: orderly_add, auto simp: orderly_def table_pred_def)

interpretation orderly_requests: service_law orderly
  by unfold_locales (auto simp: orderly_def)

text \<open>An update that neither puts a delivery in flight nor revives one keeps the order.\<close>

lemma orderly_update:
  assumes "orderly s" and keys: "keeps_delivery_keys f"
    and flight: "\<And>d. d \<in> set (deliveries s) \<Longrightarrow> p d \<Longrightarrow> dr_status (f d) = InFlight \<Longrightarrow> dr_status d = InFlight"
    and revive: "\<And>d. d \<in> set (deliveries s) \<Longrightarrow> p d \<Longrightarrow> terminal (dr_status d) \<Longrightarrow> terminal (dr_status (f d))"
    and budget: "\<And>d. d \<in> set (deliveries s) \<Longrightarrow> p d \<Longrightarrow> in_budget d \<Longrightarrow> in_budget (f d)"
  shows "orderly (s\<lparr>deliveries := upd_where p f (deliveries s)\<rparr>)"
proof -
  have k: "dr_tenant_id (f d) = dr_tenant_id d" "dr_created_at (f d) = dr_created_at d" for d
    using keys by (simp_all add: keeps_delivery_keys_def)
  have "in_order (upd_where p f (deliveries s))"
    unfolding in_order_def ball_upd_where
    using assms(1) flight revive by (auto simp: orderly_def in_order_def k)
  then show ?thesis
    using assms(1) budget by (auto simp: orderly_def ball_upd_where k)
qed

lemma orderly_tables: "table_pred orderly"
  by (rule requests.tables)

lemma update_orderly:
  assumes "keeps_delivery_keys f"
    and "\<And>d. p d \<Longrightarrow> dr_status (f d) = InFlight \<Longrightarrow> dr_status d = InFlight"
    and "\<And>d. p d \<Longrightarrow> terminal (dr_status d) \<Longrightarrow> terminal (dr_status (f d))"
    and "\<And>d. p d \<Longrightarrow> in_budget d \<Longrightarrow> in_budget (f d)"
  shows "preserves orderly (update_deliveries p f)"
  using assms orderly_update by (auto simp: preserves_def update_deliveries_def Let_def)

lemma preserves_conj: "preserves I m \<Longrightarrow> preserves J m \<Longrightarrow> preserves (\<lambda>s. I s \<and> J s) m"
  by (simp add: preserves_def)

abbreviation sound :: "db \<Rightarrow> bool" where "sound \<equiv> \<lambda>s. db_ok s \<and> orderly s"

text \<open>A claim puts in flight only what nothing open precedes.\<close>

lemma claim_orderly:
  assumes ok: "db_ok s" and ord: "orderly s"
  shows "orderly (s\<lparr>deliveries := upd_where (\<lambda>d. dr_id d \<in> set (map dr_id (claim_batch n s))) (claimed_row l (now_ts s)) (deliveries s)\<rparr>)"
    (is "orderly (s\<lparr>deliveries := upd_where ?p ?f (deliveries s)\<rparr>)")
proof -
  have ready: "ready s d" if "d \<in> set (deliveries s)" "?p d" for d
    using claimed_iff [OF db_ok_schema [OF ok] that(1)] that(2) set_claim_batch by blast
  have keys: "dr_tenant_id (?f d) = dr_tenant_id d" "dr_created_at (?f d) = dr_created_at d"
      "dr_attempt_count (?f d) = dr_attempt_count d" "dr_status (?f d) = InFlight" for d
    by (simp_all add: claimed_row_def)
  have before: "terminal (dr_status d2) \<and> \<not> ?p d2"
    if "d \<in> set (deliveries s)" "d2 \<in> set (deliveries s)" "?p d \<or> dr_status d = InFlight"
      "dr_tenant_id d2 = dr_tenant_id d" "dr_created_at d2 < dr_created_at d" for d d2
  proof -
    have "terminal (dr_status d2)"
    proof (cases "?p d")
      case True
      from ready [OF that(1) this] that(2) have "\<not> blocks d2 d" by (auto simp: ready_def list_ex_iff)
      moreover have "dr_id d2 \<noteq> dr_id d"
        using that unique_row [of dr_id "deliveries s" d2 d] db_ok_schema [OF ok] by (auto simp: schema_defs)
      ultimately show ?thesis using that(4,5) by (simp add: blocks_def)
    next
      case False
      with that ord show ?thesis by (auto simp: orderly_def in_order_def)
    qed
    with ready [OF that(2)] show ?thesis by (auto simp: ready_def)
  qed
  have "in_order (upd_where ?p ?f (deliveries s))"
    unfolding in_order_def ball_upd_where keys using before by blast
  moreover have "in_budget (?f d)" if "d \<in> set (deliveries s)" "?p d" for d
  proof -
    have "in_budget d" using ord that(1) by (simp add: orderly_def)
    then show ?thesis using ready [OF that] by (simp add: in_budget_def keys ready_def)
  qed
  ultimately show ?thesis using ord by (auto simp: orderly_def ball_upd_where keys)
qed

section \<open>What an attempt may do to the deliveries\<close>

definition same_deliveries :: "delivery_row list \<Rightarrow> instant \<Rightarrow> db \<Rightarrow> bool" where
  "same_deliveries rows t s \<longleftrightarrow> deliveries s = rows \<and> now_ts s = t"

interpretation unmarked: attempt_law "same_deliveries rows t" for rows t
  by unfold_locales (simp_all add: same_deliveries_def table_pred_def)

lemma mark_by_id_cases:
  "deliveries (snd (mark_by_id i f s)) = deliveries s \<or>
   deliveries (snd (mark_by_id i f s)) = upd_where (\<lambda>d. dr_id d = i) (f (now_ts s)) (deliveries s)"
  "now_ts (snd (mark_by_id i f s)) = now_ts s"
  by (auto simp: mark_by_id_def bindP_def stmt_def update_deliveries_def Let_def
      split: list.splits fault.splits prod.splits sum.splits if_splits)

lemma finish_cases:
  assumes "same_deliveries rows t (w_db w)"
    and n: "\<And>d. d \<in> set rows \<Longrightarrow> dr_id d = i \<Longrightarrow> n = dr_attempt_count d + 1"
  shows "\<exists>w'. snd (finish_delivery schedule (NewWorker client cs ccfg peer hop) ck e i n out w) = w' \<and>
    now_ts (w_db w') = t \<and> (deliveries (w_db w') = rows \<or>
      deliveries (w_db w') = upd_where (\<lambda>d. dr_id d = i) (settled_row schedule ck out t) rows)"
proof -
  have w: "deliveries (w_db w) = rows" "now_ts (w_db w) = t"
    using assms(1) by (simp_all add: same_deliveries_def)
  define f where "f = (if out = OutcomeSuccess then delivered_row
    else if out = OutcomePermanentFailure \<or> n \<ge> MaxAttempts then failed_row
    else rescheduled_row (ck_Reschedule ck + Delay schedule (ck_Rand ck) (n + 1)))"
  have "finish_delivery schedule (NewWorker client cs ccfg peer hop) ck e i n out w = on_db (mark_by_id i f) w"
    by (simp add: finish_delivery_def NewWorker_def no_metrics f_def DeliveryStore_MarkDelivered_def
        DeliveryStore_MarkPermanentlyFailed_def DeliveryStore_Reschedule_def)
  moreover have "upd_where (\<lambda>d. dr_id d = i) (f t) rows =
      upd_where (\<lambda>d. dr_id d = i) (settled_row schedule ck out t) rows"
    using n by (auto simp: upd_where_def f_def settled_row_def add.assoc)
  ultimately show ?thesis
    using mark_by_id_cases [of i f "w_db w"] w by (auto simp: on_db_def split: prod.splits)
qed

lemma LoadForWorker_Inr: "fst (DeliveryStore_LoadForWorker i s) = Inr wd \<Longrightarrow> worker_row i s = Some wd"
  by (auto simp: DeliveryStore_LoadForWorker_def tryP_def stmt_def worker_row_def
      split: list.splits fault.splits option.splits)

text \<open>Whatever fails on the way, the deliveries are as before or one mark later.\<close>

lemma process_deliveries:
  assumes ok: "db_ok (w_db w)" and cs: "cs = None \<or> cs = Some worker_circuit_store"
    and w': "w' = snd (Worker_process parse schedule (NewWorker client cs ccfg peer hop) ck i w)"
  shows "now_ts (w_db w') = now_ts (w_db w) \<and> (deliveries (w_db w') = deliveries (w_db w) \<or>
    (\<exists>out. deliveries (w_db w') =
       upd_where (\<lambda>d. dr_id d = i) (settled_row schedule ck out (now_ts (w_db w))) (deliveries (w_db w))))"
proof -
  let ?cfg = "NewWorker client cs ccfg peer hop" and ?s = "w_db w"
  let ?I = "\<lambda>v. same_deliveries (deliveries ?s) (now_ts ?s) (w_db v)"
  have "?I w" by (simp add: same_deliveries_def)
  from process_mark [OF unmarked.worker_attempt [OF cs] this, of parse schedule client ccfg peer hop ck i]
  consider (unmarked) "?I w'"
    | (marked) wd out w1 where "fst (wk_LoadForWorker ?cfg i w) = Inr wd" "?I w1"
        "w' = snd (finish_delivery schedule ?cfg ck (d_EndpointID (wd_Delivery wd)) i (d_AttemptCount (wd_Delivery wd) + 1) out w1)"
    using w' by auto
  then show ?thesis
  proof cases
    case unmarked
    then show ?thesis by (simp add: same_deliveries_def)
  next
    case marked
    have "fst (DeliveryStore_LoadForWorker i ?s) = Inr wd"
      using marked(1) by (simp add: NewWorker_def on_db_def split: prod.splits)
    then have "worker_row i ?s = Some wd" by (rule LoadForWorker_Inr)
    then obtain d where d: "row_by dr_id i (deliveries ?s) = Some d" "wd_Delivery wd = scanDelivery d"
      by (auto simp: worker_row_def split: option.splits)
    have "d_AttemptCount (wd_Delivery wd) + 1 = dr_attempt_count r + 1"
      if "r \<in> set (deliveries ?s)" "dr_id r = i" for r
      using that d row_by_unique [of dr_id "deliveries ?s" r] db_ok_schema [OF ok]
      by (simp add: schema_defs scanDelivery_def)
    from finish_cases [OF marked(2) this] marked(3) show ?thesis by metis
  qed
qed

lemma handle_message_db:
  "w_db (snd (handle_message sys ck w)) =
     (case w_inbox w of [] \<Rightarrow> w_db w
      | m # ms \<Rightarrow> (case sy_unmarshal sys (m_Value m) of Inl _ \<Rightarrow> w_db w
        | Inr i \<Rightarrow> w_db (snd (Worker_process (sy_parse sys) (sy_schedule sys) (worker_of sys) ck i (w\<lparr>w_inbox := ms\<rparr>)))))"
proof -
  have "wk_Fetch (worker_of sys) = Consumer_FetchMessage" "wk_Commit (worker_of sys) = Consumer_Commit"
    by (simp_all add: worker_of_def NewWorker_def)
  moreover have "w_db (snd (Consumer_Commit m v)) = w_db v" for m v
    by (simp add: Consumer_Commit_def split: list.splits option.splits)
  ultimately show ?thesis
    by (auto simp: handle_message_def Worker_ProcessOne_def Consumer_FetchMessage_def bindP_def map_errP_def
        ignore_err_run split: list.splits sum.splits prod.splits)
qed

section \<open>Guarded runs\<close>

lemma orderly_cong: "deliveries s' = deliveries s \<Longrightarrow> now_ts s' = now_ts s \<Longrightarrow> orderly s' = orderly s"
  by (simp add: orderly_def)

lemma orderly_settled:
  assumes "orderly s" and "\<forall>d \<in> set (deliveries s). dr_id d = i \<longrightarrow> \<not> terminal (dr_status d)"
  shows "orderly (s\<lparr>deliveries := upd_where (\<lambda>d. dr_id d = i) (settled_row schedule ck out t) (deliveries s)\<rparr>)"
proof (rule orderly_update [OF assms(1)])
  show "keeps_delivery_keys (settled_row schedule ck out t)"
    by (simp add: keeps_delivery_keys_def settled_row_def delivery_rows)
  show "in_budget (settled_row schedule ck out t d)"
    if "d \<in> set (deliveries s)" "dr_id d = i" "in_budget d" for d
    using that assms(2) settled_row_cases(1,2) [of schedule ck out t d] by (auto simp: in_budget_def)
qed (use assms(2) in \<open>auto simp: settled_row_def delivery_rows split: if_splits\<close>)

lemma claim_preserves:
  assumes tp: "table_pred I"
    and upd: "\<And>n l s. db_ok s \<Longrightarrow> I s \<Longrightarrow> I (s\<lparr>deliveries :=
      upd_where (\<lambda>d. dr_id d \<in> set (map dr_id (claim_batch n s))) (claimed_row l (now_ts s)) (deliveries s)\<rparr>)"
  shows "preserves (\<lambda>s. db_ok s \<and> I s) (DeliveryStore_ClaimReady n l)"
proof -
  let ?F = "with_state (\<lambda>s. if n < 0 then failP (PgError invalid_limit)
       else let claimed = claim_batch (nat n) s; ids = map dr_id claimed in
         bindP (update_deliveries (\<lambda>d. dr_id d \<in> set ids) (claimed_row l (now_ts s)))
           (\<lambda>_. returnP (map (\<lambda>d. scanDelivery (claimed_row l (now_ts s) d)) claimed)))"
  have ok: "preserves db_ok ?F"
    unfolding Let_def by (intro preserves_intros preserves_update_deliveries) auto
  have "preserves (\<lambda>s. db_ok s \<and> I s) ?F"
  proof (rule preservesI)
    fix t assume t: "db_ok t \<and> I t"
    with upd [of t "nat n" l] have "I (snd (?F t))" by (auto simp: Let_def bindP_def update_deliveries_def)
    with t preservesD [OF ok, of t] show "db_ok (snd (?F t)) \<and> I (snd (?F t))" by blast
  qed
  moreover have "table_pred (\<lambda>s. db_ok s \<and> I s)" using tp table_pred_db_ok by (simp add: table_pred_def)
  ultimately show ?thesis
    unfolding DeliveryStore_ClaimReady_def by (intro preserves_map_err preserves_stmt)
qed

lemma claim_sound: "preserves sound (DeliveryStore_ClaimReady n l)"
  by (rule claim_preserves [OF orderly_tables claim_orderly])

lemma order_kept:
  "preserves orderly (CircuitStore_SetProbeDelivery i)" "preserves orderly DeliveryStore_ResurrectExpiredLeases"
  "preserves orderly DeliveryStore_PurgeExpiredIdempotencyRecords"
proof -
  have "preserves orderly (update_deliveries p (dr_next_attempt_at_update g))" for p g
    by (rule update_orderly) (simp_all add: keeps_delivery_keys_def in_budget_def)
  then show "preserves orderly (CircuitStore_SetProbeDelivery i)"
    unfolding CircuitStore_SetProbeDelivery_def by (intro requests.attempt_laws) simp_all
  have "preserves orderly (update_deliveries (lease_expired t) (resurrected_row t'))" for t t'
    by (rule update_orderly) (auto simp: resurrected_row_def in_budget_def lease_expired_def)
  then show "preserves orderly DeliveryStore_ResurrectExpiredLeases"
    unfolding DeliveryStore_ResurrectExpiredLeases_def by (intro requests.attempt_laws)
  show "preserves orderly DeliveryStore_PurgeExpiredIdempotencyRecords"
    unfolding DeliveryStore_PurgeExpiredIdempotencyRecords_def Let_def by (intro requests.attempt_laws requests.records_replaced)
qed

text \<open>The guard: the message the worker handles next, if it names a delivery, names an open one.\<close>

definition fresh_message :: "deployment \<Rightarrow> world \<Rightarrow> bool" where
  "fresh_message sys w \<longleftrightarrow> (case w_inbox w of [] \<Rightarrow> True
     | m # _ \<Rightarrow> (case sy_unmarshal sys (m_Value m) of Inl _ \<Rightarrow> True
        | Inr i \<Rightarrow> list_all (\<lambda>d. dr_id d = i \<longrightarrow> \<not> terminal (dr_status d)) (deliveries (w_db w))))"

definition guarded :: "deployment \<Rightarrow> action \<Rightarrow> world \<Rightarrow> bool" where
  "guarded sys a w \<longleftrightarrow> allowed a w \<and> (case a of WorkerHandles _ \<Rightarrow> fresh_message sys w | _ \<Rightarrow> True)"

inductive guarded_run :: "deployment \<Rightarrow> world \<Rightarrow> world \<Rightarrow> bool" for sys w0 where
  start: "guarded_run sys w0 w0"
| further: "guarded_run sys w0 w \<Longrightarrow> guarded sys a w \<Longrightarrow> guarded_run sys w0 (perform sys a w)"

lemma handled_orderly:
  assumes "db_ok (w_db w)" and "orderly (w_db w)" and "fresh_message sys w"
  shows "orderly (w_db (snd (handle_message sys ck w)))"
proof (cases "w_inbox w")
  case (Cons m ms)
  show ?thesis
  proof (cases "sy_unmarshal sys (m_Value m)")
    case (Inr i)
    let ?w = "w\<lparr>w_inbox := ms\<rparr>"
    define w' where "w' = snd (Worker_process (sy_parse sys) (sy_schedule sys) (worker_of sys) ck i ?w)"
    have "db_ok (w_db ?w)" using assms(1) by simp
    from process_deliveries [OF this, of "if sy_circuits sys then Some worker_circuit_store else None" w' "sy_parse sys"
        "sy_schedule sys" None "sy_CircuitCfg sys" "sy_peer sys" "sy_hop sys" ck i]
    have "orderly (w_db w')"
      using orderly_settled [OF assms(2), of i] assms Inr Cons
        orderly_cong [of "w_db w'" "w_db w"] orderly_cong [of "w_db w'" "(w_db w)\<lparr>deliveries := x\<rparr>" for x]
      by (auto simp: w'_def worker_of_def fresh_message_def list_all_iff)
    then show ?thesis by (simp add: handle_message_db Cons Inr w'_def)
  qed (use assms Cons in \<open>simp add: handle_message_db\<close>)
qed (use assms in \<open>simp add: handle_message_db\<close>)

lemma perform_orderly:
  assumes ok: "db_ok (w_db w)" and ord: "orderly (w_db w)" and g: "guarded sys a w"
  shows "orderly (w_db (perform sys a w))"
proof (cases a)
  case (SchedulerTicks now)
  have both: "preserves sound m" if "preserves db_ok m" "preserves orderly m" for m :: "'x dbprog"
    using that by (rule preserves_conj)
  have "preserves (\<lambda>w. sound (w_db w)) (Scheduler_Tick (sy_uuid_text sys) (scheduler_of sys) now)"
    unfolding scheduler_of_def
    by (intro Scheduler_Tick_keeps claim_sound both order_kept requests.circuit_store_ops preserves_intros) simp
  from preservesD [OF this, of w] ok ord show ?thesis by (simp add: SchedulerTicks)
next
  case ReaperTicks
  with ord show ?thesis
    using preservesD [OF Reaper_Tick_keeps [OF order_kept(2,3)], of w] by simp
next
  case (WorkerHandles ck)
  with handled_orderly [OF ok ord] g show ?thesis by (simp add: guarded_def)
next
  case (TimePasses t)
  with g ord show ?thesis by (auto simp: guarded_def allowed_def orderly_def)
next
  case (ConnectionBecomes fs)
  with ord orderly_tables show ?thesis by (simp add: table_pred_def)
qed (simp_all add: ord at_db_preserves [of orderly] orderly_requests.entity_services
      requests.submission requests.replay_service requests.bulk_service)

lemma initial_sound: "sound (w_db (initial t src))"
  by (simp add: initial_def migrated_db_ok) (simp add: migrated_db_def empty_db_def orderly_def in_order_def)

lemma guarded_run_sound: "guarded_run sys w0 w \<Longrightarrow> sound (w_db w0) \<Longrightarrow> sound (w_db w)"
  by (induction rule: guarded_run.induct) (simp_all add: perform_orderly perform_db_ok)

section \<open>Properties\<close>

text \<open>C8. In every reachable state of the service, whatever was requested, lost, redelivered or
  answered, the constraints of the schema hold and so does what the code relies on without a
  constraint: a delivery holds a lease exactly while it is in flight, belongs to the tenant of
  its endpoint and to an event of its endpoint; an open circuit has an end and only a half open
  one a probe; a stored idempotency record names its delivery.\<close>

theorem reachable_is_consistent:
  assumes "reachable sys w"
  shows "db_ok (w_db w)"
  using assms by (rule reachable_db_ok)

definition sample_deployment :: deployment where
  "sample_deployment = \<lparr>sy_parse = (\<lambda>_. Inr \<lparr>u_Scheme = ''https'', u_Host = ''a''\<rparr>), sy_jsonb = Some,
     sy_uuid_text = (\<lambda>i. FormatInt (uint i)), sy_unmarshal = (\<lambda>_. Inr 30), sy_schedule = productionSchedule,
     sy_batch = 10, sy_lease = 100, sy_circuits = True, sy_CircuitCfg = Circuit_defaults,
     sy_peer = (\<lambda>_ _. Response 200), sy_hop = (\<lambda>_ _. None)\<rparr>"

theorem reachable_is_consistent_witness:
  "db_ok (w_db (perform sample_deployment (CreateTenant None) (initial 5 word_of_nat)))"
  by (rule reachable_is_consistent [where sys = sample_deployment], rule reachable.further, rule reachable.start,
      rule step.act) (simp add: allowed_def)

text \<open>C17. Nothing is lost: along every run tenants and events stay as they are, endpoints keep their
  tenant and URL, deliveries keep their event, endpoint, tenant and source, and recorded attempts stay.\<close>

theorem nothing_is_lost:
  assumes "(step sys)\<^sup>*\<^sup>* w w'"
  shows "grown (w_db w) (w_db w')"
  using assms
proof (induction rule: rtranclp_induct)
  case base
  show ?case by (rule grown_refl)
next
  case (step y z)
  then show ?case using perform_grown grown_trans by (blast elim: stepE)
qed

theorem nothing_is_lost_witness:
  "sample_failed \<in> set (deliveries sample_db) \<and> delivery_key sample_failed \<in>
     delivery_key ` set (deliveries (w_db (perform sample_deployment (ReplayAll \<lparr>f_TenantID = None, f_EndpointID = None\<rparr>)
       (sample_world sample_db))))"
proof -
  let ?w = "sample_world sample_db" and ?a = "ReplayAll \<lparr>f_TenantID = None, f_EndpointID = None\<rparr>"
  have "step sample_deployment ?w (perform sample_deployment ?a ?w)"
    by (rule step.act) (simp add: allowed_def)
  from nothing_is_lost [OF r_into_rtranclp, OF this]
  have "delivery_key ` set (deliveries (w_db ?w)) \<subseteq> delivery_key ` set (deliveries (w_db (perform sample_deployment ?a ?w)))"
    by (simp add: grown_def)
  moreover have "sample_failed \<in> set (deliveries (w_db ?w))" by (simp add: sample_world_def sample_db_def)
  ultimately show ?thesis by (auto simp: sample_world_def)
qed


lemma sample_orderly: "orderly sample_db"
  by (simp add: orderly_def in_order_def in_budget_def sample_defs MaxAttempts_def)


text \<open>C9. The retry budget in every run of that kind: a delivery has used at most nine attempts, and
  at most eight while it is still open.\<close>

theorem attempts_within_budget:
  assumes "db_ok (w_db w0)" and "orderly (w_db w0)" and "guarded_run sys w0 w" and "d \<in> set (deliveries (w_db w))"
  shows "dr_attempt_count d \<le> 9 \<and> (terminal (dr_status d) \<or> dr_attempt_count d \<le> 8)"
proof -
  have "in_budget d" using guarded_run_sound [OF assms(3)] assms(1,2,4) by (simp add: orderly_def)
  then show ?thesis by (auto simp: in_budget_def MaxAttempts_def split: if_splits)
qed

theorem attempts_within_budget_witness:
  "list_all (\<lambda>d. dr_attempt_count d \<le> 9)
     (deliveries (w_db (perform sample_deployment (WorkerHandles sample_clock) ((sample_world sample_db)\<lparr>w_inbox := [\<lparr>m_Key = [], m_Value = []\<rparr>]\<rparr>))))"
proof -
  let ?w = "(sample_world sample_db)\<lparr>w_inbox := [\<lparr>m_Key = [], m_Value = []\<rparr>]\<rparr>"
  have run: "guarded_run sample_deployment ?w (perform sample_deployment (WorkerHandles sample_clock) ?w)"
    by (intro guarded_run.further guarded_run.start)
      (simp add: guarded_def allowed_def fresh_message_def sample_deployment_def sample_world_def sample_defs)
  have "db_ok (w_db ?w)" "orderly (w_db ?w)" by (simp_all add: sample_world_def sample_db_ok sample_orderly)
  from attempts_within_budget [OF this run] show ?thesis by (simp add: list_all_iff)
qed

end
