(* ===== verification/Traffic.thy ===== *)
theory Traffic
  imports System
begin

text \<open>
  What leaves the service: the messages on the topic and the requests to the endpoints.  Two
  invariants of the reachable states follow, and the path of a delivery from the scheduler
  through the broker to the endpoint.
\<close>

section \<open>Requests of an attempt\<close>

lemma on_db_sent: "preserves (\<lambda>w. w_sent w = q) (on_db m)"
  by (simp add: preserves_def on_db_def split: prod.splits)

lemma settle_sent:
  assumes "cs = None \<or> cs = Some worker_circuit_store"
  shows "preserves (\<lambda>w. w_sent w = q) (settle schedule (NewWorker client cs ccfg peer hop) ck wd i a n res)"
proof -
  let ?cfg = "NewWorker client cs ccfg peer hop"
  have "preserves (\<lambda>w. w_sent w = q) (update_circuit ?cfg wd out)" for out
    using assms
    by (elim disjE; simp only: update_circuit_def Let_def NewWorker_def worker_circuit_store_def
        WorkerConfig.simps WorkerCircuitStore.simps option.case; intro preserves_intros on_db_sent)
  moreover have "preserves (\<lambda>w. w_sent w = q) (record_metrics ?cfg add)" for add
    by (simp add: preserves_def record_metrics_def NewWorker_def)
  moreover have "preserves (\<lambda>w. w_sent w = q) (finish_delivery schedule ?cfg ck e i n out)" for e out
    by (simp add: finish_delivery_def NewWorker_def no_metrics on_db_sent)
  ultimately show ?thesis
    unfolding settle_def Let_def by (intro preserves_intros) (simp add: NewWorker_def on_db_sent)
qed

lemma process_sent:
  assumes cs: "cs = None \<or> cs = Some worker_circuit_store"
  shows "w_sent (snd (Worker_process parse schedule (NewWorker None cs ccfg peer hop) ck i w)) = w_sent w \<or>
    (\<exists>wd. worker_row i (w_db w) = Some wd \<and>
       w_sent (snd (Worker_process parse schedule (NewWorker None cs ccfg peer hop) ck i w)) = w_sent w @ [signed_request ck wd])"
proof -
  let ?cfg = "NewWorker None cs ccfg peer hop"
  obtain r w1 where load: "wk_LoadForWorker ?cfg i w = (r, w1)" by fastforce
  have w1: "w_sent w1 = w_sent w" using load by (auto simp: NewWorker_def on_db_def split: prod.splits)
  show ?thesis
  proof (cases r)
    case (Inl e)
    with load w1 show ?thesis by (simp add: Worker_process_def bindP_def map_errP_def)
  next
    case (Inr wd)
    have "fst (DeliveryStore_LoadForWorker i (w_db w)) = Inr wd"
      using load Inr by (auto simp: NewWorker_def on_db_def split: prod.splits)
    then have wd: "worker_row i (w_db w) = Some wd" by (rule LoadForWorker_Inr)
    let ?n = "d_AttemptCount (wd_Delivery wd) + 1"
    obtain q w2 where ins: "wk_InsertStarted ?cfg i ?n w1 = (q, w2)" by fastforce
    have w2: "w_sent w2 = w_sent w" using ins w1 by (auto simp: NewWorker_def on_db_def split: prod.splits)
    show ?thesis
    proof (cases q)
      case (Inl e)
      with load ins w2 Inr show ?thesis by (simp add: Worker_process_def bindP_def map_errP_def Let_def)
    next
      case (Inr a)
      obtain res w3 where http: "doHTTP parse ?cfg (ck_Sign ck) (wd_EndpointURL wd) (wd_Payload wd) (wd_SigningSecret wd) w2 = (res, w3)"
        by fastforce
      then have w3: "w_sent w3 = w_sent w \<or> w_sent w3 = w_sent w @ [signed_request ck wd]"
        using w2 by (auto simp: doHTTP_def NewWorker_def http_do_default signed_request_def split: sum.splits)
      have "Worker_process parse schedule ?cfg ck i w = settle schedule ?cfg ck wd i a ?n res w3"
        using load ins http \<open>r = Inr wd\<close> Inr by (simp add: Worker_process_def bindP_def map_errP_def Let_def)
      then show ?thesis
        using w3 wd preservesD [OF settle_sent [OF cs, of "w_sent w3"], of w3 schedule None ccfg peer hop ck wd i a ?n res] by auto
    qed
  qed
qed

text \<open>A request carries a stored event's payload and a signature over it.\<close>

definition signed_delivery :: "db \<Rightarrow> http_request \<Rightarrow> bool" where
  "signed_delivery s q \<longleftrightarrow> (\<exists>secret ts. rq_Timestamp q = FormatInt ts \<and> rq_Signature q = Sign secret ts (rq_Body q)) \<and>
     rq_Body q \<in> vr_payload ` set (events s) \<and> rq_ContentType q = ''application/json''"

lemma signed_request_delivery:
  assumes "worker_row i s = Some wd"
  shows "signed_delivery s (signed_request ck wd)"
proof -
  have "wd_Payload wd \<in> vr_payload ` set (events s)"
    using assms by (auto simp: worker_row_def dest!: row_by_SomeD split: option.splits)
  then show ?thesis by (auto simp: signed_delivery_def signed_request_def)
qed

section \<open>Messages\<close>

definition names_delivery :: "deployment \<Rightarrow> db \<Rightarrow> message \<Rightarrow> bool" where
  "names_delivery sys s m \<longleftrightarrow> m \<in> delivery_message (sy_uuid_text sys) ` set (deliveries s)"

lemma publish_topic:
  "\<exists>ms. w_topic (snd (Publisher_Publish k v w)) = w_topic w @ ms \<and> set ms \<subseteq> {\<lparr>m_Key = k, m_Value = v\<rparr>}"
  by (auto simp: Publisher_Publish_def write_messages_def take_Cons split: list.splits option.splits nat.splits)

lemma publish_all_topic:
  "\<exists>ms. w_topic (snd (publish_all enc Publisher_Publish ds w)) = w_topic w @ ms \<and>
     set ms \<subseteq> (\<lambda>d. \<lparr>m_Key = enc (d_EndpointID d), m_Value = kafka_json enc (d_ID d) (d_EndpointID d)\<rparr>) ` set ds"
proof (induction ds arbitrary: w)
  case (Cons d ds)
  let ?p = "Publisher_Publish (enc (d_EndpointID d)) (kafka_json enc (d_ID d) (d_EndpointID d))"
  obtain r w1 where p: "?p w = (r, w1)" by fastforce
  from publish_topic [of "enc (d_EndpointID d)" "kafka_json enc (d_ID d) (d_EndpointID d)" w] p
  obtain ms where ms: "w_topic w1 = w_topic w @ ms"
    "set ms \<subseteq> {\<lparr>m_Key = enc (d_EndpointID d), m_Value = kafka_json enc (d_ID d) (d_EndpointID d)\<rparr>}" by auto
  from Cons.IH [of w1] obtain ms' where
    "w_topic (snd (publish_all enc Publisher_Publish ds w1)) = w_topic w1 @ ms'"
    "set ms' \<subseteq> (\<lambda>d. \<lparr>m_Key = enc (d_EndpointID d), m_Value = kafka_json enc (d_ID d) (d_EndpointID d)\<rparr>) ` set ds" by blast
  with p ms show ?case
    by (cases r) (auto simp: bindP_def map_errP_def intro: exI [of _ ms] exI [of _ "ms @ ms'"])
qed simp

lemma names_delivery_grown:
  assumes "grown s s'" and "names_delivery sys s m"
  shows "names_delivery sys s' m"
proof -
  have message: "delivery_message enc ` X = (\<lambda>(i, _, e, _). \<lparr>m_Key = enc e, m_Value = kafka_json enc i e\<rparr>) ` delivery_key ` X" for enc X
    by (simp add: image_image delivery_message_def delivery_key_def)
  have "delivery_message enc ` set (deliveries s) \<subseteq> delivery_message enc ` set (deliveries s')" for enc
    unfolding message by (rule image_mono, use assms(1) in \<open>simp add: grown_def\<close>)
  with assms(2) show ?thesis by (auto simp: names_delivery_def)
qed

lemma signed_delivery_grown: "grown s s' \<Longrightarrow> signed_delivery s q \<Longrightarrow> signed_delivery s' q"
  by (auto simp: signed_delivery_def grown_def)

lemma claim_answer:
  assumes "fst (DeliveryStore_ClaimReady n l s) = Inr ds"
  shows "\<forall>d \<in> set ds. \<exists>r \<in> set (deliveries s). d_ID d = dr_id r \<and> d_EndpointID d = dr_endpoint_id r"
proof -
  obtain s' where "DeliveryStore_ClaimReady n l s = (Inr ds, s')" using assms by (metis prod.collapse)
  then have "ds = map (\<lambda>d. scanDelivery (claimed_row l (now_ts s) d)) (claim_batch (nat n) (s\<lparr>faults := tl (faults s)\<rparr>))"
    by (auto simp: DeliveryStore_ClaimReady_def map_errP_eq_Inr Let_def bindP_eq_Inr dest!: stmt_Inr_D split: if_splits)
  moreover have "set (claim_batch (nat n) (s\<lparr>faults := tl (faults s)\<rparr>)) \<subseteq> set (deliveries s)"
    by (auto simp: claim_batch_def dest: in_set_takeD)
  ultimately show ?thesis by (auto simp: scanDelivery_def claimed_row_def)
qed

text \<open>What only the broker and the network see.\<close>

definition outside :: "world \<Rightarrow> message list \<times> message list \<times> http_request list" where
  "outside w = (w_inbox w, w_committed w, w_sent w)"

lemma on_db_outside: "preserves (\<lambda>w. w_topic w = t \<and> outside w = x) (on_db m)"
  by (simp add: preserves_def outside_def on_db_def split: prod.splits)

lemma circuits_outside:
  "preserves (\<lambda>w. w_topic w = t \<and> outside w = x) (recover_orphans circuit_store)"
  "preserves (\<lambda>w. w_topic w = t \<and> outside w = x) (expire_suspensions circuit_store)"
proof -
  have "preserves (\<lambda>w. w_topic w = t \<and> outside w = x) (set_probes circuit_store ids)" for ids
    unfolding set_probes_def [abs_def] circuit_store_def SchedulerCircuitStore.simps
    by (intro for_each_preserves on_db_outside)
  then show "preserves (\<lambda>w. w_topic w = t \<and> outside w = x) (recover_orphans circuit_store)"
      "preserves (\<lambda>w. w_topic w = t \<and> outside w = x) (expire_suspensions circuit_store)"
    unfolding recover_orphans_def expire_suspensions_def
    by (intro preserves_intros; simp add: circuit_store_def; intro on_db_outside)+
qed

lemma publish_outside: "outside (snd (publish_all enc Publisher_Publish ds w)) = outside w"
proof -
  have one: "preserves (\<lambda>w. outside w = x) (Publisher_Publish k v)" for x k v
    by (auto simp: preserves_def Publisher_Publish_def write_messages_def outside_def split: list.splits option.splits)
  have "preserves (\<lambda>v. outside v = outside w) (publish_all enc Publisher_Publish ds)"
  proof (induction ds)
    case (Cons d ds)
    then show ?case unfolding publish_all.simps by (intro preserves_intros one)
  qed (simp add: preserves_def)
  then show ?thesis by (simp add: preserves_def)
qed

lemma tick_topic:
  "\<exists>ms. w_topic (snd (Scheduler_Tick (sy_uuid_text sys) (scheduler_of sys) now w)) = w_topic w @ ms \<and>
     outside (snd (Scheduler_Tick (sy_uuid_text sys) (scheduler_of sys) now w)) = outside w \<and>
     (\<forall>m \<in> set ms. names_delivery sys (w_db (snd (Scheduler_Tick (sy_uuid_text sys) (scheduler_of sys) now w))) m)"
proof -
  let ?cfg = "scheduler_of sys" and ?enc = "sy_uuid_text sys"
  let ?pre = "case sc_CircuitStore ?cfg of None \<Rightarrow> returnP ()
    | Some cs \<Rightarrow> bindP (recover_orphans cs) (\<lambda>_. expire_suspensions cs)"
  let ?claim = "sc_ClaimReady ?cfg (sc_BatchSize ?cfg) (now + sc_LeaseDuration ?cfg)"
  have fields: "sc_Publish ?cfg = Publisher_Publish" "sc_CircuitStore ?cfg = (if sy_circuits sys then Some circuit_store else None)"
      "sc_ClaimReady ?cfg = (\<lambda>n u. on_db (DeliveryStore_ClaimReady n u))"
      "sc_ClaimedAdd ?cfg = Some (\<lambda>n. w_claimed_update (\<lambda>c. c + n))"
    by (simp_all add: scheduler_of_def)
  have pre: "preserves (\<lambda>v. w_topic v = w_topic w \<and> outside v = outside w) ?pre"
    unfolding fields by (cases "sy_circuits sys"; simp only: if_True if_False option.case;
        intro preserves_intros circuits_outside)
  obtain r w1 where w1: "?pre w = (r, w1)" by fastforce
  from preservesD_eq [OF pre _ this] have o1: "w_topic w1 = w_topic w" "outside w1 = outside w" by simp_all
  obtain q w2 where w2: "?claim w1 = (q, w2)" by fastforce
  have o2: "w_topic w2 = w_topic w" "outside w2 = outside w"
    using preservesD_eq [OF on_db_outside _ w2 [unfolded fields], of "w_topic w" "outside w"] o1 by simp_all
  show ?thesis
  proof (cases r)
    case (Inl e)
    with w1 o1 show ?thesis by (simp add: Scheduler_Tick_def bindP_def)
  next
    case r: (Inr u)
    show ?thesis
    proof (cases q)
      case (Inl e)
      with w1 w2 o2 r show ?thesis by (simp add: Scheduler_Tick_def bindP_def map_errP_def)
    next
      case (Inr ds)
      let ?w3 = "snd (publish_all ?enc Publisher_Publish ds w2)"
      obtain ms where ms: "w_topic ?w3 = w_topic w @ ms"
        "set ms \<subseteq> (\<lambda>d. \<lparr>m_Key = ?enc (d_EndpointID d), m_Value = kafka_json ?enc (d_ID d) (d_EndpointID d)\<rparr>) ` set ds"
        using publish_all_topic [of ?enc ds w2] o2(1) by auto
      have "fst (DeliveryStore_ClaimReady (sc_BatchSize ?cfg) (now + sc_LeaseDuration ?cfg) (w_db w1)) = Inr ds"
        using w2 Inr by (auto simp: fields on_db_def split: prod.splits)
      from claim_answer [OF this] ms(2) have "\<forall>m \<in> set ms. names_delivery sys (w_db w1) m"
        by (fastforce simp: names_delivery_def delivery_message_def)
      moreover have "grown (w_db w1) (w_db w2)"
        using preservesD_eq [OF on_db_preserves [OF history.delivery_ops(1)] _ w2 [unfolded fields]] grown_refl by blast
      ultimately have named: "\<forall>m \<in> set ms. names_delivery sys (w_db w2) m"
        using names_delivery_grown by blast
      obtain p w3 where w3: "publish_all ?enc Publisher_Publish ds w2 = (p, w3)" by fastforce
      have "Scheduler_Tick ?enc ?cfg now w = bindP (publish_all ?enc Publisher_Publish ds)
          (\<lambda>_. count_claimed (sc_ClaimedAdd ?cfg) (int (length ds))) w2"
        using w1 w2 r Inr by (simp add: Scheduler_Tick_def bindP_def map_errP_def fields(1))
      then have tick: "snd (Scheduler_Tick ?enc ?cfg now w) = ?w3 \<or>
          (\<exists>f. snd (Scheduler_Tick ?enc ?cfg now w) = w_claimed_update f ?w3)"
        by (cases p) (auto simp: bindP_def w3 fields(4) count_claimed_def)
      have "outside (w_claimed_update f v) = outside v" for v f by (simp add: outside_def)
      with tick ms(1) named publish_outside [of ?enc ds w2] publish_all_db [of ?enc ds w2] o2
      show ?thesis by (auto intro!: exI [of _ ms])
    qed
  qed
qed

section \<open>The invariant\<close>

definition traffic_ok :: "deployment \<Rightarrow> world \<Rightarrow> bool" where
  "traffic_ok sys w \<longleftrightarrow> set (w_inbox w) \<subseteq> set (w_topic w) \<and> set (w_committed w) \<subseteq> set (w_topic w) \<and>
     (\<forall>m \<in> set (w_topic w). names_delivery sys (w_db w) m) \<and> (\<forall>q \<in> set (w_sent w). signed_delivery (w_db w) q)"

lemma traffic_ok_grown:
  assumes "traffic_ok sys w" and "grown (w_db w) (w_db w')" and "w_topic w' = w_topic w" and "outside w' = outside w"
  shows "traffic_ok sys w'"
  using assms names_delivery_grown [OF assms(2)] signed_delivery_grown [OF assms(2)]
  by (auto simp: traffic_ok_def outside_def)

text \<open>A worker takes a message from the inbox, sends at most one request, and may commit the message.\<close>

lemma on_db_queue: "preserves (\<lambda>w. (w_topic w, w_inbox w, w_committed w) = x) (on_db m)"
  by (simp add: preserves_def on_db_def split: prod.splits)

lemma process_queue:
  "cs = None \<or> cs = Some worker_circuit_store \<Longrightarrow>
   preserves (\<lambda>w. (w_topic w, w_inbox w, w_committed w) = x) (Worker_process parse schedule (NewWorker client cs ccfg peer hop) ck i)"
  by (rule process_keeps)
    (auto simp: operations_keep_def attempt_keeps_def NewWorker_def worker_circuit_store_def http_do_def on_db_queue
      split: prod.splits)

lemma commit_queue:
  "w_topic (snd (Consumer_Commit m w)) = w_topic w \<and> w_inbox (snd (Consumer_Commit m w)) = w_inbox w \<and>
   set (w_committed (snd (Consumer_Commit m w))) \<subseteq> insert m (set (w_committed w)) \<and>
   w_sent (snd (Consumer_Commit m w)) = w_sent w \<and> w_db (snd (Consumer_Commit m w)) = w_db w"
  by (auto simp: Consumer_Commit_def split: list.splits option.splits)

lemma handled_traffic:
  assumes ok: "traffic_ok sys w" and w': "w' = snd (handle_message sys ck w)"
  shows "traffic_ok sys w'"
proof (cases "w_inbox w")
  case Nil
  then show ?thesis
    using ok by (simp add: w' handle_message_def Worker_ProcessOne_def worker_of_def NewWorker_def
      Consumer_FetchMessage_def bindP_def map_errP_def)
next
  case (Cons m ms)
  let ?w = "w\<lparr>w_inbox := ms\<rparr>"
  have mine: "m \<in> set (w_topic w)" "set ms \<subseteq> set (w_topic w)" using ok Cons by (auto simp: traffic_ok_def)
  have fetch: "wk_Fetch (worker_of sys) w = (Inr m, ?w)" and commit: "wk_Commit (worker_of sys) = Consumer_Commit"
    by (simp_all add: worker_of_def NewWorker_def Consumer_FetchMessage_def Cons)
  note run = handle_message_def Worker_ProcessOne_def bindP_def map_errP_def fetch commit ignore_err_run
  show ?thesis
  proof (cases "sy_unmarshal sys (m_Value m)")
    case (Inl e)
    then have "w' = snd (Consumer_Commit m ?w)" by (simp add: w' run)
    with commit_queue [of m ?w] ok mine show ?thesis by (auto simp: traffic_ok_def)
  next
    case (Inr i)
    let ?cs = "if sy_circuits sys then Some worker_circuit_store else None"
    have cs: "?cs = None \<or> ?cs = Some worker_circuit_store" by simp
    obtain r w1 where p: "Worker_process (sy_parse sys) (sy_schedule sys) (worker_of sys) ck i ?w = (r, w1)" by fastforce
    note p' = p [unfolded worker_of_def]
    have queue: "w_topic w1 = w_topic w" "w_inbox w1 = ms" "w_committed w1 = w_committed w"
      using preservesD_eq [OF process_queue [OF cs] _ p', of "(w_topic w, ms, w_committed w)"] by simp_all
    have db: "grown (w_db w) (w_db w1)"
      using preservesD_eq [OF process_keeps [OF history.worker_operations [OF cs]] _ p', of "w_db w"] grown_refl by simp
    have sent: "w_sent w1 = w_sent w \<or> (\<exists>wd. worker_row i (w_db w) = Some wd \<and> w_sent w1 = w_sent w @ [signed_request ck wd])"
      using process_sent [OF cs, of "sy_parse sys" "sy_schedule sys" "sy_CircuitCfg sys" "sy_peer sys" "sy_hop sys" ck i ?w] p'
      by simp
    have "\<forall>q \<in> set (w_sent w1). signed_delivery (w_db w1) q"
      using sent ok signed_request_delivery signed_delivery_grown [OF db] by (auto simp: traffic_ok_def)
    moreover have "\<forall>q \<in> set (w_topic w). names_delivery sys (w_db w1) q"
      using ok names_delivery_grown [OF db] by (auto simp: traffic_ok_def)
    moreover have "w' = w1 \<or> w' = snd (Consumer_Commit m w1)"
      using Inr p by (cases r) (simp_all add: w' run)
    moreover have "set (w_committed w1) \<subseteq> set (w_topic w)" using ok queue by (simp add: traffic_ok_def)
    moreover from this have "set (w_committed (snd (Consumer_Commit m w1))) \<subseteq> set (w_topic w)"
      using commit_queue [of m w1] mine by blast
    ultimately show ?thesis
      using queue mine commit_queue [of m w1] by (elim disjE) (simp_all add: traffic_ok_def)
  qed
qed

lemma perform_traffic:
  assumes ok: "traffic_ok sys w" and a: "allowed a w"
  shows "traffic_ok sys (perform sys a w)"
proof -
  note grown = perform_grown [of w sys a]
  show ?thesis
  proof (cases a)
    case (SchedulerTicks now)
    let ?w = "perform sys a w"
    obtain ms where ms: "w_topic ?w = w_topic w @ ms" "outside ?w = outside w" "\<forall>m \<in> set ms. names_delivery sys (w_db ?w) m"
      using tick_topic [of sys now w] SchedulerTicks by auto
    with ok names_delivery_grown [OF grown] signed_delivery_grown [OF grown] show ?thesis
      by (auto simp: traffic_ok_def outside_def)
  next
    case ReaperTicks
    have "preserves (\<lambda>v. w_topic v = w_topic w \<and> outside v = outside w) (Reaper_Tick (reaper_config 0))"
      unfolding Reaper_Tick_def reaper_config_fields
      by (intro preserves_intros on_db_outside count_preserves) (simp add: outside_def)
    from preservesD [OF this, of w] show ?thesis
      using traffic_ok_grown [OF ok grown] ReaperTicks by simp
  next
    case (WorkerHandles ck)
    with handled_traffic [OF ok refl] show ?thesis by simp
  next
    case (BrokerHandsOut ms)
    with ok a show ?thesis by (auto simp: traffic_ok_def allowed_def)
  qed (use traffic_ok_grown [OF ok grown] in \<open>simp_all add: outside_def at_db_def\<close>)
qed

lemma reachable_traffic: "reachable sys w \<Longrightarrow> traffic_ok sys w"
proof (induction rule: reachable.induct)
  case (further w w')
  then show ?case by (auto elim: stepE intro: perform_traffic)
qed (simp add: initial_def traffic_ok_def)

section \<open>From the scheduler to the endpoint\<close>

text \<open>The three actions that carry a claimed delivery to its endpoint.\<close>

definition carried :: "deployment \<Rightarrow> instant \<Rightarrow> clock \<Rightarrow> delivery_row \<Rightarrow> world \<Rightarrow> world" where
  "carried sys now ck d w = perform sys (WorkerHandles ck)
     (perform sys (BrokerHandsOut [delivery_message (sy_uuid_text sys) d]) (perform sys (SchedulerTicks now) w))"

lemma row_of_member:
  "db_ok s \<Longrightarrow> d \<in> set (deliveries s) \<Longrightarrow> row_by dr_id (dr_id d) (deliveries s) = Some d"
  by (auto simp: db_ok_defs intro: row_by_unique)

lemma claimed_db_row:
  assumes "db_ok s" and "d \<in> set (claim_batch n s)"
  shows "row_by dr_id (dr_id d) (deliveries (claimed_db n l s)) = Some (claimed_row l (now_ts s) d)"
proof -
  have "d \<in> set (deliveries s)" using assms(2) set_claim_batch by blast
  with assms(2) row_of_member [OF assms(1)] show ?thesis
    by (simp add: claimed_db_def row_by_upd_where claimed_row_def)
qed

lemma worker_row_claimed:
  assumes "db_ok s" and "d \<in> set (claim_batch n s)"
    and "row_by er_id (dr_endpoint_id d) (endpoints s) = Some e"
  obtains v where "v \<in> set (events s)" "vr_id v = dr_event_id d"
    "worker_row (dr_id d) (claimed_db n l s) = Some \<lparr>wd_Delivery = scanDelivery (claimed_row l (now_ts s) d),
       wd_EndpointURL = er_url e, wd_Payload = vr_payload v, wd_SigningSecret = er_signing_secret e,
       wd_EndpointCircuitState = circuit_text (er_circuit_state e)\<rparr>"
proof -
  have "d \<in> set (deliveries s)" using assms(2) set_claim_batch by blast
  with assms(1) obtain v where v: "v \<in> set (events s)" "vr_id v = dr_event_id d"
    by (auto simp: db_ok_def consistent_def delivery_linked_def)
  with assms(1) have "row_by vr_id (dr_event_id d) (events s) = Some v"
    by (metis db_ok_schema keys_ok_def row_by_unique schema_ok_def)
  with that [OF v] assms(3) claimed_db_row [OF assms(1,2), of l] show thesis
    by (simp add: worker_row_def claimed_row_def) (simp add: claimed_db_def)
qed

lemma perform_tick:
  assumes "db_ok (w_db w)" and "faults (w_db w) = []" and "w_acks w = []" and "\<not> sy_circuits sys"
    and "0 < sy_batch sys" and "0 < sy_lease sys"
  shows "perform sys (SchedulerTicks now) w = w\<lparr>w_db := claimed_db (nat (sy_batch sys)) (now + sy_lease sys) (w_db w),
       w_topic := w_topic w @ map (delivery_message (sy_uuid_text sys)) (claim_batch (nat (sy_batch sys)) (w_db w)),
       w_claimed := w_claimed w + int (length (claim_batch (nat (sy_batch sys)) (w_db w)))\<rparr>"
  using assms tick_run [OF assms(1-3,5,6), of "sy_uuid_text sys" now] by (simp add: scheduler_of_def)

lemma perform_handles:
  assumes "w_inbox w = m # ms" and "w_acks w = []" and "sy_unmarshal sys (m_Value m) = Inr i"
    and "Worker_process (sy_parse sys) (sy_schedule sys) (worker_of sys) ck i (w\<lparr>w_inbox := ms\<rparr>) = (Inr (), w1)"
    and "w_acks w1 = []"
  shows "perform sys (WorkerHandles ck) w = w1\<lparr>w_committed := w_committed w1 @ [m]\<rparr>"
proof -
  have "wk_Fetch (worker_of sys) w = (Inr m, w\<lparr>w_inbox := ms\<rparr>)" "wk_Commit (worker_of sys) = Consumer_Commit"
    using assms(1) by (simp_all add: worker_of_def NewWorker_def Consumer_FetchMessage_def)
  with assms show ?thesis
    by (simp add: handle_message_def Worker_ProcessOne_def bindP_def map_errP_def Consumer_Commit_def)
qed

lemma carried_delivers:
  assumes ok: "db_ok (w_db w)" and f: "faults (w_db w) = []" and acks: "w_acks w = []" and inbox: "w_inbox w = []"
    and sys: "\<not> sy_circuits sys" "0 < sy_batch sys" "0 < sy_lease sys"
    and d: "d \<in> set (deliveries (w_db w))" and rdy: "ready (w_db w) d"
    and few: "int (length (filter (ready (w_db w)) (deliveries (w_db w)))) \<le> sy_batch sys"
    and e: "row_by er_id (dr_endpoint_id d) (endpoints (w_db w)) = Some e" "sy_parse sys (er_url e) = Inr u"
    and msg: "sy_unmarshal sys (m_Value (delivery_message (sy_uuid_text sys) d)) = Inr (dr_id d)"
    and fresh: "fresh_keys 1 (w_db w)"
    and new: "\<forall>a \<in> set (attempts (w_db w)). \<not> (ar_delivery_id a = dr_id d \<and> ar_sequence a = dr_attempt_count d + 1)"
    and peer: "\<forall>q. Classify (sy_peer sys (w_sent w) q) = OutcomeSuccess"
  shows "\<exists>v d' q. v \<in> set (events (w_db w)) \<and> vr_id v = dr_event_id d \<and>
    rq_URL q = er_url e \<and> rq_Body q = vr_payload v \<and> rq_Signature q = Sign (er_signing_secret e) (ck_Sign ck) (vr_payload v) \<and>
    w_sent (carried sys now ck d w) = w_sent w @ [q] \<and>
    row_by dr_id (dr_id d) (deliveries (w_db (carried sys now ck d w))) = Some d' \<and>
    dr_status d' = Delivered \<and> dr_attempt_count d' = dr_attempt_count d + 1 \<and>
    w_committed (carried sys now ck d w) = w_committed w @ [delivery_message (sy_uuid_text sys) d]"
proof -
  let ?n = "nat (sy_batch sys)" and ?s = "w_db w" and ?m = "delivery_message (sy_uuid_text sys) d"
  let ?l = "now + sy_lease sys"
  let ?c = "claimed_row ?l (now_ts ?s) d"
  have cl: "d \<in> set (claim_batch ?n ?s)" using claim_batch_all [of ?s ?n] few d rdy by simp
  define w2 where "w2 = (perform sys (SchedulerTicks now) w)\<lparr>w_inbox := []\<rparr>"
  have w2: "w_db w2 = claimed_db ?n ?l ?s" "w_acks w2 = []" "w_sent w2 = w_sent w" "w_committed w2 = w_committed w"
    using perform_tick [OF ok f acks sys, of now] acks by (simp_all add: w2_def)
  have "w_inbox (perform sys (SchedulerTicks now) w) = []"
    using perform_tick [OF ok f acks sys, of now] inbox by simp
  then have w3: "perform sys (BrokerHandsOut [?m]) (perform sys (SchedulerTicks now) w) = w2\<lparr>w_inbox := [?m]\<rparr>"
    by (simp add: w2_def)
  have ok2: "db_ok (w_db w2)" using perform_db_ok [OF ok, of sys "SchedulerTicks now"] by (simp add: w2_def)
  have s2: "faults (w_db w2) = []" "row_by dr_id (dr_id d) (deliveries (w_db w2)) = Some ?c"
    using f claimed_db_row [OF ok cl] by (simp_all add: w2) (simp add: claimed_db_def)
  have same: "attempts (w_db w2) = attempts ?s" "uuid_src (w_db w2) = uuid_src ?s" "uuid_pos (w_db w2) = uuid_pos ?s"
      "used_keys (w_db w2) = used_keys ?s"
    using keys_image_upd [of "claimed_row ?l (now_ts ?s)"] by (simp_all add: w2 claimed_db_def used_keys_def)
  have s2': "fresh_keys 1 (w_db w2)"
      "\<forall>a \<in> set (attempts (w_db w2)). \<not> (ar_delivery_id a = dr_id d \<and> ar_sequence a = dr_attempt_count ?c + 1)"
    using fresh new by (simp_all add: fresh_keys_def same claimed_row_def)
  obtain v where v: "v \<in> set (events ?s)" "vr_id v = dr_event_id d" and
    load: "worker_row (dr_id d) (w_db w2) = Some \<lparr>wd_Delivery = scanDelivery ?c, wd_EndpointURL = er_url e,
      wd_Payload = vr_payload v, wd_SigningSecret = er_signing_secret e,
      wd_EndpointCircuitState = circuit_text (er_circuit_state e)\<rparr>" (is "_ = Some ?wd")
    using worker_row_claimed [OF ok cl e(1), of ?l] unfolding w2 by blast
  let ?res = "sy_peer sys (w_sent w2) (signed_request ck ?wd)"
  have res: "Classify ?res = OutcomeSuccess" using peer w2 by simp
  have st: "terminal (dr_status ?c) \<longrightarrow> dr_source_delivery_id ?c = None" by (simp add: claimed_row_def)
  define w4 where "w4 = snd (Worker_process (sy_parse sys) (sy_schedule sys) (worker_of sys) ck (dr_id d) w2)"
  have none: "worker_of sys = NewWorker None None (sy_CircuitCfg sys) (sy_peer sys) (sy_hop sys)"
    using sys(1) by (simp add: worker_of_def)
  have "sy_parse sys (wd_EndpointURL ?wd) = Inr u" using e(2) by simp
  note run = process_run [where parse = "sy_parse sys" and peer = "sy_peer sys" and ck = ck and wd = ?wd and u = u,
      OF ok2 s2(1) _ s2(2) st load this s2' refl, of None "sy_schedule sys" "sy_CircuitCfg sys" "sy_hop sys", folded none]
  then have p: "Worker_process (sy_parse sys) (sy_schedule sys) (worker_of sys) ck (dr_id d) w2 = (Inr (), w4)"
    by (simp add: w4_def)
  have w4: "w_acks w4 = []" "w_sent w4 = w_sent w @ [signed_request ck ?wd]" "w_committed w4 = w_committed w"
      "deliveries (w_db w4) = upd_where (\<lambda>r. dr_id r = dr_id d) (\<lambda>r. delivered_row (now_ts (w_db w2)) ?c) (deliveries (w_db w2))"
    using run w2 res by (simp_all add: w4_def settled_row_def)
  have row: "row_by dr_id (dr_id d) (deliveries (w_db w4)) = Some (delivered_row (now_ts (w_db w2)) ?c)"
    unfolding w4(4) by (subst row_by_upd_where) (simp_all add: s2 delivery_rows)
  have "carried sys now ck d w = w4\<lparr>w_committed := w_committed w4 @ [?m]\<rparr>"
    unfolding carried_def w3 using p msg w2 w4 by (intro perform_handles) (simp_all add: w2_def)
  with v w4 row show ?thesis
    by (intro exI [of _ v] exI [of _ "delivered_row (now_ts (w_db w2)) ?c"] exI [of _ "signed_request ck ?wd"])
      (simp add: signed_request_def delivery_rows)
qed

section \<open>Properties\<close>

text \<open>A journey: on a fresh installation an endpoint is registered for the default tenant and an event
  submitted to it; the delivery is due.\<close>

definition journey :: deployment where
  "journey = sample_deployment\<lparr>sy_circuits := False, sy_unmarshal := \<lambda>_. Inr 102\<rparr>"

definition journey_start :: world where
  "journey_start = initial 5 (\<lambda>n. word_of_nat (100 + n))"

definition journey_endpoint :: endpoint_row where
  "journey_endpoint = sample_endpoint\<lparr>er_id := 100, er_created_at := 5\<rparr>"

definition journey_delivery :: delivery_row where
  "journey_delivery = new_delivery 101 100 None 5 1 102"

definition journey_registered :: world where
  "journey_registered = journey_start\<lparr>w_db := (w_db journey_start)\<lparr>endpoints := [journey_endpoint], uuid_pos := 1\<rparr>\<rparr>"

definition journey_submitted :: world where
  "journey_submitted = journey_start\<lparr>w_db := (w_db journey_start)\<lparr>endpoints := [journey_endpoint],
     events := [\<lparr>vr_id = 101, vr_endpoint_id = 100, vr_tenant_id = 1, vr_payload = ''{}'', vr_submitted_at = 5\<rparr>],
     deliveries := [journey_delivery], uuid_pos := 3\<rparr>\<rparr>"

lemmas journey_defs = journey_def journey_start_def journey_endpoint_def journey_delivery_def journey_registered_def
  journey_submitted_def sample_deployment_def sample_endpoint_def initial_def migrated_db_def empty_db_def new_delivery_def

lemma journey_registers:
  "perform journey (RegisterEndpoint (\<lambda>_. Inr ''k'') ''https://a.test/'' 1) journey_start = journey_registered"
  by (simp add: journey_defs at_db_def EndpointService_Register_def check_tenant_exists_def bindP_def map_errP_def tryP_def
      TenantStore_GetByID_def stmt_def EndpointStore_Insert_def insert_endpoint_def insert_row_def Let_def
      check_endpoint_def new_endpoint_def text_ok_ascii url_check_def ToLower_def lower_char_def ValidateURL_def)

lemma journey_submits:
  "perform journey (SubmitEvent 100 (Some ''{}'') [] ''r'' 1) journey_registered = journey_submitted"
  by (simp add: journey_defs at_db_def EventService_Submit_def EndpointService_Get_def check_tenant_exists_def
      bindP_def map_errP_def tryP_def TenantStore_GetByID_def stmt_def insert_event_def insert_delivery_def insert_row_def
      Let_def check_event_def check_delivery_def EndpointStore_GetByID_def InTx_def submit_body_def liftV_def
      setV_def insert_event_values_def scanEndpoint_def replay_index_ok_def active_replay_def)

lemma reachable_act: "reachable sys w \<Longrightarrow> allowed a w \<Longrightarrow> reachable sys (perform sys a w)"
  by (rule reachable.further [OF _ step.act])

lemma journey_reachable: "reachable journey journey_submitted"
proof -
  have "reachable journey journey_start" unfolding journey_start_def by (rule reachable.start)
  then have "reachable journey journey_registered"
    unfolding journey_registers [symmetric] by (rule reachable_act) (simp add: allowed_def)
  then show ?thesis
    unfolding journey_submits [symmetric] by (rule reachable_act) (simp add: allowed_def)
qed

lemma journey_ready:
  "ready (w_db journey_submitted) journey_delivery" "journey_delivery \<in> set (deliveries (w_db journey_submitted))"
  "filter (ready (w_db journey_submitted)) (deliveries (w_db journey_submitted)) = [journey_delivery]"
  by (simp_all add: journey_defs ready_def blocks_def circuit_lets_through_def)

lemma journey_tick:
  "w_topic (perform journey (SchedulerTicks 5) journey_submitted) = [delivery_message (sy_uuid_text journey) journey_delivery]"
proof -
  have "claim_batch (nat (sy_batch journey)) (w_db journey_submitted) = [journey_delivery]"
    unfolding claim_batch_def journey_ready by (simp add: journey_def sample_deployment_def)
  then show ?thesis
    by (subst perform_tick) (simp_all add: reachable_db_ok [OF journey_reachable], simp_all add: journey_defs)
qed

lemma journey_carried:
  "\<exists>v d' q. v \<in> set (events (w_db journey_submitted)) \<and> vr_id v = dr_event_id journey_delivery \<and>
    rq_URL q = er_url journey_endpoint \<and> rq_Body q = vr_payload v \<and>
    rq_Signature q = Sign (er_signing_secret journey_endpoint) (ck_Sign sample_clock) (vr_payload v) \<and>
    w_sent (carried journey 5 sample_clock journey_delivery journey_submitted) = w_sent journey_submitted @ [q] \<and>
    row_by dr_id (dr_id journey_delivery) (deliveries (w_db (carried journey 5 sample_clock journey_delivery journey_submitted))) = Some d' \<and>
    dr_status d' = Delivered \<and> dr_attempt_count d' = dr_attempt_count journey_delivery + 1 \<and>
    w_committed (carried journey 5 sample_clock journey_delivery journey_submitted) =
      w_committed journey_submitted @ [delivery_message (sy_uuid_text journey) journey_delivery]"
  by (rule carried_delivers [where u = "\<lparr>u_Scheme = ''https'', u_Host = ''a''\<rparr>"],
      simp_all only: reachable_db_ok [OF journey_reachable] journey_ready)
    (simp_all add: journey_defs fresh_keys_def used_keys_def Classify_def)

lemma journey_carried_reachable: "reachable journey (carried journey 5 sample_clock journey_delivery journey_submitted)"
  unfolding carried_def
  by (intro reachable_act journey_reachable) (simp_all add: allowed_def journey_tick del: perform.simps)

text \<open>No invented messages: in every reachable state each message on the topic, waiting for a
  worker or committed is the message of a delivery of the database, keyed by its endpoint.\<close>

theorem messages_name_deliveries:
  assumes "reachable sys w" and "m \<in> set (w_topic w) \<union> set (w_inbox w) \<union> set (w_committed w)"
  shows "\<exists>d. d \<in> set (deliveries (w_db w)) \<and> m = delivery_message (sy_uuid_text sys) d"
  using reachable_traffic [OF assms(1)] assms(2) by (auto simp: traffic_ok_def names_delivery_def)

theorem messages_name_deliveries_witness:
  "\<exists>d. d \<in> set (deliveries (w_db (perform journey (SchedulerTicks 5) journey_submitted))) \<and>
     delivery_message (sy_uuid_text journey) journey_delivery = delivery_message (sy_uuid_text journey) d"
  by (rule messages_name_deliveries)
    (rule reachable_act [OF journey_reachable], simp add: allowed_def, simp only: journey_tick, simp)

text \<open>C18. Every request that ever left the service carries the payload of a stored event and an
  HMAC signature over the timestamp it states and that payload.\<close>

theorem requests_are_signed_deliveries:
  assumes "reachable sys w" and "q \<in> set (w_sent w)"
  shows "\<exists>v secret ts. (v :: event_row) \<in> set (events (w_db w)) \<and> rq_Body q = vr_payload v \<and>
    rq_Timestamp q = FormatInt ts \<and> rq_Signature q = Sign secret ts (vr_payload v)"
  using reachable_traffic [OF assms(1)] assms(2) by (fastforce simp: traffic_ok_def signed_delivery_def)


theorem requests_are_signed_deliveries_witness:
  "\<exists>q v. w_sent (carried journey 5 sample_clock journey_delivery journey_submitted) = [q] \<and>
     (v :: event_row) \<in> set (events (w_db (carried journey 5 sample_clock journey_delivery journey_submitted))) \<and> rq_Body q = vr_payload v"
proof -
  obtain q where q: "w_sent (carried journey 5 sample_clock journey_delivery journey_submitted) = [q]"
    using journey_carried by (auto simp: journey_submitted_def journey_start_def initial_def)
  with requests_are_signed_deliveries [OF journey_carried_reachable, of q] show ?thesis by auto
qed

text \<open>A due delivery is delivered.  On working connections, when the earlier deliveries of its
  tenant are finished and its circuit is closed, the next tick of the scheduler claims it and
  publishes its message; once the broker hands that message to a worker whose request is
  answered with success, the endpoint has got the signed payload of its event, the delivery is
  delivered with one attempt more, and the message is committed.\<close>

theorem due_delivery_gets_delivered:
  assumes ok: "db_ok (w_db w)" and f: "faults (w_db w) = []" and acks: "w_acks w = []" and inbox: "w_inbox w = []"
    and sys: "\<not> sy_circuits sys" "0 < sy_batch sys" "0 < sy_lease sys"
    and d: "d \<in> set (deliveries (w_db w))" and rdy: "ready (w_db w) d"
    and few: "int (length (filter (ready (w_db w)) (deliveries (w_db w)))) \<le> sy_batch sys"
    and e: "row_by er_id (dr_endpoint_id d) (endpoints (w_db w)) = Some e" "sy_parse sys (er_url e) = Inr u"
    and msg: "sy_unmarshal sys (m_Value (delivery_message (sy_uuid_text sys) d)) = Inr (dr_id d)"
    and fresh: "fresh_keys 1 (w_db w)"
    and new: "\<forall>a \<in> set (attempts (w_db w)). \<not> (ar_delivery_id a = dr_id d \<and> ar_sequence a = dr_attempt_count d + 1)"
    and peer: "\<forall>q. Classify (sy_peer sys (w_sent w) q) = OutcomeSuccess"
  shows "\<exists>v d' q. v \<in> set (events (w_db w)) \<and> vr_id v = dr_event_id d \<and>
    rq_URL q = er_url e \<and> rq_Body q = vr_payload v \<and> rq_Signature q = Sign (er_signing_secret e) (ck_Sign ck) (vr_payload v) \<and>
    w_sent (carried sys now ck d w) = w_sent w @ [q] \<and>
    row_by dr_id (dr_id d) (deliveries (w_db (carried sys now ck d w))) = Some d' \<and>
    dr_status d' = Delivered \<and> dr_attempt_count d' = dr_attempt_count d + 1 \<and>
    w_committed (carried sys now ck d w) = w_committed w @ [delivery_message (sy_uuid_text sys) d]"
  using assms by (rule carried_delivers)

theorem due_delivery_gets_delivered_witness:
  "\<exists>d'. row_by dr_id 102 (deliveries (w_db (carried journey 5 sample_clock journey_delivery journey_submitted))) = Some d' \<and>
     dr_status d' = Delivered"
proof -
  have id: "dr_id journey_delivery = 102" by (simp add: journey_delivery_def)
  have "\<exists>v d' q. v \<in> set (events (w_db journey_submitted)) \<and> vr_id v = dr_event_id journey_delivery \<and>
    rq_URL q = er_url journey_endpoint \<and> rq_Body q = vr_payload v \<and>
    rq_Signature q = Sign (er_signing_secret journey_endpoint) (ck_Sign sample_clock) (vr_payload v) \<and>
    w_sent (carried journey 5 sample_clock journey_delivery journey_submitted) = w_sent journey_submitted @ [q] \<and>
    row_by dr_id (dr_id journey_delivery) (deliveries (w_db (carried journey 5 sample_clock journey_delivery journey_submitted))) = Some d' \<and>
    dr_status d' = Delivered \<and> dr_attempt_count d' = dr_attempt_count journey_delivery + 1 \<and>
    w_committed (carried journey 5 sample_clock journey_delivery journey_submitted) =
      w_committed journey_submitted @ [delivery_message (sy_uuid_text journey) journey_delivery]"
    by (rule due_delivery_gets_delivered [where u = "\<lparr>u_Scheme = ''https'', u_Host = ''a''\<rparr>"],
      simp_all only: reachable_db_ok [OF journey_reachable] journey_ready)
      (simp_all add: journey_defs fresh_keys_def used_keys_def Classify_def)
  then show ?thesis unfolding id by blast
qed

end
