(* ===== verification/Probes.thy ===== *)
theory Probes
  imports Traffic
begin

text \<open>
  The circuit breaker in the composed service: what becomes of an endpoint whose probe is over
  without the circuit having heard of it, and how a suspended endpoint recovers.
\<close>

section \<open>A finished probe\<close>

text \<open>The endpoint is half open, and the delivery it waits for is finished.\<close>

definition wedged :: "uuid \<Rightarrow> uuid \<Rightarrow> db \<Rightarrow> bool" where
  "wedged e p s \<longleftrightarrow>
     (\<exists>r \<in> set (endpoints s). er_id r = e \<and> er_circuit_state r = CircuitHalfOpen \<and> er_probe_delivery_id r = Some p) \<and>
     (\<exists>d \<in> set (deliveries s). dr_id d = p \<and> terminal (dr_status d))"

interpretation wedge: service_law "wedged e p" for e p
  by unfold_locales (auto simp: wedged_def table_pred_def bex_upd_where)

lemma wedged_endpoints:
  assumes "wedged e p s" and "\<And>r. er_id r = e \<Longrightarrow> er_circuit_state r = CircuitHalfOpen \<Longrightarrow> \<not> P r"
  shows "wedged e p (s\<lparr>endpoints := upd_where P f (endpoints s)\<rparr>)"
  using assms by (auto simp: wedged_def bex_upd_where)

lemma wedged_deliveries:
  assumes "wedged e p s" and "\<And>d. d \<in> set (deliveries s) \<Longrightarrow> dr_id d = p \<Longrightarrow> terminal (dr_status d) \<Longrightarrow> \<not> P d"
  shows "wedged e p (s\<lparr>deliveries := upd_where P f (deliveries s)\<rparr>)"
  using assms by (auto simp: wedged_def bex_upd_where)

lemma update_endpoints_wedged:
  "(\<And>r. er_id r = e \<Longrightarrow> er_circuit_state r = CircuitHalfOpen \<Longrightarrow> \<not> P r) \<Longrightarrow> preserves (wedged e p) (update_endpoints P f)"
  by (auto simp: preserves_def update_endpoints_def Let_def wedged_endpoints)

lemma wedged_not_ready:
  assumes "db_ok s" and "wedged e p s" and "d \<in> set (deliveries s)" and "dr_endpoint_id d = e"
  shows "\<not> ready s d"
proof
  assume "ready s d"
  obtain r where r: "r \<in> set (endpoints s)" "er_id r = e" "er_circuit_state r = CircuitHalfOpen" "er_probe_delivery_id r = Some p"
    using assms(2) by (auto simp: wedged_def)
  then have "row_by er_id e (endpoints s) = Some r" using assms(1) by (auto simp: db_ok_defs intro: row_by_unique)
  with \<open>ready s d\<close> r assms(4) have "dr_id d = p" "dr_status d = Scheduled" by (auto simp: ready_def circuit_lets_through_def)
  moreover obtain d2 where "d2 \<in> set (deliveries s)" "dr_id d2 = p" "terminal (dr_status d2)"
    using assms(2) by (auto simp: wedged_def)
  moreover from this have "d2 = d" using assms(1,3) \<open>dr_id d = p\<close> by (auto simp: db_ok_defs intro: unique_row)
  ultimately show False by simp
qed

text \<open>The steps of the scheduler and of the reaper.\<close>

abbreviation stuck :: "uuid \<Rightarrow> uuid \<Rightarrow> db \<Rightarrow> bool" where
  "stuck e p \<equiv> \<lambda>s. db_ok s \<and> wedged e p s"

lemma claim_stuck: "preserves (stuck e p) (DeliveryStore_ClaimReady n l)"
proof (rule claim_preserves [OF wedge.tables])
  fix n l s assume ok: "db_ok s" and w: "wedged e p s"
  show "wedged e p (s\<lparr>deliveries := upd_where (\<lambda>d. dr_id d \<in> set (map dr_id (claim_batch n s))) (claimed_row l (now_ts s)) (deliveries s)\<rparr>)"
  proof (rule wedged_deliveries [OF w])
    fix d assume d: "d \<in> set (deliveries s)" "terminal (dr_status d)"
    then have "\<not> ready s d" by (auto simp: ready_def)
    then show "dr_id d \<notin> set (map dr_id (claim_batch n s))"
      using claimed_iff [OF db_ok_schema [OF ok] d(1)] set_claim_batch by blast
  qed
qed

lemma reaper_wedged:
  "preserves (wedged e p) DeliveryStore_ResurrectExpiredLeases"
  "preserves (wedged e p) DeliveryStore_PurgeExpiredIdempotencyRecords"
proof -
  have "preserves (wedged e p) (update_deliveries (lease_expired t) f)" for t f
    by (auto simp: preserves_def update_deliveries_def Let_def lease_expired_def intro!: wedged_deliveries)
  then show "preserves (wedged e p) DeliveryStore_ResurrectExpiredLeases"
    unfolding DeliveryStore_ResurrectExpiredLeases_def by (intro preserves_intros wedge.statement)
  show "preserves (wedged e p) DeliveryStore_PurgeExpiredIdempotencyRecords"
    unfolding DeliveryStore_PurgeExpiredIdempotencyRecords_def Let_def
    by (intro preserves_intros wedge.statement wedge.records_replaced)
qed

lemma probe_wedged:
  assumes "i \<noteq> e"
  shows "preserves (wedged e p) (CircuitStore_SetProbeDelivery i)"
proof -
  have "preserves (wedged e p) (update_deliveries P (dr_next_attempt_at_update g))" for P g
    by (auto simp: preserves_def update_deliveries_def Let_def wedged_def bex_upd_where)
  moreover have "preserves (wedged e p) (update_endpoints (half_open_at i) f)" for f
    using assms by (intro update_endpoints_wedged) (simp add: half_open_at_def)
  ultimately show ?thesis
    unfolding CircuitStore_SetProbeDelivery_def by (intro preserves_intros wedge.statement)
qed

lemma expired_wedged: "preserves (wedged e p) CircuitStore_ProcessExpiredSuspensions"
proof -
  have "preserves (wedged e p) (update_endpoints (suspension_expired t) f)" for t f
    by (rule update_endpoints_wedged) (simp add: suspension_expired_def)
  then show ?thesis
    unfolding CircuitStore_ProcessExpiredSuspensions_def Let_def by (intro preserves_intros wedge.statement)
qed

text \<open>The lists of endpoints the circuit steps of a tick work on do not contain a stuck one.\<close>

lemma stuck_row:
  assumes "stuck e p s" and "r \<in> set (endpoints s)" and "er_id r = e"
  shows "er_circuit_state r = CircuitHalfOpen" "er_probe_delivery_id r = Some p"
proof -
  obtain r' where "r' \<in> set (endpoints s)" "er_id r' = e" "er_circuit_state r' = CircuitHalfOpen" "er_probe_delivery_id r' = Some p"
    using assms(1) by (auto simp: wedged_def)
  moreover from this have "r' = r" using assms by (auto simp: db_ok_defs intro: unique_row)
  ultimately show "er_circuit_state r = CircuitHalfOpen" "er_probe_delivery_id r = Some p" by simp_all
qed

lemma orphaned_answer:
  assumes "stuck e p s" and "CircuitStore_OrphanedHalfOpenEndpoints s = (Inr ids, s')"
  shows "e \<notin> set ids"
proof -
  have "ids = map er_id (filter (\<lambda>r. er_circuit_state r = CircuitHalfOpen \<and> er_probe_delivery_id r = None) (endpoints s))"
    using assms(2) by (auto simp: CircuitStore_OrphanedHalfOpenEndpoints_def map_errP_eq_Inr dest!: stmt_Inr_D)
  with stuck_row [OF assms(1)] show ?thesis by auto
qed

lemma expired_answer:
  assumes "stuck e p s" and "CircuitStore_ProcessExpiredSuspensions s = (Inr (half, closed), s')"
  shows "e \<notin> set half"
proof -
  have "set half \<subseteq> er_id ` {r \<in> set (endpoints s). suspension_expired (now_ts s) r}"
    using assms(2)
    by (auto simp: CircuitStore_ProcessExpiredSuspensions_def map_errP_eq_Inr Let_def bindP_eq_Inr expired_row_def
        dest!: stmt_Inr_D)
  with stuck_row [OF assms(1)] show ?thesis by (auto simp: suspension_expired_def)
qed

lemma probes_stuck:
  "e \<notin> set ids \<Longrightarrow> stuck e p (w_db w) \<Longrightarrow> stuck e p (w_db (snd (set_probes circuit_store ids w)))"
proof (induction ids arbitrary: w)
  case (Cons i ids)
  let ?w1 = "snd (on_db (CircuitStore_SetProbeDelivery i) w)"
  have "w_db ?w1 = snd (CircuitStore_SetProbeDelivery i (w_db w))" by (simp add: on_db_def split: prod.splits)
  then have "stuck e p (w_db ?w1)"
    using preservesD [OF SetProbeDelivery_preserves] preservesD [OF probe_wedged] Cons.prems by fastforce
  with Cons show ?case by (simp add: set_probes_def circuit_store_def)
qed (simp add: set_probes_def)

lemma preserves_try_on_db:
  assumes "preserves I m" and "\<And>s x s'. I s \<Longrightarrow> m s = (Inr x, s') \<Longrightarrow> Q x"
    and "\<And>x (w :: world). Q x \<Longrightarrow> I (w_db w) \<Longrightarrow> I (w_db (snd (f x w)))"
  shows "preserves (\<lambda>w. I (w_db w)) (tryP (on_db m) (\<lambda>_. returnP ()) f)"
proof (rule preservesI)
  fix w :: world assume w: "I (w_db w)"
  obtain r s' where r: "m (w_db w) = (r, s')" by fastforce
  with assms(1) w have "I s'" by (rule preservesD_eq)
  with r assms(2) [OF w] assms(3) show "I (w_db (snd (tryP (on_db m) (\<lambda>_. returnP ()) f w)))"
    by (cases r) (simp_all add: tryP_def on_db_def)
qed

lemma circuit_steps_stuck:
  "preserves (\<lambda>w. stuck e p (w_db w)) (recover_orphans circuit_store)"
  "preserves (\<lambda>w. stuck e p (w_db w)) (expire_suspensions circuit_store)"
proof -
  have "preserves (wedged e p) CircuitStore_OrphanedHalfOpenEndpoints"
    unfolding CircuitStore_OrphanedHalfOpenEndpoints_def by (intro preserves_intros wedge.statement)
  then have both: "preserves (stuck e p) CircuitStore_OrphanedHalfOpenEndpoints"
      "preserves (stuck e p) CircuitStore_ProcessExpiredSuspensions"
    using preserves_conj [OF OrphanedHalfOpenEndpoints_preserves]
      preserves_conj [OF ProcessExpiredSuspensions_preserves expired_wedged] by blast+
  have fields: "sk_Orphaned circuit_store = on_db CircuitStore_OrphanedHalfOpenEndpoints"
      "sk_ProcessExpired circuit_store = on_db CircuitStore_ProcessExpiredSuspensions"
    by (simp_all add: circuit_store_def)
  show "preserves (\<lambda>w. stuck e p (w_db w)) (recover_orphans circuit_store)"
    unfolding recover_orphans_def fields
    by (rule preserves_try_on_db [where Q = "\<lambda>ids. e \<notin> set ids", OF both(1) orphaned_answer probes_stuck])
  show "preserves (\<lambda>w. stuck e p (w_db w)) (expire_suspensions circuit_store)"
    unfolding expire_suspensions_def fields
  proof (rule preserves_try_on_db [where Q = "\<lambda>x. e \<notin> set (fst x)", OF both(2)])
    fix s x s' assume "stuck e p s" "CircuitStore_ProcessExpiredSuspensions s = (Inr x, s')"
    then show "e \<notin> set (fst x)" using expired_answer by (cases x) auto
  next
    fix x :: "uuid list \<times> uuid list" and w :: world assume "e \<notin> set (fst x)" "stuck e p (w_db w)"
    then show "stuck e p (w_db (snd ((\<lambda>(half, _). set_probes circuit_store half) x w)))"
      using probes_stuck [where e = e and ids = "fst x" and p = p and w = w] by (cases x) simp
  qed
qed

definition leaves_to_worker :: "action \<Rightarrow> bool" where
  "leaves_to_worker a \<longleftrightarrow> (case a of WorkerHandles _ \<Rightarrow> False | _ \<Rightarrow> True)"

lemma tick_stuck: "preserves (\<lambda>w. stuck e p (w_db w)) (Scheduler_Tick enc (scheduler_of sys) now)"
proof -
  have publish: "preserves (\<lambda>w. stuck e p (w_db w)) (publish_all enc Publisher_Publish ds)" for ds
    by (simp add: preserves_def publish_all_db)
  have cs: "sc_CircuitStore (scheduler_of sys) = (if sy_circuits sys then Some circuit_store else None)"
    and rest: "sc_Publish (scheduler_of sys) = Publisher_Publish"
      "sc_ClaimReady (scheduler_of sys) = (\<lambda>n u. on_db (DeliveryStore_ClaimReady n u))"
      "sc_ClaimedAdd (scheduler_of sys) = Some (\<lambda>n. w_claimed_update (\<lambda>c. c + n))"
    by (simp_all add: scheduler_of_def)
  show ?thesis
    unfolding Scheduler_Tick_def cs rest
    by (cases "sy_circuits sys"; simp only: if_True if_False option.case)
      (intro preserves_intros circuit_steps_stuck on_db_preserves publish count_preserves claim_stuck; simp)+
qed

lemma perform_stuck:
  assumes s: "stuck e p (w_db w)" and a: "leaves_to_worker a"
  shows "stuck e p (w_db (perform sys a w))"
proof (cases a)
  case (SchedulerTicks now)
  with s show ?thesis using preservesD [OF tick_stuck [where e = e and p = p], of w] by simp
next
  case ReaperTicks
  have "preserves (wedged e p) DeliveryStore_ResurrectExpiredLeases \<and> preserves (wedged e p) DeliveryStore_PurgeExpiredIdempotencyRecords"
    using reaper_wedged by blast
  with s perform_db_ok [of w sys a] ReaperTicks show ?thesis
    using preservesD [OF Reaper_Tick_keeps, of "wedged e p" w 0] by simp
next
  case (WorkerHandles ck)
  with a show ?thesis by (simp add: leaves_to_worker_def)
next
  case (TimePasses t)
  with s show ?thesis by (simp add: wedged_def)
next
  case (ConnectionBecomes fs)
  with s show ?thesis by (simp add: wedged_def)
qed (use s perform_db_ok [of w sys a] in \<open>simp_all add: at_db_preserves [of "wedged e p"] wedge.entity_services
      wedge.submission wedge.replay_service wedge.bulk_service\<close>)

section \<open>Properties\<close>

text \<open>C20. An endpoint whose circuit is half open and whose probe is already finished never gets a
  delivery again: whatever requests, ticks of the scheduler (with circuit breaker) and of the
  reaper, passing of time and failures follow, the circuit stays half open with that probe and no
  delivery of the endpoint becomes ready to be claimed.  Only a message of an earlier claim,
  handled by a worker, can change that.\<close>

theorem finished_probe_starves_endpoint:
  assumes "db_ok (w_db w)" and "wedged e p (w_db w)" and "list_all leaves_to_worker acts"
  shows "wedged e p (w_db (fold (perform sys) acts w)) \<and>
    (\<forall>d \<in> set (deliveries (w_db (fold (perform sys) acts w))). dr_endpoint_id d = e \<longrightarrow>
       \<not> ready (w_db (fold (perform sys) acts w)) d)"
proof -
  have "stuck e p (w_db (fold (perform sys) acts w))"
    using assms by (induction acts arbitrary: w) (simp_all add: perform_stuck)
  then show ?thesis using wedged_not_ready by blast
qed

text \<open>How it comes about: the probe is answered with success, the statement that would close the
  circuit is lost, its error is ignored, and the delivery is marked as delivered.\<close>

definition probing_db :: db where
  "probing_db = sample_db\<lparr>endpoints := [sample_endpoint\<lparr>er_circuit_state := CircuitHalfOpen, er_probe_delivery_id := Some 30\<rparr>],
     faults := [Fine, Fine, Fine, LostRequest]\<rparr>"

definition probed_world :: world where
  "probed_world = snd (Worker_process (\<lambda>_. Inr \<lparr>u_Scheme = ''https'', u_Host = ''a''\<rparr>) productionSchedule
     (NewWorker None (Some worker_circuit_store) Circuit_defaults (\<lambda>_ _. Response 200) (\<lambda>_ _. None)) sample_clock 30
     (sample_world probing_db))"

lemma probing_db_ok: "db_ok probing_db"
  by (simp add: db_ok_defs probing_db_def sample_defs replay_index_ok_def active_replay_def lease_row_ok_def
      delivery_linked_def circuit_ok_def)

lemma probed_world_stuck: "db_ok (w_db probed_world)" "wedged 10 30 (w_db probed_world)"
proof -
  have "db_ok (w_db (sample_world probing_db))" by (simp add: sample_world_def probing_db_ok)
  then show "db_ok (w_db probed_world)"
    unfolding probed_world_def using preservesD [OF process_preserves, of "Some worker_circuit_store"] by blast
  show "wedged 10 30 (w_db probed_world)"
    by (simp add: probed_world_def Worker_process_def NewWorker_def sample_world_def probing_db_def sample_defs on_db_def
        bindP_def map_errP_def tryP_def DeliveryStore_LoadForWorker_def stmt_def worker_row_def Let_def doHTTP_def
        AttemptStore_InsertStarted_def insert_attempt_def insert_row_def check_attempt_def http_do_default settle_def
        ignore_err_def AttemptStore_UpdateOutcome_def record_metrics_def update_circuit_def Classify_def
        worker_circuit_store_def CircuitStore_HandleSuccess_def finish_delivery_def DeliveryStore_MarkDelivered_def
        mark_by_id_def update_deliveries_def replay_index_ok_def active_replay_def wedged_def delivered_row_def scanDelivery_def)
qed

theorem finished_probe_starves_endpoint_witness:
  "wedged 10 30 (w_db (fold (perform sample_deployment) [TimePasses 100, SchedulerTicks 1100, ReaperTicks] probed_world))"
  using finished_probe_starves_endpoint [OF probed_world_stuck, of "[TimePasses 100, SchedulerTicks 1100, ReaperTicks]" sample_deployment]
  by (simp add: leaves_to_worker_def)

end
