(* ===== verification/Recovery.thy ===== *)
theory Recovery
  imports Probes
begin

text \<open>
  The recovery of a suspended endpoint: the tick of the scheduler after the suspension has run out
  picks its oldest open delivery as the probe, makes it due, claims and publishes it.
\<close>

section \<open>The effect of choosing a probe\<close>

lemma SetProbe_none:
  assumes "calm s" and "oldest_open_delivery i s = None"
  shows "snd (CircuitStore_SetProbeDelivery i s) = s\<lparr>endpoints := upd_where (half_open_at i) close_empty_row (endpoints s)\<rparr>"
proof -
  have "update_endpoints (half_open_at i) close_empty_row s =
      (Inr (int (length (filter (half_open_at i) (endpoints s)))),
       s\<lparr>endpoints := upd_where (half_open_at i) close_empty_row (endpoints s)\<rparr>)"
    using assms(1) by (intro update_endpoints_ok) (auto simp: close_empty_row_def calm_def db_ok_schema)
  with assms show ?thesis by (simp add: CircuitStore_SetProbeDelivery_def tryP_def bindP_def calm_def)
qed

definition made_due :: "uuid \<Rightarrow> instant \<Rightarrow> delivery_row list \<Rightarrow> delivery_row list" where
  "made_due q now rows = upd_where (\<lambda>d. dr_id d = q \<and> dr_next_attempt_at d > now) (dr_next_attempt_at_update (\<lambda>_. now)) rows"

lemma SetProbe_some:
  assumes "calm s" and "oldest_open_delivery i s = Some q"
  shows "snd (CircuitStore_SetProbeDelivery i s) =
    s\<lparr>endpoints := upd_where (half_open_at i) (er_probe_delivery_id_update (\<lambda>_. Some q)) (endpoints s),
      deliveries := made_due q (now_ts s) (deliveries s)\<rparr>"
proof -
  let ?s1 = "s\<lparr>endpoints := upd_where (half_open_at i) (er_probe_delivery_id_update (\<lambda>_. Some q)) (endpoints s)\<rparr>"
  have sch: "schema_ok s" and f: "faults s = []" using assms(1) by (simp_all add: calm_def db_ok_schema)
  then have "probe_refs_ok s (endpoints ?s1)"
    using oldest_is_delivery [OF assms(2)] by (auto simp: probe_refs_ok_iff ball_upd_where schema_defs)
  then have upd: "update_endpoints (half_open_at i) (er_probe_delivery_id_update (\<lambda>_. Some q)) s =
      (Inr (int (length (filter (half_open_at i) (endpoints s)))), ?s1)"
    by (simp add: update_endpoints_def Let_def)
  have "db_ok ?s1"
    using preservesD_eq [OF preserves_update_endpoints _ upd] assms(1)
    by (auto simp: calm_def intro: circuit_ok_set_probe)
  then have upd2: "update_deliveries (\<lambda>d. dr_id d = q \<and> dr_next_attempt_at d > now_ts ?s1) (dr_next_attempt_at_update (\<lambda>_. now_ts ?s1)) ?s1 =
      (Inr (int (length (filter (\<lambda>d. dr_id d = q \<and> dr_next_attempt_at d > now_ts ?s1) (deliveries ?s1)))),
       ?s1\<lparr>deliveries := made_due q (now_ts ?s1) (deliveries ?s1)\<rparr>)"
    unfolding made_due_def by (intro update_deliveries_ok) (auto simp: db_ok_schema active_replay_def)
  from upd upd2 f assms(2) show ?thesis
    by (simp add: CircuitStore_SetProbeDelivery_def tryP_def bindP_def map_errP_def)
qed

text \<open>Making a delivery due changes neither the order of the open deliveries nor what blocks what.\<close>

lemma sort_key_map: "(\<And>x. k (h x) = k x) \<Longrightarrow> sort_key k (map h xs) = map h (sort_key k xs)"
proof (induction xs)
  case (Cons x xs)
  have "insort_key k (h x) (map h ys) = map h (insort_key k x ys)" for ys
    by (induction ys) (simp_all add: Cons.prems)
  with Cons show ?case by simp
qed simp

lemma oldest_made_due:
  "oldest_open_delivery i (s\<lparr>deliveries := made_due q t (deliveries s)\<rparr>) = oldest_open_delivery i s"
proof -
  define h where "h = (\<lambda>d :: delivery_row. if dr_id d = q \<and> dr_next_attempt_at d > t then d\<lparr>dr_next_attempt_at := t\<rparr> else d)"
  have keys: "dr_id (h d) = dr_id d" "dr_created_at (h d) = dr_created_at d" "dr_status (h d) = dr_status d"
    "dr_endpoint_id (h d) = dr_endpoint_id d" for d
    by (simp_all add: h_def)
  have "made_due q t rows = map h rows" for rows by (simp add: made_due_def upd_where_def h_def)
  then have "open_deliveries i (s\<lparr>deliveries := made_due q t (deliveries s)\<rparr>) = map h (open_deliveries i s)"
    by (simp add: open_deliveries_def filter_map o_def keys)
  then show ?thesis
    by (auto simp: oldest_open_delivery_def sort_key_map keys split: list.splits)
qed

lemma oldest_cong: "deliveries s' = deliveries s \<Longrightarrow> oldest_open_delivery i s' = oldest_open_delivery i s"
  by (simp add: oldest_open_delivery_def open_deliveries_def)

section \<open>Waiting for the probe\<close>

definition head_of_line :: "uuid \<Rightarrow> uuid \<Rightarrow> delivery_row list \<Rightarrow> bool" where
  "head_of_line e p rows \<longleftrightarrow> (\<exists>d. row_by dr_id p rows = Some d \<and> dr_endpoint_id d = e \<and> dr_status d = Scheduled \<and>
     list_all (\<lambda>d2. \<not> blocks d2 d) rows)"

definition probe_due :: "uuid \<Rightarrow> uuid \<Rightarrow> db \<Rightarrow> bool" where
  "probe_due e p s \<longleftrightarrow>
     (\<exists>r. row_by er_id e (endpoints s) = Some r \<and> er_circuit_state r = CircuitHalfOpen \<and> er_probe_delivery_id r = Some p) \<and>
     (\<exists>d. row_by dr_id p (deliveries s) = Some d \<and> dr_next_attempt_at d \<le> now_ts s)"

definition awaits :: "uuid \<Rightarrow> uuid \<Rightarrow> nat \<Rightarrow> db \<Rightarrow> bool" where
  "awaits e p n s \<longleftrightarrow> calm s \<and> oldest_open_delivery e s = Some p \<and>
     (\<exists>r. row_by er_id e (endpoints s) = Some r \<and> er_circuit_state r = CircuitHalfOpen) \<and>
     head_of_line e p (deliveries s) \<and> length (filter (\<lambda>d. dr_status d = Scheduled) (deliveries s)) \<le> n"

lemma made_due_facts:
  "head_of_line e p (made_due q t rows) = head_of_line e p rows"
  "length (filter (\<lambda>d. dr_status d = Scheduled) (made_due q t rows)) = length (filter (\<lambda>d. dr_status d = Scheduled) rows)"
  "row_by dr_id k (made_due q t rows) = map_option (\<lambda>d. if dr_id d = q \<and> dr_next_attempt_at d > t then d\<lparr>dr_next_attempt_at := t\<rparr> else d)
     (row_by dr_id k rows)"
proof -
  show row: "row_by dr_id k (made_due q t rows) = map_option (\<lambda>d. if dr_id d = q \<and> dr_next_attempt_at d > t then d\<lparr>dr_next_attempt_at := t\<rparr> else d)
     (row_by dr_id k rows)" for k
    unfolding made_due_def by (subst row_by_upd_where) (simp_all cong: if_cong)
  have "blocks d2 (d\<lparr>dr_next_attempt_at := t\<rparr>) = blocks d2 d" "blocks (d2\<lparr>dr_next_attempt_at := t\<rparr>) d = blocks d2 d" for d2 d
    by (simp_all add: blocks_def)
  then show "head_of_line e p (made_due q t rows) = head_of_line e p rows"
    unfolding head_of_line_def row
    by (cases "row_by dr_id p rows") (auto simp: list_all_iff made_due_def ball_upd_where)
  show "length (filter (\<lambda>d. dr_status d = Scheduled) (made_due q t rows)) = length (filter (\<lambda>d. dr_status d = Scheduled) rows)"
    unfolding made_due_def by (induction rows) auto
qed

lemma SetProbe_awaits:
  assumes "awaits e p n s"
  shows "awaits e p n (snd (CircuitStore_SetProbeDelivery i s)) \<and>
    now_ts (snd (CircuitStore_SetProbeDelivery i s)) = now_ts s \<and>
    (i = e \<or> probe_due e p s \<longrightarrow> probe_due e p (snd (CircuitStore_SetProbeDelivery i s)))"
proof -
  let ?s' = "snd (CircuitStore_SetProbeDelivery i s)"
  obtain r where r: "row_by er_id e (endpoints s) = Some r" "er_circuit_state r = CircuitHalfOpen"
    and calm: "calm s" and old: "oldest_open_delivery e s = Some p"
    using assms by (auto simp: awaits_def)
  from r have re: "er_id r = e" by (auto dest: row_by_SomeD)
  have calm': "calm ?s'" using SetProbe_orphans [OF calm] by blast
  show ?thesis
  proof (cases "oldest_open_delivery i s")
    case None
    with old have "i \<noteq> e" by auto
    with r re have "row_by er_id e (endpoints ?s') = Some r"
      unfolding SetProbe_none [OF calm None] by (simp add: row_by_upd_where close_empty_row_def half_open_at_def)
    moreover have "oldest_open_delivery e ?s' = Some p"
      using old oldest_cong [of ?s' s] unfolding SetProbe_none [OF calm None] by simp
    ultimately show ?thesis
      using assms calm' \<open>i \<noteq> e\<close> r by (auto simp: awaits_def probe_due_def SetProbe_none [OF calm None])
  next
    case (Some q)
    let ?t = "now_ts s" and ?r = "if i = e then r\<lparr>er_probe_delivery_id := Some q\<rparr> else r"
    have s': "?s' = s\<lparr>endpoints := upd_where (half_open_at i) (er_probe_delivery_id_update (\<lambda>_. Some q)) (endpoints s),
        deliveries := made_due q ?t (deliveries s)\<rparr>" by (rule SetProbe_some [OF calm Some])
    have row: "row_by er_id e (endpoints ?s') = Some ?r"
      using r re unfolding s' by (simp add: row_by_upd_where half_open_at_def)
    have "oldest_open_delivery e ?s' = Some p"
      using old oldest_cong [of ?s' "s\<lparr>deliveries := made_due q ?t (deliveries s)\<rparr>"] oldest_made_due [where i = e and s = s and q = q and t = ?t]
      unfolding s' by simp
    moreover have "probe_due e p ?s'" if "i = e \<or> probe_due e p s"
    proof -
      obtain d where d: "row_by dr_id p (deliveries s) = Some d" using assms by (auto simp: awaits_def head_of_line_def)
      then have "dr_id d = p" by (auto dest: row_by_SomeD)
      with that d row r Some old show ?thesis
        by (auto simp: probe_due_def s' made_due_facts)
    qed
    ultimately show ?thesis
      using assms calm' row r by (auto simp: awaits_def s' made_due_facts)
  qed
qed

lemma probes_await:
  assumes "awaits e p n (w_db w)" and "e \<in> set ids \<or> probe_due e p (w_db w)"
  shows "awaits e p n (w_db (snd (set_probes circuit_store ids w))) \<and>
    now_ts (w_db (snd (set_probes circuit_store ids w))) = now_ts (w_db w) \<and>
    probe_due e p (w_db (snd (set_probes circuit_store ids w)))"
  using assms
proof (induction ids arbitrary: w)
  case (Cons i ids)
  let ?w1 = "snd (on_db (CircuitStore_SetProbeDelivery i) w)"
  have db: "w_db ?w1 = snd (CircuitStore_SetProbeDelivery i (w_db w))" by (simp add: on_db_def split: prod.splits)
  from SetProbe_awaits [OF Cons.prems(1), of i] Cons.prems(2)
  have "awaits e p n (w_db ?w1)" "now_ts (w_db ?w1) = now_ts (w_db w)" "e \<in> set ids \<or> probe_due e p (w_db ?w1)"
    unfolding db by auto
  with Cons.IH [of ?w1] show ?case by (simp add: set_probes_def circuit_store_def)
qed (simp add: set_probes_def)

text \<open>A due probe at the head of the line is ready.\<close>

lemma probe_ready:
  assumes "awaits e p n s" and "probe_due e p s"
  obtains d where "row_by dr_id p (deliveries s) = Some d" "ready s d" "d \<in> set (claim_batch n s)"
proof -
  obtain d where d: "row_by dr_id p (deliveries s) = Some d" "dr_endpoint_id d = e" "dr_status d = Scheduled"
    "list_all (\<lambda>d2. \<not> blocks d2 d) (deliveries s)" and n: "length (filter (\<lambda>d. dr_status d = Scheduled) (deliveries s)) \<le> n"
    using assms(1) by (auto simp: awaits_def head_of_line_def)
  then have mem: "d \<in> set (deliveries s)" "dr_id d = p" by (auto dest: row_by_SomeD)
  with d assms(2) have rdy: "ready s d"
    by (auto simp: ready_def circuit_lets_through_def probe_due_def list_all_iff list_ex_iff)
  have "length (filter (ready s) rows) \<le> length (filter (\<lambda>d. dr_status d = Scheduled) rows)" for rows
    by (induction rows) (auto simp: ready_def)
  with n have "length (filter (ready s) (deliveries s)) \<le> n" using le_trans by blast
  from claim_batch_all [OF this] mem rdy have "d \<in> set (claim_batch n s)" by simp
  with that d(1) rdy show thesis by blast
qed

section \<open>The tick\<close>

lemma expired_awaits:
  assumes calm: "calm s" and e: "row_by er_id e (endpoints s) = Some r" "suspension_expired (now_ts s) r"
    and q: "oldest_open_delivery e s = Some p" "head_of_line e p (deliveries s)"
      "length (filter (\<lambda>d. dr_status d = Scheduled) (deliveries s)) \<le> n"
  obtains half s1 closed where "CircuitStore_ProcessExpiredSuspensions s = (Inr (half, closed), s1)" "e \<in> set half" "awaits e p n s1"
    "now_ts s1 = now_ts s"
proof -
  define s1 where "s1 = s\<lparr>endpoints := upd_where (suspension_expired (now_ts s)) (expired_row s) (endpoints s)\<rparr>"
  define upd where "upd = map (expired_row s) (filter (suspension_expired (now_ts s)) (endpoints s))"
  define half where "half = map er_id (filter (\<lambda>e. er_circuit_state e = CircuitHalfOpen) upd)"
  have f: "faults s = []" and sch: "schema_ok s" using calm by (simp_all add: calm_def db_ok_schema)
  have "update_endpoints (suspension_expired (now_ts s)) (expired_row s) s =
      (Inr (int (length (filter (suspension_expired (now_ts s)) (endpoints s)))), s1)"
    unfolding s1_def by (rule update_endpoints_ok [OF sch]) (simp add: expired_row_def)
  then have run: "CircuitStore_ProcessExpiredSuspensions s =
      (Inr (half, map er_id (filter (\<lambda>e. er_circuit_state e = CircuitClosed) upd)), s1)"
    using f by (simp add: CircuitStore_ProcessExpiredSuspensions_def map_errP_def bindP_def Let_def half_def upd_def)
  have re: "er_id r = e" "r \<in> set (endpoints s)" using e(1) by (auto dest: row_by_SomeD)
  have "open_deliveries e s \<noteq> []" using q(1) by (auto simp: oldest_open_delivery_def)
  then have half_open: "er_circuit_state (expired_row s r) = CircuitHalfOpen" "er_id (expired_row s r) = e"
    using re by (simp_all add: expired_row_def)
  have "expired_row s r \<in> set upd" using re e(2) by (auto simp: upd_def)
  then have "e \<in> set half" using half_open by (force simp: half_def)
  moreover have "calm s1"
    using preservesD_eq [OF ProcessExpiredSuspensions_preserves _ run] calm f by (simp add: calm_def s1_def)
  moreover have "row_by er_id e (endpoints s1) = Some (expired_row s r)"
    using e by (simp add: s1_def row_by_upd_where expired_row_def)
  ultimately show thesis
    using that [OF run] half_open q oldest_cong [of s1 s] by (simp add: awaits_def s1_def)
qed

lemma set_probes_acks: "w_acks (snd (set_probes circuit_store ids w)) = w_acks w"
proof -
  have "preserves (\<lambda>v. w_acks v = w_acks w) (on_db m)" for m :: "unit dbprog"
    by (simp add: preserves_def on_db_def split: prod.splits)
  then have "preserves (\<lambda>v. w_acks v = w_acks w) (set_probes circuit_store ids)"
    unfolding set_probes_def [abs_def] circuit_store_def SchedulerCircuitStore.simps by (intro for_each_preserves)
  then show ?thesis by (simp add: preserves_def)
qed


definition suspended_db :: db where
  "suspended_db = sample_db\<lparr>endpoints := [sample_endpoint\<lparr>er_circuit_state := CircuitOpen, er_suspended_until := Some 500\<rparr>],
     deliveries := [sample_running\<lparr>dr_status := Scheduled, dr_lease_until := None, dr_next_attempt_at := 5000\<rparr>, sample_failed]\<rparr>"


end
