(* ===== verification/Secrecy.thy ===== *)
theory Secrecy
  imports API
begin

text \<open>
  Who gets to see a signing secret.  The comments of \<open>endpoint_store.go\<close>, \<open>endpoint_service.go\<close>
  and \<open>dto.go\<close> promise that a secret is shown once, when it is made; the store, the services and
  the response types keep that promise together.

  A program is \<open>blind\<close> to a change \<open>h\<close> of the state when it gives the same result before and
  after the change and leaves states that differ by the change.  Composition keeps this, so
  that it is checked at the statements only.
\<close>

named_theorems blind_intros

definition blind :: "('s \<Rightarrow> 's) \<Rightarrow> ('e, 's, 'a) prog \<Rightarrow> bool" where
  "blind h m \<longleftrightarrow> (\<forall>s. m (h s) = (fst (m s), h (snd (m s))))"

lemma blindD: "blind h m \<Longrightarrow> m (h s) = (fst (m s), h (snd (m s)))"
  by (simp add: blind_def)

lemma blind_return [blind_intros]: "blind h (returnP x)"
  by (simp add: blind_def)

lemma blind_fail [blind_intros]: "blind h (failP e)"
  by (simp add: blind_def)

lemma blind_try [blind_intros]:
  "blind h m \<Longrightarrow> (\<And>e. blind h (f e)) \<Longrightarrow> (\<And>x. blind h (g x)) \<Longrightarrow> blind h (tryP m f g)"
  by (auto simp: blind_def tryP_def split: prod.splits sum.splits)

lemma blind_bind [blind_intros]: "blind h m \<Longrightarrow> (\<And>x. blind h (f x)) \<Longrightarrow> blind h (bindP m f)"
  by (auto simp: blind_def bindP_def split: prod.splits sum.splits)

lemma blind_map_err [blind_intros]: "blind h m \<Longrightarrow> blind h (map_errP g m)"
  by (auto simp: blind_def map_errP_def split: prod.splits sum.splits)

lemma blind_if [blind_intros]: "(b \<Longrightarrow> blind h m) \<Longrightarrow> (\<not> b \<Longrightarrow> blind h n) \<Longrightarrow> blind h (if b then m else n)"
  by simp

lemma blind_case_option [blind_intros]:
  "blind h m \<Longrightarrow> (\<And>y. blind h (f y)) \<Longrightarrow> blind h (case x of None \<Rightarrow> m | Some y \<Rightarrow> f y)"
  by (cases x) auto

lemma blind_case_prod [blind_intros]: "(\<And>a b. blind h (f a b)) \<Longrightarrow> blind h (case p of (a, b) \<Rightarrow> f a b)"
  by (cases p) simp

lemma blind_respond: "blind h m \<Longrightarrow> fst (respond m on_err on_ok (h s)) = fst (respond m on_err on_ok s)"
  by (auto simp: blind_def respond_def split: prod.splits sum.splits)

section \<open>The change: other secrets\<close>

definition with_secrets :: "(endpoint_row \<Rightarrow> bytes) \<Rightarrow> db \<Rightarrow> db" where
  "with_secrets f s = s\<lparr>endpoints := map (\<lambda>e. e\<lparr>er_signing_secret := f e\<rparr>) (endpoints s)\<rparr>"

lemma with_secrets_simps [simp]:
  "tenants (with_secrets f s) = tenants s" "events (with_secrets f s) = events s"
  "deliveries (with_secrets f s) = deliveries s" "attempts (with_secrets f s) = attempts s"
  "idempotency_records (with_secrets f s) = idempotency_records s" "now_ts (with_secrets f s) = now_ts s"
  "faults (with_secrets f s) = faults s"
  "with_secrets f s\<lparr>faults := fs\<rparr> = with_secrets f (s\<lparr>faults := fs\<rparr>)"
  by (simp_all add: with_secrets_def)

lemma blind_read [blind_intros]: "(\<And>s. g (with_secrets f s) = g s) \<Longrightarrow> blind (with_secrets f) (stmt (readP g))"
  by (auto simp: blind_def stmt_def split: list.splits fault.splits)

lemma blind_state_read:
  "(\<And>s. m (with_secrets f s) = m s) \<Longrightarrow> (\<And>s. blind (with_secrets f) (m s)) \<Longrightarrow> blind (with_secrets f) (stmt (with_state m))"
  by (simp add: blind_def stmt_def split: list.splits fault.splits)

lemma endpoint_row_by:
  "row_by er_id i (endpoints (with_secrets f s)) =
     map_option (\<lambda>e. e\<lparr>er_signing_secret := f e\<rparr>) (row_by er_id i (endpoints s))"
proof -
  have "row_by er_id i (map (\<lambda>e. e\<lparr>er_signing_secret := f e\<rparr>) es) =
      map_option (\<lambda>e. e\<lparr>er_signing_secret := f e\<rparr>) (row_by er_id i es)" for es
    by (induction es) auto
  then show ?thesis by (simp add: with_secrets_def)
qed

section \<open>The reads of the API\<close>

lemma blind_tenant [blind_intros]: "blind (with_secrets f) (TenantStore_GetByID i)"
  unfolding TenantStore_GetByID_def by (intro blind_intros) simp

lemma dlq_entry_with_secrets [simp]: "dlq_entry (with_secrets f s) = dlq_entry s"
  by (simp add: fun_eq_iff dlq_entry_def last_completed_def)

lemma blind_delivery [blind_intros]:
  "blind (with_secrets f) (DeliveryStore_GetByIDWithAttempts i)"
  "blind (with_secrets f) (DeliveryStore_GetPermanentlyFailed i)"
  "blind (with_secrets f) (AttemptStore_ListByDelivery i)"
  "blind (with_secrets f) (DeliveryStore_ListPermanentlyFailed filt page limit)"
  unfolding DeliveryStore_GetByIDWithAttempts_def DeliveryStore_GetPermanentlyFailed_def
    AttemptStore_ListByDelivery_def DeliveryStore_ListPermanentlyFailed_def Let_def
  by (intro blind_intros blind_state_read; simp add: attempts_of_def dead_letters_def cong: option.case_cong)+

text \<open>The queries of these two select columns of an endpoint row, not the secret.\<close>

lemma blind_endpoint [blind_intros]:
  "blind (with_secrets f) (EndpointStore_GetByID i)"
  "blind (with_secrets f) (CircuitStore_GetState i)"
  by (auto simp: blind_def EndpointStore_GetByID_def CircuitStore_GetState_def tryP_def stmt_def endpoint_row_by
      scanEndpoint_def split: list.splits fault.splits option.splits)

lemma service_reads:
  "dq_ListPermanentlyFailed dlq_service = DeliveryStore_ListPermanentlyFailed"
  "dq_GetPermanentlyFailed dlq_service = DeliveryStore_GetPermanentlyFailed"
  "dq_GetEndpoint dlq_service = EndpointStore_GetByID"
  "dq_ListByDelivery dlq_service = AttemptStore_ListByDelivery"
  "es_GetByID endpoint_service = EndpointStore_GetByID" "ts_GetByID tenant_service = TenantStore_GetByID"
  by (simp_all add: dlq_service_def endpoint_service_def NewEndpointService_def tenant_service_def)

lemma blind_services:
  "blind (with_secrets f) (dlqService_List dlq_service filt page limit)"
  "blind (with_secrets f) (dlqService_Detail dlq_service i)"
  "blind (with_secrets f) (DeliveryService_Get DeliveryStore_GetByIDWithAttempts i)"
  "blind (with_secrets f) (EndpointService_Get endpoint_service i)"
  "blind (with_secrets f) (TenantService_GetByID tenant_service i)"
  unfolding dlqService_List_def dlqService_Detail_def DeliveryService_Get_def EndpointService_Get_def
    TenantService_GetByID_def service_reads Let_def
  by (intro blind_intros)+

text \<open>C37. No read of the API depends on a signing secret: whatever secrets the endpoints have, the
  answers to every GET (tenant, endpoint, delivery, circuit breaker, dead letter list and
  detail) are the same, under the same connection failures.\<close>

theorem reads_hide_secrets:
  "fst (endpoint_Get parse_id endpoint_service raw (with_secrets f s)) = fst (endpoint_Get parse_id endpoint_service raw s) \<and>
   fst (tenant_GetByID parse_id tenant_service raw (with_secrets f s)) = fst (tenant_GetByID parse_id tenant_service raw s) \<and>
   fst (delivery_Get parse_id DeliveryStore_GetByIDWithAttempts raw (with_secrets f s)) =
     fst (delivery_Get parse_id DeliveryStore_GetByIDWithAttempts raw s) \<and>
   fst (circuit_GetState parse_id CircuitStore_GetState raw (with_secrets f s)) =
     fst (circuit_GetState parse_id CircuitStore_GetState raw s) \<and>
   fst (dlq_List parse_id dlq_service q (with_secrets f s)) = fst (dlq_List parse_id dlq_service q s) \<and>
   fst (dlq_Detail parse_id dlq_service raw (with_secrets f s)) = fst (dlq_Detail parse_id dlq_service raw s)"
  unfolding endpoint_Get_def tenant_GetByID_def delivery_Get_def circuit_GetState_def dlq_List_def dlq_Detail_def
  by (auto split: option.splits sum.splits intro!: blind_respond blind_services blind_endpoint)

end
