(* ===== verification/Go_JSON.thy ===== *)
theory Go_JSON
  imports Go_Std
begin

text \<open>
  \<open>encoding/json\<close> as the program uses it: the syntax accepted by \<open>Unmarshal\<close> and
  \<open>Decoder.Decode\<close> (string escapes, surrogates, replacement of invalid UTF-8, the nesting
  limit), what a value does to a field of a struct, the choice of the field by its name, and
  the text \<open>Marshal\<close> writes.

  A JSON object keeps its members in order and with repetitions, each with the source text of
  its value, which is what a \<open>json.RawMessage\<close> receives.
\<close>

section \<open>Values and white space\<close>

datatype json =
    JNull
  | JBool bool
  | JNumber string
  | JString bytes
  | JArray "json list"
  | JObject "(bytes \<times> bytes \<times> json) list"

definition is_space :: "char \<Rightarrow> bool" where
  "is_space c \<longleftrightarrow> c = CHR '' '' \<or> c = CHR 0x09 \<or> c = CHR 0x0A \<or> c = CHR 0x0D"

definition skip_ws :: "bytes \<Rightarrow> bytes" where
  "skip_ws s = dropWhile is_space s"

lemma length_skip_ws: "length (skip_ws s) \<le> length s"
  by (simp add: skip_ws_def length_dropWhile_le)

section \<open>Strings\<close>

text \<open>Four hexadecimal digits, and a \<open>\u\<close> escape: a pair of surrogates is one code point, a
  surrogate on its own is replaced by U+FFFD.\<close>

fun hex4 :: "bytes \<Rightarrow> (nat \<times> bytes) option" where
  "hex4 (a # b # c # d # rest) =
     (case (hex_val a, hex_val b, hex_val c, hex_val d) of
        (Some w, Some x, Some y, Some z) \<Rightarrow> Some (4096 * w + 256 * x + 16 * y + z, rest)
      | _ \<Rightarrow> None)"
| "hex4 _ = None"

definition surrogate :: "nat \<Rightarrow> bool" where
  "surrogate r \<longleftrightarrow> 55296 \<le> r \<and> r < 57344"

definition join_surrogates :: "nat \<Rightarrow> nat \<Rightarrow> nat option" where
  "join_surrogates r r2 =
     (if 55296 \<le> r \<and> r < 56320 \<and> 56320 \<le> r2 \<and> r2 < 57344
      then Some (65536 + (r - 55296) * 1024 + (r2 - 56320)) else None)"

definition unicode_escape :: "bytes \<Rightarrow> (nat \<times> bytes) option" where
  "unicode_escape s =
     (case hex4 s of
        None \<Rightarrow> None
      | Some (r, rest) \<Rightarrow>
          if \<not> surrogate r then Some (r, rest)
          else (case (if take 2 rest = [CHR 0x5C, CHR ''u''] then hex4 (drop 2 rest) else None) of
              None \<Rightarrow> Some (65533, rest)
            | Some (r2, rest2) \<Rightarrow> (case join_surrogates r r2 of
                Some dec \<Rightarrow> Some (dec, rest2) | None \<Rightarrow> Some (65533, rest))))"

definition simple_escape :: "char \<Rightarrow> char option" where
  "simple_escape c =
     (if c = CHR 0x22 \<or> c = CHR 0x5C \<or> c = CHR ''/'' then Some c
      else if c = CHR ''b'' then Some (CHR 0x08) else if c = CHR ''f'' then Some (CHR 0x0C)
      else if c = CHR ''n'' then Some (CHR 0x0A) else if c = CHR ''r'' then Some (CHR 0x0D)
      else if c = CHR ''t'' then Some (CHR 0x09) else None)"

lemma hex4_length: "hex4 s = Some (r, rest) \<Longrightarrow> length rest < length s"
  by (cases s rule: hex4.cases) (auto split: option.splits)

lemma unicode_escape_length: "unicode_escape s = Some (r, rest) \<Longrightarrow> length rest < length s"
  by (auto simp: unicode_escape_def dest!: hex4_length split: option.splits if_splits)

text \<open>One character or escape of a string, decoded, and what follows it.\<close>

definition string_piece :: "char \<Rightarrow> bytes \<Rightarrow> (bytes \<times> bytes) option" where
  "string_piece c cs =
     (if (of_char c :: nat) < 32 then None
      else if c = CHR 0x5C then
        (case cs of [] \<Rightarrow> None
         | e # rest \<Rightarrow>
             if e = CHR ''u''
             then map_option (apfst encode_rune) (unicode_escape rest)
             else map_option (\<lambda>x. ([x], rest)) (simple_escape e))
      else if (of_char c :: nat) < 128 then Some ([c], cs)
      else (let w = snd (decode_rune (of_char c) (map of_char cs)) in
            if w = 1 then Some (encode_rune 65533, cs) else Some (c # take (w - 1) cs, drop (w - 1) cs)))"

lemma string_piece_length: "string_piece c cs = Some (p, rest) \<Longrightarrow> length rest < length (c # cs)"
  by (auto simp: string_piece_def Let_def apfst_def map_prod_def dest: unicode_escape_length split: if_splits list.splits)

text \<open>The characters up to the closing quote, decoded, and what follows it.\<close>

function lex_string :: "bytes \<Rightarrow> (bytes \<times> bytes) option" where
  "lex_string [] = None"
| "lex_string (c # cs) =
     (if c = CHR 0x22 then Some ([], cs)
      else case string_piece c cs of
        None \<Rightarrow> None
      | Some (p, rest) \<Rightarrow> map_option (apfst (append p)) (lex_string rest))"
  by pat_completeness auto
termination
  by (relation "measure length") (auto dest: string_piece_length)

lemma lex_string_length: "lex_string s = Some (b, rest) \<Longrightarrow> length rest < length s"
proof (induction s arbitrary: b rest rule: lex_string.induct)
  case (2 c cs)
  show ?case
  proof (cases "c = CHR 0x22")
    case False
    with 2(2) obtain p r b' where "string_piece c cs = Some (p, r)" "lex_string r = Some (b', rest)"
      by (auto split: option.splits)
    with 2(1) [OF False this(1) refl this(2)] string_piece_length show ?thesis by fastforce
  qed (use 2(2) in simp)
qed simp

lemma hex4_bound: "hex4 s = Some (r, rest) \<Longrightarrow> r < 65536"
proof (cases s rule: hex4.cases)
  case (1 a b c d rest')
  have hv: "hex_val x = Some v \<Longrightarrow> v < 16" for x v
    by (auto simp: hex_val_def Let_def split: if_splits)
  assume "hex4 s = Some (r, rest)"
  with 1 show ?thesis by (auto split: option.splits dest!: hv)
qed simp_all

lemma unicode_escape_scalar: "unicode_escape s = Some (r, rest) \<Longrightarrow> scalar_value r"
  by (auto simp: unicode_escape_def scalar_value_def surrogate_def join_surrogates_def
      dest!: hex4_bound split: option.splits if_splits)

lemma valid_string_piece: "string_piece c cs = Some (p, rest) \<Longrightarrow> valid_utf8 (p @ t) = valid_utf8 t"
proof -
  assume p: "string_piece c cs = Some (p, rest)"
  have esc: "simple_escape e = Some x \<Longrightarrow> (of_char x :: nat) < 128" for e x
    by (auto simp: simple_escape_def split: if_splits)
  have rune: "snd (decode_rune (of_char c) (map of_char cs)) \<noteq> Suc 0 \<Longrightarrow>
      valid_utf8 (c # take (snd (decode_rune (of_char c) (map of_char cs)) - Suc 0) cs @ t) = valid_utf8 t"
    using valid_utf8_rune [OF prod.collapse [symmetric], of c cs t] by simp
  have "scalar_value 65533" by (simp add: scalar_value_def)
  with p show ?thesis
    by (auto simp: string_piece_def Let_def valid_utf8_ascii esc valid_utf8_encode_rune
        rune dest: unicode_escape_scalar
        split: if_splits list.splits)
qed

text \<open>A decoded string is valid UTF-8, whatever bytes the literal has.\<close>

lemma lex_string_valid: "lex_string s = Some (b, rest) \<Longrightarrow> valid_utf8 b"
proof (induction s arbitrary: b rest rule: lex_string.induct)
  case (2 c cs)
  show ?case
  proof (cases "c = CHR 0x22")
    case False
    with 2(2) obtain p r b' where "string_piece c cs = Some (p, r)" "lex_string r = Some (b', rest)" "b = p @ b'"
      by (auto split: option.splits)
    with 2(1) [OF False this(1) refl this(2)] valid_string_piece show ?thesis by blast
  qed (use 2(2) in simp)
qed simp

section \<open>Numbers and literals\<close>

text \<open>What follows a number: an integer part without leading zero, a fraction, an exponent.\<close>

definition skip_digits :: "bytes \<Rightarrow> bytes option" where
  "skip_digits s = (if takeWhile is_digit s = [] then None else Some (dropWhile is_digit s))"

definition skip_int :: "bytes \<Rightarrow> bytes option" where
  "skip_int s = (if take 1 s = ''0'' then Some (drop 1 s) else skip_digits s)"

definition skip_frac :: "bytes \<Rightarrow> bytes option" where
  "skip_frac s = (if take 1 s = ''.'' then skip_digits (drop 1 s) else Some s)"

definition skip_exp :: "bytes \<Rightarrow> bytes option" where
  "skip_exp s =
     (if take 1 s = ''e'' \<or> take 1 s = ''E''
      then skip_digits (if take 1 (drop 1 s) = ''+'' \<or> take 1 (drop 1 s) = ''-'' then drop 2 s else drop 1 s)
      else Some s)"

definition skip_number :: "bytes \<Rightarrow> bytes option" where
  "skip_number s =
     Option.bind (skip_int (if take 1 s = ''-'' then drop 1 s else s)) (\<lambda>r.
     Option.bind (skip_frac r) skip_exp)"

definition parse_number :: "bytes \<Rightarrow> (json \<times> bytes) option" where
  "parse_number s = map_option (\<lambda>r. (JNumber (take (length s - length r) s), r)) (skip_number s)"

definition parse_literal :: "bytes \<Rightarrow> (json \<times> bytes) option" where
  "parse_literal s =
     (if take 4 s = ''null'' then Some (JNull, drop 4 s)
      else if take 4 s = ''true'' then Some (JBool True, drop 4 s)
      else if take 5 s = ''false'' then Some (JBool False, drop 5 s)
      else None)"

lemma skip_digits_length: "skip_digits s = Some r \<Longrightarrow> length r < length s"
proof -
  assume "skip_digits s = Some r"
  then have r: "r = dropWhile is_digit s" "takeWhile is_digit s \<noteq> []" by (auto simp: skip_digits_def split: if_splits)
  have "length s = length (takeWhile is_digit s) + length (dropWhile is_digit s)"
    by (metis length_append takeWhile_dropWhile_id)
  then show ?thesis using r by simp
qed

lemma skip_number_length: "skip_number s = Some r \<Longrightarrow> length r < length s"
proof -
  assume "skip_number s = Some r"
  then obtain s1 s2 where s1: "skip_int (if take 1 s = ''-'' then drop 1 s else s) = Some s1"
      and s2: "skip_frac s1 = Some s2" and r: "skip_exp s2 = Some r"
    by (auto simp: skip_number_def Option.bind_eq_Some_conv)
  have "length s1 < length s"
    using s1 by (cases s) (auto simp: skip_int_def dest: skip_digits_length split: if_splits)
  moreover have "length s2 \<le> length s1"
    using s2 by (auto simp: skip_frac_def dest!: skip_digits_length split: if_splits)
  moreover have "length r \<le> length s2"
    using r by (auto simp: skip_exp_def dest!: skip_digits_length split: if_splits)
  ultimately show ?thesis by linarith
qed

lemma scalar_length:
  "parse_number s = Some (v, r) \<Longrightarrow> length r < length s"
  "parse_literal s = Some (v, r) \<Longrightarrow> length r < length s"
  by (auto simp: parse_number_def dest: skip_number_length)
    (cases s; auto simp: parse_literal_def split: if_splits)

lemma skip_ws_Cons_length: "skip_ws s = c # r \<Longrightarrow> length r < length s"
  using length_skip_ws [of s] by simp

section \<open>Parsing\<close>

text \<open>A value, the elements of an array up to \<open>]\<close>, the members of an object up to \<open>}\<close>, each at
  the first byte that is not white space; \<open>d\<close> is how many levels may still be opened.  The
  comparisons of lengths are always true (\<open>parse_length\<close>); they make the recursion
  well founded before that is known.\<close>

function (sequential) parse_value :: "nat \<Rightarrow> bytes \<Rightarrow> (json \<times> bytes) option"
  and parse_elements :: "nat \<Rightarrow> bytes \<Rightarrow> (json list \<times> bytes) option"
  and parse_members :: "nat \<Rightarrow> bytes \<Rightarrow> ((bytes \<times> bytes \<times> json) list \<times> bytes) option" where
  "parse_value d [] = None"
| "parse_value d (c # cs) =
     (if c = CHR 0x22 then map_option (apfst JString) (lex_string cs)
      else if c = CHR ''['' then
        (if d = 0 then None
         else if take 1 (skip_ws cs) = '']'' then Some (JArray [], drop 1 (skip_ws cs))
         else map_option (apfst JArray) (parse_elements (d - 1) (skip_ws cs)))
      else if c = CHR ''{'' then
        (if d = 0 then None
         else if take 1 (skip_ws cs) = ''}'' then Some (JObject [], drop 1 (skip_ws cs))
         else map_option (apfst JObject) (parse_members (d - 1) (skip_ws cs)))
      else if c = CHR ''-'' \<or> is_digit c then parse_number (c # cs)
      else parse_literal (c # cs))"
| "parse_elements d s =
     (case parse_value d s of
        None \<Rightarrow> None
      | Some (v, r) \<Rightarrow>
          (case skip_ws r of
             [] \<Rightarrow> None
           | c # r2 \<Rightarrow>
               if c = CHR '']'' then Some ([v], r2)
               else if c = CHR '','' \<and> length r2 < length s
               then map_option (apfst ((#) v)) (parse_elements d (skip_ws r2))
               else None))"
| "parse_members d s =
     (case s of
        [] \<Rightarrow> None
      | q # s1 \<Rightarrow>
          if q \<noteq> CHR 0x22 then None
          else (case lex_string s1 of
             None \<Rightarrow> None
           | Some (k, s2) \<Rightarrow>
               (case skip_ws s2 of
                  [] \<Rightarrow> None
                | col # s3 \<Rightarrow>
                    if col \<noteq> CHR '':'' then None
                    else (case parse_value d (skip_ws s3) of
                       None \<Rightarrow> None
                     | Some (v, r) \<Rightarrow>
                         (let m = (k, take (length (skip_ws s3) - length r) (skip_ws s3), v) in
                          case skip_ws r of
                            [] \<Rightarrow> None
                          | c # r2 \<Rightarrow>
                              if c = CHR ''}'' then Some ([m], r2)
                              else if c = CHR '','' \<and> length r2 < length s
                              then map_option (apfst ((#) m)) (parse_members d (skip_ws r2))
                              else None)))))"
  by pat_completeness auto

termination
proof (relation "measure (\<lambda>x. case x of Inl (d, s) \<Rightarrow> 2 * length s
    | Inr (Inl (d, s)) \<Rightarrow> 2 * length s + 1 | Inr (Inr (d, s)) \<Rightarrow> 2 * length s + 1)",
    goal_cases)
  case (2 d c cs)
  then show ?case using length_skip_ws [of cs] by simp
next
  case (3 d c cs)
  then show ?case using length_skip_ws [of cs] by simp
next
  case (5 d s a v r c r2)
  then show ?case using length_skip_ws [of r2] by simp
next
  case (6 d s q s1 a k s2 col s3)
  then have "length s3 < length s2" "length s2 < length s1" by (auto dest: skip_ws_Cons_length lex_string_length)
  then show ?case using 6 length_skip_ws [of s3] by simp
next
  case (7 d s q s1 a k s2 col s3 a' v r m c r2)
  then show ?case using length_skip_ws [of r2] by simp
qed simp_all

declare parse_elements.simps [simp del] parse_members.simps [simp del]

lemma parse_elements_Some:
  assumes "parse_elements d s = Some (vs, r)"
  obtains v r' c r2 where "parse_value d s = Some (v, r')" "skip_ws r' = c # r2" "c = CHR '']''" "vs = [v]" "r = r2"
    | v r' c r2 us where "parse_value d s = Some (v, r')" "skip_ws r' = c # r2" "c \<noteq> CHR '']''"
      "c = CHR '','' \<and> length r2 < length s" "parse_elements d (skip_ws r2) = Some (us, r)" "vs = v # us"
  using assms by (subst (asm) parse_elements.simps) (auto split: option.splits list.splits if_splits)

lemma parse_members_Some:
  assumes "parse_members d s = Some (ms, r)"
  obtains s1 k s2 s3 v r' m c r2 where "s = CHR 0x22 # s1" "lex_string s1 = Some (k, s2)" "skip_ws s2 = CHR '':'' # s3"
      "parse_value d (skip_ws s3) = Some (v, r')" "m = (k, take (length (skip_ws s3) - length r') (skip_ws s3), v)"
      "skip_ws r' = c # r2" "c = CHR ''}''" "ms = [m]" "r = r2"
    | s1 k s2 s3 v r' m c r2 us where "s = CHR 0x22 # s1" "lex_string s1 = Some (k, s2)" "skip_ws s2 = CHR '':'' # s3"
      "parse_value d (skip_ws s3) = Some (v, r')" "m = (k, take (length (skip_ws s3) - length r') (skip_ws s3), v)"
      "skip_ws r' = c # r2" "c \<noteq> CHR ''}''" "c = CHR '','' \<and> length r2 < length s"
      "parse_members d (skip_ws r2) = Some (us, r)" "ms = m # us"
  using assms by (subst (asm) parse_members.simps) (auto simp: Let_def split: option.splits list.splits if_splits)

lemma parse_length:
  "parse_value d s = Some (v, r) \<Longrightarrow> length r < length s"
  "parse_elements d s = Some (vs, r) \<Longrightarrow> length r < length s"
  "parse_members d s = Some (ms, r) \<Longrightarrow> length r < length s"
proof (induction d s and d s and d s arbitrary: v r and vs r and ms r
    rule: parse_value_parse_elements_parse_members.induct)
  case (2 d c cs)
  then show ?case
    using length_skip_ws [of cs] by (fastforce dest: lex_string_length scalar_length split: if_splits)
next
  case (3 d s)
  from 3(3) show ?case
  proof (cases rule: parse_elements_Some)
    case (1 v r' c r2)
    then show ?thesis using 3(1) [OF 1(1)] skip_ws_Cons_length [OF 1(2)] by simp
  next
    case (2 v r' c r2 us)
    then show ?thesis using 3(2) [OF 2(1) refl 2(2,3,4,5)] length_skip_ws [of r2] by simp
  qed
next
  case (4 d s)
  from 4(3) show ?case
  proof (cases rule: parse_members_Some)
    case (1 s1 k s2 s3 v r' m c r2)
    have "length r' < length (skip_ws s3)" using 4(1) [OF 1(1) _ 1(2) refl 1(3) _ 1(4)] by simp
    moreover have "length s3 < length s"
      using 1(1) lex_string_length [OF 1(2)] skip_ws_Cons_length [OF 1(3)] by simp
    ultimately show ?thesis using 1(9) skip_ws_Cons_length [OF 1(6)] length_skip_ws [of s3] by simp
  next
    case (2 s1 k s2 s3 v r' m c r2 us)
    have "length r < length (skip_ws r2)" using 4(2) [OF 2(1) _ 2(2) refl 2(3) _ 2(4) refl 2(5,6,7,8,9)] by simp
    then show ?thesis using 2(8) length_skip_ws [of r2] by linarith
  qed
qed simp

text \<open>Every string and every key of a parsed value is valid UTF-8.\<close>

fun text_valid :: "json \<Rightarrow> bool" where
  "text_valid (JString b) \<longleftrightarrow> valid_utf8 b"
| "text_valid (JArray vs) \<longleftrightarrow> list_all text_valid vs"
| "text_valid (JObject ms) \<longleftrightarrow> list_all (\<lambda>(k, r, v). valid_utf8 k \<and> text_valid v) ms"
| "text_valid v \<longleftrightarrow> True"

abbreviation members_valid :: "(bytes \<times> bytes \<times> json) list \<Rightarrow> bool" where
  "members_valid \<equiv> list_all (\<lambda>(k, r, v). valid_utf8 k \<and> text_valid v)"

lemma scalar_valid:
  "parse_number s = Some (v, r) \<Longrightarrow> text_valid v"
  "parse_literal s = Some (v, r) \<Longrightarrow> text_valid v"
  by (auto simp: parse_number_def parse_literal_def split: if_splits)

lemma parse_valid:
  "parse_value d s = Some (v, r) \<Longrightarrow> text_valid v"
  "parse_elements d s = Some (vs, r) \<Longrightarrow> list_all text_valid vs"
  "parse_members d s = Some (ms, r) \<Longrightarrow> members_valid ms"
proof (induction d s and d s and d s arbitrary: v r and vs r and ms r
    rule: parse_value_parse_elements_parse_members.induct)
  case (2 d c cs)
  then show ?case
    by (auto dest: lex_string_valid scalar_valid split: if_splits)
next
  case (3 d s)
  from 3(3) show ?case
  proof (cases rule: parse_elements_Some)
    case (1 v r' c r2)
    then show ?thesis using 3(1) [OF 1(1)] by simp
  next
    case (2 v r' c r2 us)
    then show ?thesis using 3(1) [OF 2(1)] 3(2) [OF 2(1) refl 2(2,3,4,5)] by simp
  qed
next
  case (4 d s)
  from 4(3) show ?case
  proof (cases rule: parse_members_Some)
    case (1 s1 k s2 s3 v r' m c r2)
    have "text_valid v" using 4(1) [OF 1(1) _ 1(2) refl 1(3) _ 1(4)] by simp
    with 1(5,8) lex_string_valid [OF 1(2)] show ?thesis by simp
  next
    case (2 s1 k s2 s3 v r' m c r2 us)
    have "text_valid v" using 4(1) [OF 2(1) _ 2(2) refl 2(3) _ 2(4)] by simp
    moreover have "members_valid us" using 4(2) [OF 2(1) _ 2(2) refl 2(3) _ 2(4) refl 2(5,6,7,8,9)] by simp
    ultimately show ?thesis using 2(5,10) lex_string_valid [OF 2(2)] by simp
  qed
qed simp

section \<open>Whole inputs\<close>

text \<open>\<open>maxNestingDepth\<close>; \<open>Unmarshal\<close> refuses anything but white space after the value,
  \<open>Decode\<close> leaves it in the stream.\<close>

definition max_depth :: nat where "max_depth = 10000"

definition unmarshal_json :: "bytes \<Rightarrow> json option" where
  "unmarshal_json s =
     (case parse_value max_depth (skip_ws s) of
        None \<Rightarrow> None
      | Some (v, r) \<Rightarrow> if skip_ws r = [] then Some v else None)"

definition decode_json :: "bytes \<Rightarrow> json option" where
  "decode_json s = map_option fst (parse_value max_depth (skip_ws s))"

lemma unmarshal_valid: "unmarshal_json s = Some v \<Longrightarrow> text_valid v"
  by (auto simp: unmarshal_json_def dest: parse_valid split: option.splits if_splits)

lemma decode_valid: "decode_json s = Some v \<Longrightarrow> text_valid v"
  by (auto simp: decode_json_def dest: parse_valid)

lemma unmarshal_decode: "unmarshal_json s = Some v \<Longrightarrow> decode_json s = Some v"
  by (auto simp: unmarshal_json_def decode_json_def split: option.splits if_splits)

section \<open>Structs\<close>

text \<open>A member goes to the field with its name, or else to the one whose name differs only by the
  case of letters, or else it is ignored; the members are taken in order, so a later one
  replaces an earlier one.  A struct is left as it is by \<open>null\<close> and takes nothing but
  \<open>null\<close> and objects.\<close>

definition upper_char :: "char \<Rightarrow> char" where
  "upper_char c = (let n = (of_char c :: nat) in if 97 \<le> n \<and> n \<le> 122 then char_of (n - 32) else c)"

definition fold_name :: "bytes \<Rightarrow> bytes" where
  "fold_name k = map upper_char k"

type_synonym 'a field = "bytes \<times> (bytes \<Rightarrow> json \<Rightarrow> 'a \<Rightarrow> 'a option)"

definition field_for :: "'a field list \<Rightarrow> bytes \<Rightarrow> (bytes \<Rightarrow> json \<Rightarrow> 'a \<Rightarrow> 'a option) option" where
  "field_for fs k =
     (case map_of fs k of
        Some f \<Rightarrow> Some f
      | None \<Rightarrow> map_option snd (find (\<lambda>f. fold_name (fst f) = fold_name k) fs))"

fun decode_members :: "'a field list \<Rightarrow> (bytes \<times> bytes \<times> json) list \<Rightarrow> 'a \<Rightarrow> 'a option" where
  "decode_members fs [] x = Some x"
| "decode_members fs ((k, raw, v) # ms) x =
     (case field_for fs k of
        None \<Rightarrow> decode_members fs ms x
      | Some f \<Rightarrow> Option.bind (f raw v x) (decode_members fs ms))"

definition decode_struct :: "'a field list \<Rightarrow> 'a \<Rightarrow> json \<Rightarrow> 'a option" where
  "decode_struct fs x v =
     (case v of JObject ms \<Rightarrow> decode_members fs ms x | JNull \<Rightarrow> Some x | _ \<Rightarrow> None)"

text \<open>What a value does to a field of type \<open>string\<close>, \<open>*string\<close>, \<open>uuid.UUID\<close> (through its
  \<open>UnmarshalText\<close>, an argument) and \<open>*uuid.UUID\<close>.\<close>

definition into_string :: "json \<Rightarrow> bytes \<Rightarrow> bytes option" where
  "into_string v cur = (case v of JString b \<Rightarrow> Some b | JNull \<Rightarrow> Some cur | _ \<Rightarrow> None)"

definition into_string_ptr :: "json \<Rightarrow> bytes option option" where
  "into_string_ptr v = (case v of JString b \<Rightarrow> Some (Some b) | JNull \<Rightarrow> Some None | _ \<Rightarrow> None)"

definition into_text :: "(bytes \<Rightarrow> 'u option) \<Rightarrow> json \<Rightarrow> 'u \<Rightarrow> 'u option" where
  "into_text parse v cur = (case v of JString b \<Rightarrow> parse b | JNull \<Rightarrow> Some cur | _ \<Rightarrow> None)"

definition into_text_ptr :: "(bytes \<Rightarrow> 'u option) \<Rightarrow> json \<Rightarrow> 'u option option" where
  "into_text_ptr parse v =
     (case v of JString b \<Rightarrow> map_option Some (parse b) | JNull \<Rightarrow> Some None | _ \<Rightarrow> None)"

text \<open>An invariant of the fields' values is one of the decoded struct.\<close>

lemma decode_members_invariant:
  assumes "decode_members fs ms x = Some y" and "I x" and "members_valid ms"
    and "\<And>k f raw v x y. (k, f) \<in> set fs \<Longrightarrow> f raw v x = Some y \<Longrightarrow> text_valid v \<Longrightarrow> I x \<Longrightarrow> I y"
  shows "I y"
  using assms
proof (induction fs ms x rule: decode_members.induct)
  case (2 fs k raw v ms x)
  show ?case
  proof (cases "field_for fs k")
    case (Some f)
    then obtain k' where "(k', f) \<in> set fs"
      by (auto simp: field_for_def find_Some_iff dest: map_of_SomeD split: option.splits) (metis nth_mem)
    moreover obtain z where z: "f raw v x = Some z" "decode_members fs ms z = Some y"
      using 2(3) Some by (auto simp: Option.bind_eq_Some_conv)
    ultimately have "I z" and ms: "members_valid ms" using 2(4,5,6) by simp_all
    show ?thesis by (rule 2(2) [OF Some z \<open>I z\<close> ms]) (rule 2(6))
  qed (use 2 in simp)
qed simp

end
