(* ===== verification/JSON_Text.thy ===== *)
theory JSON_Text
  imports Go_JSON
begin

text \<open>
  The text \<open>json.Marshal\<close> and \<open>json.Encoder\<close> write, with HTML escaping on as in the program,
  and the proof that the parser of \<open>Go_JSON\<close> reads it back: every string, integer, array and
  object written is read as the value it was written for.
\<close>

section \<open>Writing\<close>

definition u_escape :: "nat \<Rightarrow> bytes" where
  "u_escape n = [CHR 0x5C, CHR ''u'', hex_digit (n div 4096), hex_digit (n div 256 mod 16),
     hex_digit (n div 16 mod 16), hex_digit (n mod 16)]"

definition quote_ascii :: "char \<Rightarrow> bytes" where
  "quote_ascii c =
     (if c = CHR 0x22 \<or> c = CHR 0x5C then [CHR 0x5C, c]
      else if c = CHR 0x08 then [CHR 0x5C, CHR ''b''] else if c = CHR 0x0C then [CHR 0x5C, CHR ''f'']
      else if c = CHR 0x0A then [CHR 0x5C, CHR ''n''] else if c = CHR 0x0D then [CHR 0x5C, CHR ''r'']
      else if c = CHR 0x09 then [CHR 0x5C, CHR ''t'']
      else if (of_char c :: nat) < 32 \<or> c = CHR ''<'' \<or> c = CHR ''>'' \<or> c = CHR ''&'' then u_escape (of_char c)
      else [c])"

fun quote_string :: "bytes \<Rightarrow> bytes" where
  "quote_string [] = []"
| "quote_string (c # cs) =
     (if (of_char c :: nat) < 128 then quote_ascii c @ quote_string cs
      else case decode_rune (of_char c) (map of_char cs) of
        (r, w) \<Rightarrow>
          if w = 1 then u_escape 65533 @ quote_string cs
          else if r = 8232 \<or> r = 8233 then u_escape r @ quote_string (drop (w - 1) cs)
          else c # take (w - 1) cs @ quote_string (drop (w - 1) cs))"

definition quoted :: "bytes \<Rightarrow> bytes" where
  "quoted s = CHR 0x22 # quote_string s @ [CHR 0x22]"

fun joined :: "bytes list \<Rightarrow> bytes" where
  "joined [] = []"
| "joined [x] = x"
| "joined (x # y # xs) = x @ CHR '','' # joined (y # xs)"

fun encode_json :: "json \<Rightarrow> bytes" where
  "encode_json JNull = ''null''"
| "encode_json (JBool b) = (if b then ''true'' else ''false'')"
| "encode_json (JNumber s) = s"
| "encode_json (JString s) = quoted s"
| "encode_json (JArray vs) = CHR ''['' # joined (map encode_json vs) @ '']''"
| "encode_json (JObject ms) = CHR ''{'' # joined (map (\<lambda>(k, r, v). quoted k @ CHR '':'' # encode_json v) ms) @ ''}''"

text \<open>The values that are written: numbers are integers, the source text of a member is the text
  written for it, and at most \<open>d\<close> levels are open at once.\<close>

fun written :: "nat \<Rightarrow> json \<Rightarrow> bool" where
  "written d (JNumber s) \<longleftrightarrow> (\<exists>i. s = FormatInt i)"
| "written d (JString s) \<longleftrightarrow> valid_utf8 s"
| "written d (JArray vs) \<longleftrightarrow> 0 < d \<and> list_all (written (d - 1)) vs"
| "written d (JObject ms) \<longleftrightarrow>
     0 < d \<and> list_all (\<lambda>(k, r, v). valid_utf8 k \<and> r = encode_json v \<and> written (d - 1) v) ms"
| "written d v \<longleftrightarrow> True"

section \<open>Strings are read back\<close>

lemma digit64: "v < 64 \<Longrightarrow> (a * 64 + v) div 64 = a \<and> (a * 64 + v) mod 64 = (v :: nat)"
  by simp

lemma encode_two:
  assumes "194 \<le> b0" "b0 \<le> 223" "128 \<le> b1" "b1 \<le> 191"
  shows "encode_rune ((b0 - 192) * 64 + (b1 - 128)) = [char_of b0, char_of b1]"
proof -
  define x y where "x = b0 - 192" and "y = b1 - 128"
  have "b0 = 192 + x" "b1 = 128 + y" "2 \<le> x" "x < 32" "y < 64" using assms by (auto simp: x_def y_def)
  then show ?thesis by (simp add: encode_rune_def)
qed

lemma encode_three:
  assumes "224 \<le> b0" "b0 \<le> 239" "second_ok b0 b1" "cont_byte b2"
  shows "encode_rune ((b0 - 224) * 4096 + (b1 - 128) * 64 + (b2 - 128)) = [char_of b0, char_of b1, char_of b2]"
proof -
  define x y z where "x = b0 - 224" and "y = b1 - 128" and "z = b2 - 128"
  have b: "b0 = 224 + x" "b1 = 128 + y" "b2 = 128 + z" "x < 16" "y < 64" "z < 64" "x = 0 \<longrightarrow> 32 \<le> y"
    using assms by (auto simp: x_def y_def z_def second_ok_def cont_byte_def split: if_splits)
  have "x * 4096 + y * 64 + z < 65536" "2048 \<le> x * 4096 + y * 64 + z"
    using b by (cases "x = 0"; simp)+
  moreover have n: "x * 4096 + y * 64 + z = (x * 64 + y) * 64 + z" by simp
  have "(x * 4096 + y * 64 + z) div 64 = x * 64 + y" "(x * 4096 + y * 64 + z) mod 64 = z"
    unfolding n using digit64 [OF b(6)] by blast+
  moreover note calculation
  moreover have "(x * 4096 + y * 64 + z) div 4096 = x"
  proof -
    have "(x * 4096 + y * 64 + z) div 4096 = (x * 4096 + y * 64 + z) div 64 div 64"
      by (simp add: div_mult2_eq [symmetric])
    also have "\<dots> = x" using calculation b by simp
    finally show ?thesis .
  qed
  ultimately show ?thesis using b by (simp add: encode_rune_def)
qed

lemma encode_four:
  assumes "240 \<le> b0" "b0 \<le> 244" "second_ok b0 b1" "cont_byte b2" "cont_byte b3"
  shows "encode_rune ((b0 - 240) * 262144 + (b1 - 128) * 4096 + (b2 - 128) * 64 + (b3 - 128)) =
    [char_of b0, char_of b1, char_of b2, char_of b3]"
proof -
  define x y z v where "x = b0 - 240" and "y = b1 - 128" and "z = b2 - 128" and "v = b3 - 128"
  have b: "b0 = 240 + x" "b1 = 128 + y" "b2 = 128 + z" "b3 = 128 + v" "x < 5" "y < 64" "z < 64" "v < 64"
      "x = 0 \<longrightarrow> 16 \<le> y"
    using assms by (auto simp: x_def y_def z_def v_def second_ok_def cont_byte_def split: if_splits)
  define n where "n = x * 262144 + y * 4096 + z * 64 + v"
  have n: "n = (x * 4096 + y * 64 + z) * 64 + v" by (simp add: n_def)
  have n64: "n div 64 = x * 4096 + y * 64 + z" "n mod 64 = v" unfolding n using digit64 [OF b(8)] by blast+
  have m: "x * 4096 + y * 64 + z = (x * 64 + y) * 64 + z" by simp
  have m64: "(x * 4096 + y * 64 + z) div 64 = x * 64 + y" "(x * 4096 + y * 64 + z) mod 64 = z"
    unfolding m using digit64 [OF b(7)] by blast+
  have "n div 4096 = n div 64 div 64" "n div 262144 = n div 64 div 64 div 64" by (simp_all add: div_mult2_eq [symmetric])
  then have "n div 4096 = x * 64 + y" "n div 262144 = x" using n64 m64 b by simp_all
  moreover have "65536 \<le> n" using b by (cases "x = 0") (simp_all add: n_def)
  ultimately have "encode_rune n = [char_of b0, char_of b1, char_of b2, char_of b3]"
    using n64 m64 b by (simp add: encode_rune_def)
  then show ?thesis by (simp add: n_def x_def y_def z_def v_def)
qed

lemma encode_decode_rune:
  assumes "decode_rune (of_char c) (map of_char cs) = (r, w)" and "128 \<le> (of_char c :: nat)" and "w \<noteq> 1"
  shows "encode_rune r = c # take (w - 1) cs"
proof -
  consider (two) c1 us where "cs = c1 # us" "194 \<le> (of_char c :: nat)" "(of_char c :: nat) \<le> 223"
      "second_ok (of_char c) (of_char c1)" "w = 2" "r = (of_char c - 192) * 64 + (of_char c1 - 128)"
    | (three) c1 c2 us where "cs = c1 # c2 # us" "224 \<le> (of_char c :: nat)" "(of_char c :: nat) \<le> 239"
      "second_ok (of_char c) (of_char c1)" "cont_byte (of_char c2)" "w = 3"
      "r = (of_char c - 224) * 4096 + (of_char c1 - 128) * 64 + (of_char c2 - 128)"
    | (four) c1 c2 c3 us where "cs = c1 # c2 # c3 # us" "240 \<le> (of_char c :: nat)" "(of_char c :: nat) \<le> 244"
      "second_ok (of_char c) (of_char c1)" "cont_byte (of_char c2)" "cont_byte (of_char c3)" "w = 4"
      "r = (of_char c - 240) * 262144 + (of_char c1 - 128) * 4096 + (of_char c2 - 128) * 64 + (of_char c3 - 128)"
    using assms by (auto simp: decode_rune_def split: if_splits list.splits)
  then show ?thesis
  proof cases
    case two
    then have "128 \<le> (of_char c1 :: nat)" "(of_char c1 :: nat) \<le> 191"
      by (auto simp: second_ok_def cont_byte_def split: if_splits)
    with two show ?thesis using encode_two [of "of_char c" "of_char c1"] by simp
  next
    case three
    then show ?thesis using encode_three [of "of_char c" "of_char c1" "of_char c2"] by simp
  next
    case four
    then show ?thesis using encode_four [of "of_char c" "of_char c1" "of_char c2" "of_char c3"] by simp
  qed
qed

lemma hex4_digits:
  "n < 65536 \<Longrightarrow> hex4 (hex_digit (n div 4096) # hex_digit (n div 256 mod 16) # hex_digit (n div 16 mod 16) # hex_digit (n mod 16) # t) = Some (n, t)"
proof -
  assume n: "n < 65536"
  have "4096 * (n div 4096) + 256 * (n div 256 mod 16) + 16 * (n div 16 mod 16) + n mod 16 = n"
  proof -
    have "n = 16 * (n div 16) + n mod 16" "n div 16 = 16 * (n div 16 div 16) + n div 16 mod 16"
      "n div 256 = 16 * (n div 256 div 16) + n div 256 mod 16" by (simp_all only: mult_div_mod_eq)
    moreover have "n div 16 div 16 = n div 256" "n div 256 div 16 = n div 4096"
      by (simp_all add: div_mult2_eq [symmetric])
    ultimately show ?thesis by linarith
  qed
  with n show ?thesis by (simp add: hex_val_digit)
qed

lemma string_piece_escape:
  assumes "n < 65536" and "\<not> surrogate n"
  shows "lex_string (u_escape n @ t) = map_option (apfst (append (encode_rune n))) (lex_string t)"
  using assms hex4_digits [OF assms(1), of t]
  by (simp add: u_escape_def string_piece_def unicode_escape_def del: hex4.simps)

lemma quote_ascii_cases:
  obtains "quote_ascii c = u_escape (of_char c)"
    | e where "quote_ascii c = [CHR 0x5C, e]" "e \<noteq> CHR ''u''" "simple_escape e = Some c"
    | "quote_ascii c = [c]" "32 \<le> (of_char c :: nat)" "c \<noteq> CHR 0x22" "c \<noteq> CHR 0x5C"
proof -
  note defs = quote_ascii_def simple_escape_def
  consider "c = CHR 0x22 \<or> c = CHR 0x5C" | "c = CHR 0x08" | "c = CHR 0x0C" | "c = CHR 0x0A" | "c = CHR 0x0D" | "c = CHR 0x09"
    | "c \<notin> {CHR 0x22, CHR 0x5C, CHR 0x08, CHR 0x0C, CHR 0x0A, CHR 0x0D, CHR 0x09}" by blast
  then show thesis
  proof cases
    case 1
    then show ?thesis by (intro that(2) [of c]) (auto simp: defs)
  next
    case 2
    then show ?thesis by (intro that(2) [of "CHR ''b''"]) (simp_all add: defs)
  next
    case 3
    then show ?thesis by (intro that(2) [of "CHR ''f''"]) (simp_all add: defs)
  next
    case 4
    then show ?thesis by (intro that(2) [of "CHR ''n''"]) (simp_all add: defs)
  next
    case 5
    then show ?thesis by (intro that(2) [of "CHR ''r''"]) (simp_all add: defs)
  next
    case 6
    then show ?thesis by (intro that(2) [of "CHR ''t''"]) (simp_all add: defs)
  next
    case 7
    then have "quote_ascii c = u_escape (of_char c) \<or> quote_ascii c = [c] \<and> 32 \<le> (of_char c :: nat)"
      by (simp add: quote_ascii_def)
    with 7 show ?thesis using that(1,3) by blast
  qed
qed

lemma lex_quote_ascii:
  assumes "(of_char c :: nat) < 128"
  shows "lex_string (quote_ascii c @ t) = map_option (apfst ((#) c)) (lex_string t)"
proof (cases c rule: quote_ascii_cases)
  case 1
  have "encode_rune (of_char c) = [c]" using assms by (simp add: encode_rune_def)
  moreover have "append [c] = (#) c" by (rule ext) simp
  ultimately show ?thesis using string_piece_escape [of "of_char c" t] assms 1 by (simp add: surrogate_def)
next
  case (2 e)
  moreover have "append [c] = (#) c" by (rule ext) simp
  ultimately show ?thesis by (simp add: string_piece_def)
next
  case 3
  moreover have "append [c] = (#) c" by (rule ext) simp
  ultimately show ?thesis using assms by (simp add: string_piece_def)
qed

lemma lex_raw_rune:
  assumes "decode_rune (of_char c) (map of_char cs) = (r, w)" and "128 \<le> (of_char c :: nat)" and "w \<noteq> 1"
  shows "lex_string (c # take (w - 1) cs @ t) = map_option (apfst (append (c # take (w - 1) cs))) (lex_string t)"
proof -
  have l: "decode_rune (of_char c) (take (w - 1) (map of_char cs) @ map of_char t) = (r, w)" "w - 1 \<le> length cs"
    using decode_rune_local [OF assms(1,3), of "map of_char t"] by auto
  then have "snd (decode_rune (of_char c) (map of_char (take (w - 1) cs @ t))) = w" by (simp add: take_map)
  moreover have "take (w - 1) (take (w - 1) cs @ t) = take (w - 1) cs" "drop (w - 1) (take (w - 1) cs @ t) = t"
    using l(2) by simp_all
  moreover have "c \<noteq> CHR 0x22" "c \<noteq> CHR 0x5C" using assms(2) by auto
  ultimately have "string_piece c (take (w - 1) cs @ t) = Some (c # take (w - 1) cs, t)"
    using assms(2,3) by (simp add: string_piece_def Let_def)
  then show ?thesis using \<open>c \<noteq> CHR 0x22\<close> by simp
qed

lemma lex_quote_string:
  "valid_utf8 s \<Longrightarrow> lex_string (quote_string s @ CHR 0x22 # t) = Some (s, t)"
proof (induction s rule: quote_string.induct)
  case (2 c cs)
  show ?case
  proof (cases "(of_char c :: nat) < 128")
    case True
    with 2 show ?thesis by (simp add: lex_quote_ascii valid_utf8_ascii)
  next
    case False
    obtain r w where rw: "decode_rune (of_char c) (map of_char cs) = (r, w)" by fastforce
    then have "(128 \<le> (of_char c :: nat) \<longrightarrow> w \<noteq> 1) \<and> valid_runes (map of_char (drop (w - 1) cs))"
      using 2(5) by (simp add: valid_utf8_def drop_map)
    with False have w: "w \<noteq> 1" and v: "valid_utf8 (drop (w - 1) cs)" by (simp_all add: valid_utf8_def)
    have "take (w - 1) cs @ drop (w - 1) cs = cs" by simp
    moreover have "lex_string (u_escape r @ quote_string (drop (w - 1) cs) @ CHR 0x22 # t) = Some (c # cs, t)"
      if "r = 8232 \<or> r = 8233"
    proof -
      have "lex_string (quote_string (drop (w - 1) cs) @ CHR 0x22 # t) = Some (drop (w - 1) cs, t)"
        using 2(3) [OF False rw [symmetric] w that v] .
      then show ?thesis
        using string_piece_escape [of r "quote_string (drop (w - 1) cs) @ CHR 0x22 # t"] that
          encode_decode_rune [OF rw _ w] False by (auto simp: surrogate_def)
    qed
    moreover have "lex_string (c # take (w - 1) cs @ quote_string (drop (w - 1) cs) @ CHR 0x22 # t) = Some (c # cs, t)"
      if "\<not> (r = 8232 \<or> r = 8233)"
    proof -
      have "lex_string (quote_string (drop (w - 1) cs) @ CHR 0x22 # t) = Some (drop (w - 1) cs, t)"
        using 2 False rw w that v by auto
      then show ?thesis
        using lex_raw_rune [OF rw _ w, of "quote_string (drop (w - 1) cs) @ CHR 0x22 # t"] False by simp
    qed
    ultimately show ?thesis using False rw w by auto
  qed
qed simp

section \<open>Values are read back\<close>

text \<open>What may follow a value: nothing that would prolong a number.\<close>

definition stops :: "bytes \<Rightarrow> bool" where
  "stops t \<longleftrightarrow> (case t of [] \<Rightarrow> True | c # _ \<Rightarrow> \<not> is_digit c \<and> c \<noteq> CHR ''.'' \<and> c \<noteq> CHR ''e'' \<and> c \<noteq> CHR ''E'')"

lemma digits_stop:
  assumes "list_all is_digit ds" and "stops t"
  shows "takeWhile is_digit (ds @ t) = ds \<and> dropWhile is_digit (ds @ t) = t"
proof -
  have "takeWhile is_digit t = []" "dropWhile is_digit t = t"
    using assms(2) by (cases t; simp add: stops_def)+
  with assms(1) show ?thesis by (simp add: list_all_iff)
qed

lemma nat_digits_no_leading_zero: "take 1 (nat_digits n) = ''0'' \<Longrightarrow> nat_digits n = ''0''"
proof (induction n rule: nat_digits.induct)
  case (1 n)
  show ?case
  proof (cases "n < 10")
    case True
    with 1(2) show ?thesis by (simp add: nat_digits.simps [of n])
  next
    case False
    then have n: "nat_digits n = nat_digits (n div 10) @ [digit_char (n mod 10)]" by (subst nat_digits.simps) simp
    have "take 1 (nat_digits (n div 10)) = ''0''"
      using 1(2) n by (cases "nat_digits (n div 10)") simp_all
    then have "nat_digits (n div 10) = ''0''" using 1(1) False by simp
    then have "n div 10 = digits_val 0 ''0''" using digits_val_nat_digits [of "n div 10"] by simp
    with False show ?thesis by simp
  qed
qed

lemma skip_int_digits: "stops t \<Longrightarrow> skip_int (nat_digits n @ t) = Some t"
proof -
  assume t: "stops t"
  obtain c cs where c: "nat_digits n = c # cs" using nat_digits_ne [of n] by (cases "nat_digits n") auto
  show ?thesis
  proof (cases "c = CHR ''0''")
    case True
    with c nat_digits_no_leading_zero [of n] have "nat_digits n = ''0''" by simp
    then show ?thesis by (simp add: skip_int_def)
  next
    case False
    with c digits_stop [OF nat_digits_is_digit [of n] t] show ?thesis
      by (simp add: skip_int_def skip_digits_def)
  qed
qed

lemma skip_FormatInt: "stops t \<Longrightarrow> skip_number (FormatInt i @ t) = Some t"
proof -
  assume t: "stops t"
  then have rest: "skip_frac t = Some t" "skip_exp t = Some t"
    by (cases t; simp add: stops_def skip_frac_def skip_exp_def)+
  have "take 1 (nat_digits n @ t) \<noteq> ''-''" for n
    using hd_nat_digits [of n] digit_not_sign nat_digits_ne [of n] by (cases "nat_digits n") auto
  then show ?thesis
    using skip_int_digits [OF t] rest by (simp add: skip_number_def FormatInt_def)
qed

lemma FormatInt_first: "\<exists>c cs. FormatInt i = c # cs \<and> (c = CHR ''-'' \<or> is_digit c)"
  using hd_nat_digits [of "nat i"] nat_digits_ne [of "nat i"]
  by (cases "nat_digits (nat i)") (auto simp: FormatInt_def)

text \<open>A written value starts neither with white space nor with a closing bracket.\<close>

lemma encode_first:
  "written d v \<Longrightarrow> \<exists>c cs. encode_json v = c # cs \<and> \<not> is_space c \<and> c \<noteq> CHR '']'' \<and> c \<noteq> CHR ''}''"
proof (cases v)
  case (JNumber s)
  assume "written d v"
  with JNumber obtain i where "s = FormatInt i" by auto
  with FormatInt_first [of i] JNumber show ?thesis by (auto simp: is_space_def is_digit_def)
qed (auto simp: is_space_def quoted_def)

lemma skip_ws_written: "written d v \<Longrightarrow> skip_ws (encode_json v @ t) = encode_json v @ t"
  using encode_first [of d v] by (auto simp: skip_ws_def)

lemma skip_ws_nonspace: "\<not> is_space c \<Longrightarrow> skip_ws (c # s) = c # s"
  by (simp add: skip_ws_def)

lemma parse_scalar_number:
  assumes "stops t"
  shows "parse_value d (FormatInt i @ t) = Some (JNumber (FormatInt i), t)"
proof -
  obtain c cs where c: "FormatInt i = c # cs" "c = CHR ''-'' \<or> is_digit c" using FormatInt_first by blast
  then have "c \<noteq> CHR 0x22" "c \<noteq> CHR ''[''" "c \<noteq> CHR ''{''" by (auto simp: is_digit_def)
  then have "parse_value d (FormatInt i @ t) = parse_number (FormatInt i @ t)" using c by simp
  then show ?thesis using skip_FormatInt [OF assms] by (simp add: parse_number_def)
qed

lemma parse_elements_step:
  assumes "parse_value d s = Some (v, c # t)" and "\<not> is_space c"
  shows "parse_elements d s = (if c = CHR '']'' then Some ([v], t)
    else if c = CHR '','' then map_option (apfst ((#) v)) (parse_elements d (skip_ws t)) else None)"
proof -
  have "length t < length s" using parse_length(1) [OF assms(1)] by simp
  with assms show ?thesis by (subst parse_elements.simps) (simp add: skip_ws_nonspace)
qed

lemma parse_written_elements:
  assumes "vs \<noteq> []" and "list_all (written d) vs"
    and "\<And>v u. v \<in> set vs \<Longrightarrow> stops u \<Longrightarrow> parse_value d (encode_json v @ u) = Some (v, u)"
  shows "parse_elements d (joined (map encode_json vs) @ CHR '']'' # t) = Some (vs, t)"
  using assms
proof (induction "map encode_json vs" arbitrary: vs rule: joined.induct)
  case (2 x)
  then obtain v where v: "vs = [v]" by (cases vs) auto
  then have "parse_value d (encode_json v @ CHR '']'' # t) = Some (v, CHR '']'' # t)"
    using 2(4) by (simp add: stops_def is_digit_def)
  from parse_elements_step [OF this] show ?case by (simp add: v is_space_def)
next
  case (3 x y zs)
  then obtain v vs' where v: "vs = v # vs'" "y # zs = map encode_json vs'" by (cases vs) auto
  let ?r = "joined (map encode_json vs') @ CHR '']'' # t"
  have "vs' \<noteq> []" using v(2) by auto
  with 3(1) [OF v(2)] 3(4,5) v have tl: "parse_elements d ?r = Some (vs', t)" by simp
  have "parse_value d (encode_json v @ CHR '','' # ?r) = Some (v, CHR '','' # ?r)"
    using 3(5) v by (simp add: stops_def is_digit_def)
  note step = parse_elements_step [OF this]
  obtain v2 vs2 where v2: "vs' = v2 # vs2" using \<open>vs' \<noteq> []\<close> by (cases vs') auto
  then have "skip_ws ?r = ?r"
    using skip_ws_written [of d v2] 3(4) v(1) by (cases vs2) simp_all
  with step tl show ?case using v v2 by (simp add: is_space_def)
qed simp

abbreviation member_text :: "bytes \<times> bytes \<times> json \<Rightarrow> bytes" where
  "member_text \<equiv> \<lambda>(k, r, v). quoted k @ CHR '':'' # encode_json v"

lemma parse_members_step:
  assumes "valid_utf8 k" and "written d' v" and "\<not> is_space c"
    and p: "parse_value d (encode_json v @ c # t) = Some (v, c # t)"
  shows "parse_members d (member_text (k, r, v) @ c # t) =
    (if c = CHR ''}'' then Some ([(k, encode_json v, v)], t)
     else if c = CHR '','' then map_option (apfst ((#) (k, encode_json v, v))) (parse_members d (skip_ws t)) else None)"
proof -
  let ?s3 = "encode_json v @ c # t"
  have ws: "skip_ws ?s3 = ?s3" by (rule skip_ws_written [OF assms(2)])
  have lex: "lex_string (quote_string k @ CHR 0x22 # CHR '':'' # ?s3) = Some (k, CHR '':'' # ?s3)"
    by (rule lex_quote_string [OF assms(1)])
  show ?thesis
    by (subst parse_members.simps)
      (simp add: quoted_def lex ws p skip_ws_nonspace assms(3) is_space_def [of "CHR '':''"] Let_def)
qed

lemma parse_written_members:
  assumes "ms \<noteq> []" and "list_all (\<lambda>(k, r, v). valid_utf8 k \<and> r = encode_json v \<and> written d v) ms"
    and "\<And>k r v u. (k, r, v) \<in> set ms \<Longrightarrow> stops u \<Longrightarrow> parse_value d (encode_json v @ u) = Some (v, u)"
  shows "parse_members d (joined (map member_text ms) @ CHR ''}'' # t) = Some (ms, t)"
  using assms
proof (induction "map member_text ms" arbitrary: ms rule: joined.induct)
  case (2 x)
  then obtain k v where v: "ms = [(k, encode_json v, v)]" "valid_utf8 k" "written d v" by (cases ms) auto
  then have "parse_value d (encode_json v @ CHR ''}'' # t) = Some (v, CHR ''}'' # t)"
    using 2(4) by (simp add: stops_def is_digit_def)
  from parse_members_step [OF v(2,3) _ this] show ?case by (simp add: v(1) is_space_def)
next
  case (3 x y zs)
  then obtain k v ms' where v: "ms = (k, encode_json v, v) # ms'" "y # zs = map member_text ms'" "valid_utf8 k" "written d v"
    by (cases ms) auto
  let ?r = "joined (map member_text ms') @ CHR ''}'' # t"
  have "ms' \<noteq> []" using v(2) by auto
  with 3(1) [OF v(2)] 3(4,5) v have tl: "parse_members d ?r = Some (ms', t)" by auto
  have "parse_value d (encode_json v @ CHR '','' # ?r) = Some (v, CHR '','' # ?r)"
    using v(1) by (intro 3(5)) (auto simp: stops_def is_digit_def)
  note step = parse_members_step [OF v(3,4) _ this, of "encode_json v"]
  obtain m2 ms2 where m2: "ms' = m2 # ms2" using \<open>ms' \<noteq> []\<close> by (cases ms') auto
  then have "skip_ws ?r = ?r"
    by (cases ms2; cases m2) (simp_all add: quoted_def skip_ws_def is_space_def)
  with step tl show ?case using v m2 by (simp add: is_space_def)
qed simp

text \<open>What is written is read back, and nothing of what follows is taken.\<close>

lemma parse_written:
  "written d v \<Longrightarrow> stops t \<Longrightarrow> parse_value d (encode_json v @ t) = Some (v, t)"
proof (induction v arbitrary: d t)
  case (JNumber s)
  then show ?case using parse_scalar_number by auto
next
  case (JString s)
  then show ?case using lex_quote_string [of s t] by (simp add: quoted_def)
next
  case (JArray vs)
  show ?case
  proof (cases "vs = []")
    case False
    have "parse_elements (d - 1) (joined (map encode_json vs) @ CHR '']'' # t) = Some (vs, t)"
      using JArray False by (intro parse_written_elements) (auto simp: list_all_iff)
    moreover obtain v2 vs2 where v2: "vs = v2 # vs2" using False by (cases vs) auto
    then have "\<exists>c cs. joined (map encode_json vs) = c # cs \<and> \<not> is_space c \<and> c \<noteq> CHR '']''"
      using encode_first [of "d - 1" v2] JArray(2) by (cases vs2) auto
    ultimately show ?thesis using JArray(2) by (auto simp: skip_ws_nonspace)
  qed (use JArray(2) in \<open>simp add: skip_ws_nonspace is_space_def\<close>)
next
  case (JObject ms)
  show ?case
  proof (cases "ms = []")
    case False
    have "parse_members (d - 1) (joined (map member_text ms) @ CHR ''}'' # t) = Some (ms, t)"
      using JObject False by (intro parse_written_members) (force simp: list_all_iff)+
    moreover obtain m2 ms2 where m2: "ms = m2 # ms2" using False by (cases ms) auto
    then have "\<exists>cs. joined (map member_text ms) = CHR 0x22 # cs"
      by (cases ms2; cases m2) (simp_all add: quoted_def)
    ultimately show ?thesis using JObject(2) by (auto simp: skip_ws_nonspace is_space_def)
  qed (use JObject(2) in \<open>simp add: skip_ws_nonspace is_space_def\<close>)
qed (simp_all add: parse_literal_def is_digit_def)

lemma unmarshal_written:
  "written max_depth v \<Longrightarrow> unmarshal_json (encode_json v) = Some v"
  using parse_written [of max_depth v "[]"] skip_ws_written [of max_depth v "[]"]
  by (simp add: unmarshal_json_def stops_def skip_ws_def)

text \<open>An object as \<open>Marshal\<close> builds it from the fields of a struct.\<close>

definition object :: "(bytes \<times> json) list \<Rightarrow> json" where
  "object fs = JObject (map (\<lambda>(k, v). (k, encode_json v, v)) fs)"

lemma written_object:
  "0 < d \<Longrightarrow> list_all (\<lambda>(k, v). valid_utf8 k \<and> written (d - 1) v) fs \<Longrightarrow> written d (object fs)"
  by (auto simp: object_def list_all_iff)

end
