(* ===== verification/Go_URL.thy ===== *)
theory Go_URL
  imports Domain Database
begin

text \<open>
  \<open>net/url.Parse\<close> of Go 1.25.0 (the version \<open>go.mod\<close> names), as far as the program
  uses its result: the scheme, the host, and whether there is an error.  Path, query, fragment
  and user information are checked for their escapes and characters and then dropped.

  The theory gives the parameter \<open>parse\<close> of \<open>ValidateURL\<close> its concrete value.  Errors are
  the texts of the inner errors; the quoting of the URL around them is left out.
\<close>

section \<open>Cutting strings\<close>

text \<open>\<open>strings.Cut\<close> at the first, and a split at the last occurrence of a byte.\<close>

definition cut_before :: "char \<Rightarrow> string \<Rightarrow> string" where
  "cut_before c s = takeWhile (\<lambda>x. x \<noteq> c) s"

definition cut_after :: "char \<Rightarrow> string \<Rightarrow> string" where
  "cut_after c s = drop 1 (dropWhile (\<lambda>x. x \<noteq> c) s)"

definition before_last :: "char \<Rightarrow> string \<Rightarrow> string" where
  "before_last c s = rev (cut_after c (rev s))"

definition after_last :: "char \<Rightarrow> string \<Rightarrow> string" where
  "after_last c s = rev (cut_before c (rev s))"

lemma cut_before_prefix: "\<exists>rest. s = cut_before c s @ rest"
  by (metis cut_before_def takeWhile_dropWhile_id)

section \<open>Percent escapes\<close>

datatype encoding = EncodePath | EncodeHost | EncodeZone | EncodeUserPassword | EncodeFragment

definition is_letter :: "char \<Rightarrow> bool" where
  "is_letter c \<longleftrightarrow> (let n = (of_char c :: nat) in (97 \<le> n \<and> n \<le> 122) \<or> (65 \<le> n \<and> n \<le> 90))"

definition is_alnum :: "char \<Rightarrow> bool" where
  "is_alnum c \<longleftrightarrow> is_letter c \<or> is_digit c"

text \<open>\<open>shouldEscape\<close> for the two host encodings.\<close>

definition host_char :: "char \<Rightarrow> bool" where
  "host_char c \<longleftrightarrow> is_alnum c \<or> c \<in> set ''!$&()*+,;=:[]<>-_.~'' \<or> c = CHR 0x27 \<or> c = CHR 0x22"

definition escape_ok :: "encoding \<Rightarrow> nat \<Rightarrow> nat \<Rightarrow> bool" where
  "escape_ok m a b \<longleftrightarrow>
     (case m of
        EncodeHost \<Rightarrow> 8 \<le> a \<or> (a = 2 \<and> b = 5)
      | EncodeZone \<Rightarrow> (a = 2 \<and> b = 5) \<or> (a = 2 \<and> b = 0) \<or> host_char (char_of (16 * a + b))
      | _ \<Rightarrow> True)"

definition plain_ok :: "encoding \<Rightarrow> char \<Rightarrow> bool" where
  "plain_ok m c \<longleftrightarrow> (m = EncodeHost \<or> m = EncodeZone) \<and> (of_char c :: nat) < 128 \<longrightarrow> host_char c"

fun unescape :: "encoding \<Rightarrow> string \<Rightarrow> string + string" where
  "unescape m [] = Inr []"
| "unescape m (c # cs) =
     (if c = CHR ''%'' then
        (case cs of
           h # l # rest \<Rightarrow>
             (case (hex_val h, hex_val l) of
                (Some a, Some b) \<Rightarrow>
                  if escape_ok m a b then map_sum id ((#) (char_of (16 * a + b))) (unescape m rest)
                  else Inl ''invalid URL escape''
              | _ \<Rightarrow> Inl ''invalid URL escape'')
         | _ \<Rightarrow> Inl ''invalid URL escape'')
      else if plain_ok m c then map_sum id ((#) c) (unescape m cs)
      else Inl ''invalid character in host name'')"

section \<open>Scheme, authority, host\<close>

text \<open>\<open>getScheme\<close>: \<open>acc\<close> is what has been read of the scheme, reversed.\<close>

fun get_scheme :: "string \<Rightarrow> string \<Rightarrow> string \<Rightarrow> string + string \<times> string" where
  "get_scheme raw acc [] = Inr ([], raw)"
| "get_scheme raw acc (c # cs) =
     (if is_letter c then get_scheme raw (c # acc) cs
      else if is_digit c \<or> c \<in> set ''+-.'' then
        (if acc = [] then Inr ([], raw) else get_scheme raw (c # acc) cs)
      else if c = CHR '':'' then
        (if acc = [] then Inl ''missing protocol scheme'' else Inr (rev acc, cs))
      else Inr ([], raw))"

definition valid_optional_port :: "string \<Rightarrow> bool" where
  "valid_optional_port p \<longleftrightarrow> (case p of [] \<Rightarrow> True | c # cs \<Rightarrow> c = CHR '':'' \<and> list_all is_digit cs)"

definition valid_userinfo :: "string \<Rightarrow> bool" where
  "valid_userinfo s \<longleftrightarrow> list_all (\<lambda>c. is_alnum c \<or> c \<in> set ''-._:~!$&()*+,;=%@'' \<or> c = CHR 0x27) s"

text \<open>The text before the first \<open>%25\<close> and the text from there on.\<close>

fun split_zone :: "string \<Rightarrow> (string \<times> string) option" where
  "split_zone [] = None"
| "split_zone (c # cs) =
     (if take 3 (c # cs) = ''%25'' then Some ([], c # cs)
      else map_option (\<lambda>(a, b). (c # a, b)) (split_zone cs))"

definition parse_host :: "string \<Rightarrow> string + string" where
  "parse_host host =
     (if take 1 host = ''['' then
        (if CHR '']'' \<notin> set host then Inl ''missing ']' in host''
         else if \<not> valid_optional_port (after_last CHR '']'' host) then Inl ''invalid port after host''
         else (case split_zone (before_last CHR '']'' host) of
             Some (a, b) \<Rightarrow>
               (case unescape EncodeHost a of Inl e \<Rightarrow> Inl e | Inr h1 \<Rightarrow>
                (case unescape EncodeZone b of Inl e \<Rightarrow> Inl e | Inr h2 \<Rightarrow>
                 (case unescape EncodeHost (CHR '']'' # after_last CHR '']'' host) of Inl e \<Rightarrow> Inl e | Inr h3 \<Rightarrow>
                  Inr (h1 @ h2 @ h3))))
           | None \<Rightarrow> unescape EncodeHost host))
      else if CHR '':'' \<in> set host \<and> \<not> valid_optional_port (CHR '':'' # after_last CHR '':'' host)
      then Inl ''invalid port after host''
      else unescape EncodeHost host)"

definition parse_authority :: "string \<Rightarrow> string + string" where
  "parse_authority auth =
     (if CHR ''@'' \<notin> set auth then parse_host auth
      else case parse_host (after_last CHR ''@'' auth) of
        Inl e \<Rightarrow> Inl e
      | Inr host \<Rightarrow>
          (let user = before_last CHR ''@'' auth in
           if \<not> valid_userinfo user then Inl ''net/url: invalid userinfo''
           else case unescape EncodeUserPassword (cut_before CHR '':'' user) of
             Inl e \<Rightarrow> Inl e
           | Inr _ \<Rightarrow> (case unescape EncodeUserPassword (cut_after CHR '':'' user) of
               Inl e \<Rightarrow> Inl e | Inr _ \<Rightarrow> Inr host)))"

section \<open>Parse\<close>

definition ctl_byte :: "char \<Rightarrow> bool" where
  "ctl_byte c \<longleftrightarrow> (of_char c :: nat) < 32 \<or> (of_char c :: nat) = 127"

text \<open>What is left of the URL after the path has been checked.\<close>

definition with_path :: "string \<Rightarrow> string \<Rightarrow> string \<Rightarrow> string + parsed_url" where
  "with_path scheme host path =
     (case unescape EncodePath path of
        Inl e \<Rightarrow> Inl e
      | Inr _ \<Rightarrow> Inr \<lparr>u_Scheme = scheme, u_Host = host\<rparr>)"

definition parse_hier :: "string \<Rightarrow> string \<Rightarrow> string + parsed_url" where
  "parse_hier scheme rest =
     (if take 1 rest \<noteq> ''/'' then
        (if scheme \<noteq> [] then Inr \<lparr>u_Scheme = scheme, u_Host = []\<rparr>
         else if CHR '':'' \<in> set (cut_before CHR ''/'' rest)
         then Inl ''first path segment in URL cannot contain colon''
         else with_path scheme [] rest)
      else if (scheme \<noteq> [] \<or> take 3 rest \<noteq> ''///'') \<and> take 2 rest = ''//'' then
        (let auth = cut_before CHR ''/'' (drop 2 rest); path = dropWhile (\<lambda>x. x \<noteq> CHR ''/'') (drop 2 rest) in
         case parse_authority auth of
           Inl e \<Rightarrow> Inl e
         | Inr host \<Rightarrow> with_path scheme host path)
      else with_path scheme [] rest)"

definition parse_no_fragment :: "string \<Rightarrow> string + parsed_url" where
  "parse_no_fragment raw =
     (if list_ex ctl_byte raw then Inl ''net/url: invalid control character in URL''
      else if raw = ''*'' then Inr \<lparr>u_Scheme = [], u_Host = []\<rparr>
      else case get_scheme raw [] raw of
        Inl e \<Rightarrow> Inl e
      | Inr (scheme, rest) \<Rightarrow> parse_hier (ToLower scheme) (cut_before CHR ''?'' rest))"

definition url_Parse :: "string \<Rightarrow> string + parsed_url" where
  "url_Parse raw =
     (case parse_no_fragment (cut_before CHR ''#'' raw) of
        Inl e \<Rightarrow> Inl e
      | Inr u \<Rightarrow> (case unescape EncodeFragment (cut_after CHR ''#'' raw) of Inl e \<Rightarrow> Inl e | Inr _ \<Rightarrow> Inr u))"

section \<open>The shape of an accepted URL\<close>

lemma get_scheme_split:
  assumes "get_scheme raw acc cs = Inr (scheme, rest)" and "scheme \<noteq> []" and "raw = rev acc @ cs"
  shows "raw = scheme @ '':'' @ rest"
  using assms by (induction raw acc cs rule: get_scheme.induct) (auto split: if_splits)

lemma with_path_Inr: "with_path scheme host path = Inr u \<Longrightarrow> u_Scheme u = scheme \<and> u_Host u = host"
  by (auto simp: with_path_def split: sum.splits)

lemma parse_hier_host:
  assumes "parse_hier scheme rest = Inr u" and "u_Host u \<noteq> []"
  shows "u_Scheme u = scheme \<and> (\<exists>more. rest = ''//'' @ more)"
proof -
  have "take 2 rest = ''//''"
    using assms by (auto simp: parse_hier_def Let_def dest: with_path_Inr split: if_splits sum.splits)
  then have "rest = ''//'' @ drop 2 rest" by (metis append_take_drop_id)
  moreover have "u_Scheme u = scheme"
    using assms by (auto simp: parse_hier_def Let_def dest: with_path_Inr split: if_splits sum.splits)
  ultimately show ?thesis by blast
qed

lemma ToLower_append [simp]: "ToLower (s @ t) = ToLower s @ ToLower t"
  by (simp add: ToLower_def)

lemma ToLower_Nil [simp]: "ToLower [] = []"
  by (simp add: ToLower_def)

lemma lower_char_idem [simp]: "lower_char (lower_char c) = lower_char c"
  by (auto simp: lower_char_def Let_def)

lemma ToLower_idem [simp]: "ToLower (ToLower s) = ToLower s"
  by (simp add: ToLower_def)

lemma ToLower_separator: "ToLower ''://'' = ''://''"
  by (simp add: ToLower_def lower_char_def)

text \<open>A URL with a scheme and a host is the scheme, in any case, followed by \<open>://\<close>.\<close>

lemma url_Parse_shape:
  assumes "url_Parse raw = Inr u" and "u_Scheme u \<noteq> []" and "u_Host u \<noteq> []"
  obtains more where "ToLower raw = u_Scheme u @ ''://'' @ more"
proof -
  let ?raw = "cut_before CHR ''#'' raw"
  have p: "parse_no_fragment ?raw = Inr u"
    using assms(1) by (auto simp: url_Parse_def split: sum.splits)
  then have ctl: "\<not> list_ex ctl_byte ?raw" by (simp add: parse_no_fragment_def split: if_splits)
  then have "?raw \<noteq> ''*''" using p assms(2) by (auto simp: parse_no_fragment_def split: if_splits)
  with ctl obtain scheme rest where g: "get_scheme ?raw [] ?raw = Inr (scheme, rest)"
      and h: "parse_hier (ToLower scheme) (cut_before CHR ''?'' rest) = Inr u"
    using p by (auto simp: parse_no_fragment_def split: sum.splits)
  from parse_hier_host [OF h assms(3)] obtain m1
    where m1: "u_Scheme u = ToLower scheme" "cut_before CHR ''?'' rest = ''//'' @ m1" by blast
  obtain m2 where m2: "rest = cut_before CHR ''?'' rest @ m2" using cut_before_prefix by blast
  obtain m3 where m3: "raw = ?raw @ m3" using cut_before_prefix by blast
  have "scheme \<noteq> []" using m1(1) assms(2) by auto
  from get_scheme_split [OF g this] have r: "?raw = scheme @ '':'' @ rest" by simp
  have "raw = scheme @ '':'' @ ''//'' @ m1 @ m2 @ m3"
    using r m1(2) m2 m3 by (metis append.assoc)
  then have "ToLower raw = u_Scheme u @ ''://'' @ ToLower (m1 @ m2 @ m3)"
    using m1(1) ToLower_separator by (simp add: ToLower_def)
  then show thesis by (rule that)
qed

text \<open>The scheme \<open>Parse\<close> returns is in lower case, so the \<open>ToLower\<close> of the code changes nothing.\<close>

lemma url_Parse_scheme_lower: "url_Parse raw = Inr u \<Longrightarrow> ToLower (u_Scheme u) = u_Scheme u"
  by (auto simp: url_Parse_def parse_no_fragment_def parse_hier_def Let_def
      dest!: with_path_Inr split: sum.splits if_splits)

text \<open>The control bytes are looked for before the fragment only.\<close>

lemma url_Parse_nul:
  assumes "url_Parse raw = Inr u"
  shows "CHR 0x00 \<in> set raw \<longleftrightarrow> CHR 0x00 \<in> set (cut_after CHR ''#'' raw)"
proof -
  have "\<not> list_ex ctl_byte (cut_before CHR ''#'' raw)"
    using assms by (auto simp: url_Parse_def parse_no_fragment_def split: sum.splits if_splits)
  then have "CHR 0x00 \<notin> set (cut_before CHR ''#'' raw)" by (force simp: list_ex_iff ctl_byte_def)
  moreover have "set raw = set (cut_before CHR ''#'' raw) \<union> set (dropWhile (\<lambda>x. x \<noteq> CHR ''#'') raw)"
    unfolding cut_before_def by (metis set_append takeWhile_dropWhile_id)
  moreover have "CHR 0x00 \<in> set (dropWhile (\<lambda>x. x \<noteq> CHR ''#'') raw) \<longleftrightarrow> CHR 0x00 \<in> set (cut_after CHR ''#'' raw)"
  proof (cases "dropWhile (\<lambda>x. x \<noteq> CHR ''#'') raw")
    case (Cons c cs)
    then have "c = CHR ''#''" using hd_dropWhile [of "\<lambda>x. x \<noteq> CHR ''#''" raw] by simp
    then show ?thesis by (simp add: cut_after_def Cons)
  next
    case Nil
    then show ?thesis unfolding cut_after_def Nil by simp
  qed
  ultimately show ?thesis by blast
qed

section \<open>Accepted URLs and the table's constraint\<close>

lemma accepted_url_check: "ValidateURL url_Parse raw = None \<Longrightarrow> url_check raw"
proof -
  assume "ValidateURL url_Parse raw = None"
  then obtain u where u: "url_Parse raw = Inr u" "u_Host u \<noteq> []" "ToLower (u_Scheme u) \<in> {''http'', ''https''}"
    by (auto simp: ValidateURL_ok_iff)
  from u(3) have s: "u_Scheme u = ''http'' \<or> u_Scheme u = ''https''"
    using url_Parse_scheme_lower [OF u(1)] by auto
  then have "u_Scheme u \<noteq> []" by auto
  from url_Parse_shape [OF u(1) this u(2)] obtain more where "ToLower raw = u_Scheme u @ ''://'' @ more" .
  with s show "url_check raw" by (auto simp: url_check_def)
qed

text \<open>A URL that the service accepts is one the database accepts: what passes \<open>ValidateURL\<close> with
  the standard library's parser starts, whatever the case of its letters, with \<open>http://\<close> or
  \<open>https://\<close>, so the CHECK constraint of the table \<open>endpoints\<close> holds for it, it has at
  most 2048 bytes and a non-empty host.\<close>

theorem accepted_urls_satisfy_check:
  assumes "ValidateURL url_Parse raw = None"
  shows "url_check raw \<and> length raw \<le> 2048 \<and> (\<exists>u. url_Parse raw = Inr u \<and> u_Host u \<noteq> [])"
  using assms accepted_url_check by (auto simp: ValidateURL_ok_iff)

theorem accepted_urls_satisfy_check_witness:
  "url_check ''HTTPS://user:pw@b.test:8443/in%20box?x=1#top''"
proof -
  have "ValidateURL url_Parse ''HTTPS://user:pw@b.test:8443/in%20box?x=1#top'' = None"
    by code_simp
  from accepted_urls_satisfy_check [OF this] show ?thesis by simp
qed

end
