(* ===== verification/Requests.thy ===== *)
theory Requests
  imports API JSON_Text Go_URL
begin

text \<open>
  The bodies of the API's requests as JSON texts: how \<open>encoding/json\<close> fills the request types of
  \<open>dto.go\<close>, and what the handlers answer to any body.  This gives the parameters \<open>decode\<close> and
  \<open>parse\<close> of the handlers in \<open>API\<close> their concrete values; \<open>uuid.Parse\<close> remains an argument,
  and where a text of an identifier is read back, the law of the pair \<open>String\<close>, \<open>Parse\<close> is
  the hypothesis \<open>uuid_codec\<close>.
\<close>

section \<open>Decoding\<close>

text \<open>\<open>google/uuid\<close>: the text is made of hexadecimal digits and hyphens, and is read back.\<close>

definition uuid_codec :: "(uuid \<Rightarrow> string) \<Rightarrow> (string \<Rightarrow> uuid option) \<Rightarrow> bool" where
  "uuid_codec enc parse_id \<longleftrightarrow>
     (\<forall>i. parse_id (enc i) = Some i \<and> list_all (\<lambda>c. is_lower_hex c \<or> c = CHR ''-'') (enc i))"

definition tenant_fields :: "string option field list" where
  "tenant_fields = [(''name'', \<lambda>raw v _. into_string_ptr v)]"

definition decode_tenant :: "bytes \<Rightarrow> string option option" where
  "decode_tenant b = Option.bind (decode_json b) (decode_struct tenant_fields None)"

definition endpoint_fields :: "(string \<Rightarrow> uuid option) \<Rightarrow> EndpointRequest field list" where
  "endpoint_fields parse_id =
     [(''url'', \<lambda>raw v r. map_option (\<lambda>u. r\<lparr>eq_URL := u\<rparr>) (into_string v (eq_URL r))),
      (''tenant_id'', \<lambda>raw v r. map_option (\<lambda>t. r\<lparr>eq_TenantID := t\<rparr>) (into_text_ptr parse_id v))]"

definition decode_endpoint :: "(string \<Rightarrow> uuid option) \<Rightarrow> bytes \<Rightarrow> EndpointRequest option" where
  "decode_endpoint parse_id b =
     Option.bind (decode_json b) (decode_struct (endpoint_fields parse_id) \<lparr>eq_URL = [], eq_TenantID = None\<rparr>)"

definition event_fields :: "(string \<Rightarrow> uuid option) \<Rightarrow> EventRequest field list" where
  "event_fields parse_id =
     [(''endpoint_id'', \<lambda>raw v r. map_option (\<lambda>i. r\<lparr>vq_EndpointID := i\<rparr>) (into_text parse_id v (vq_EndpointID r))),
      (''tenant_id'', \<lambda>raw v r. map_option (\<lambda>t. r\<lparr>vq_TenantID := t\<rparr>) (into_text_ptr parse_id v)),
      (''payload'', \<lambda>raw v r. Some (r\<lparr>vq_Payload := Some raw\<rparr>))]"

definition decode_event :: "(string \<Rightarrow> uuid option) \<Rightarrow> bytes \<Rightarrow> EventRequest option" where
  "decode_event parse_id b =
     Option.bind (unmarshal_json b)
       (decode_struct (event_fields parse_id) \<lparr>vq_EndpointID = 0, vq_TenantID = None, vq_Payload = None\<rparr>)"

definition bulk_fields :: "(string \<Rightarrow> uuid option) \<Rightarrow> BulkReplayRequest field list" where
  "bulk_fields parse_id =
     [(''tenant_id'', \<lambda>raw v r. map_option (\<lambda>t. r\<lparr>bq_TenantID := t\<rparr>) (into_text_ptr parse_id v)),
      (''endpoint_id'', \<lambda>raw v r. map_option (\<lambda>e. r\<lparr>bq_EndpointID := e\<rparr>) (into_text_ptr parse_id v))]"

definition decode_bulk :: "(string \<Rightarrow> uuid option) \<Rightarrow> bytes \<Rightarrow> err + BulkReplayRequest" where
  "decode_bulk parse_id b =
     (case Option.bind (decode_json b) (decode_struct (bulk_fields parse_id) \<lparr>bq_TenantID = None, bq_EndpointID = None\<rparr>) of
        None \<Rightarrow> Inl (ErrText ''invalid JSON'')
      | Some req \<Rightarrow> Inr req)"

text \<open>Identifiers written as decimal numbers satisfy the law.\<close>

definition sample_parse :: "string \<Rightarrow> uuid option" where
  "sample_parse s = (if s \<noteq> [] \<and> list_all is_digit s then Some (word_of_int (int (digits_val 0 s))) else None)"

definition sample_text :: "uuid \<Rightarrow> string" where
  "sample_text i = nat_digits (unat i)"

lemma sample_codec: "uuid_codec sample_text sample_parse"
  using nat_digits_is_digit digits_val_nat_digits
  by (auto simp: uuid_codec_def sample_parse_def sample_text_def is_lower_hex_def list_all_iff)

section \<open>Decoded strings\<close>

lemma decode_struct_invariant:
  assumes "decode_struct fs x v = Some y" and "I x" and "text_valid v"
    and "\<And>k f raw v x y. (k, f) \<in> set fs \<Longrightarrow> f raw v x = Some y \<Longrightarrow> text_valid v \<Longrightarrow> I x \<Longrightarrow> I y"
  shows "I y"
proof (cases v)
  case (JObject ms)
  with assms(1,3) have "decode_members fs ms x = Some y" "members_valid ms" by (simp_all add: decode_struct_def)
  from decode_members_invariant [where I = I, OF this(1) assms(2) this(2)] assms(4) show ?thesis by blast
qed (use assms(1,2) in \<open>simp_all add: decode_struct_def\<close>)

lemma decode_tenant_valid: "decode_tenant b = Some name \<Longrightarrow> pred_option valid_utf8 name"
proof -
  assume "decode_tenant b = Some name"
  then obtain v where v: "decode_json b = Some v" "decode_struct tenant_fields None v = Some name"
    by (auto simp: decode_tenant_def Option.bind_eq_Some_conv)
  show ?thesis
    by (rule decode_struct_invariant [where I = "pred_option valid_utf8", OF v(2) _ decode_valid [OF v(1)]])
      (auto simp: tenant_fields_def into_string_ptr_def split: json.splits)
qed

lemma decode_endpoint_valid: "decode_endpoint parse_id b = Some req \<Longrightarrow> valid_utf8 (eq_URL req)"
proof -
  assume "decode_endpoint parse_id b = Some req"
  then obtain v where v: "decode_json b = Some v"
      "decode_struct (endpoint_fields parse_id) \<lparr>eq_URL = [], eq_TenantID = None\<rparr> v = Some req"
    by (auto simp: decode_endpoint_def Option.bind_eq_Some_conv)
  show ?thesis
    by (rule decode_struct_invariant [where I = "\<lambda>r. valid_utf8 (eq_URL r)", OF v(2) _ decode_valid [OF v(1)]])
      (auto simp: endpoint_fields_def into_string_def split: json.splits)
qed

section \<open>Registering an endpoint\<close>

lemma accepted_text_ok:
  assumes "ValidateURL url_Parse url = None" and "valid_utf8 url"
  shows "text_ok url \<longleftrightarrow> CHR 0x00 \<notin> set (cut_after CHR ''#'' url)"
  using assms url_Parse_nul by (auto simp: text_ok_def ValidateURL_ok_iff)

lemma register_run:
  assumes "healthy s" and "fresh_keys 1 s" and v: "ValidateURL url_Parse url = None"
  shows "EndpointService_Register url_Parse rnd endpoint_service url t s =
    (if t \<notin> tenant_ids s then (Inl ErrTenantNotFound, s)
     else case rnd 32 of
       Inl e \<Rightarrow> (Inl (Wrap ''generate signing secret'' e), s)
     | Inr k \<Rightarrow>
         if text_ok url
         then (let r = new_endpoint url t k (now_ts s) (uuid_src s (uuid_pos s)) in
           (Inr \<lparr>ep_ID = er_id r, ep_URL = url, ep_TenantID = t, ep_CreatedAt = now_ts s, ep_SigningSecret = Some k\<rparr>,
            s\<lparr>uuid_pos := Suc (uuid_pos s), endpoints := endpoints s @ [r]\<rparr>))
         else (Inl (Wrap ''register endpoint'' (Wrap ''insert endpoint'' (PgError invalid_text))),
               s\<lparr>uuid_pos := Suc (uuid_pos s)\<rparr>))"
proof -
  have f: "faults s = []" using assms(1) by (simp add: healthy_def)
  have new: "uuid_src s (uuid_pos s) \<notin> endpoint_ids s"
    using fresh_keys_next [of 0 s] assms(2) by (simp add: used_keys_def)
  have t: "row_by tr_id t (tenants s) = None \<longleftrightarrow> t \<notin> tenant_ids s" by (rule row_by_None_iff)
  show ?thesis
    using f new t accepted_url_check [OF v]
    by (auto simp: EndpointService_Register_def v bindP_def check_tenant_exists_def tryP_def get_tenant_eq
        EndpointStore_Insert_def map_errP_def insert_endpoint_def insert_row_def Let_def check_endpoint_def
        new_endpoint_def split: sum.splits option.splits)
qed

text \<open>C22. Everything the endpoint handler answers on a working connection, for any body.  It answers 500 in
  two cases only: the random source fails, or the URL, which passed every check, has a NUL
  after its \<open>#\<close> (\<open>url.Parse\<close> looks for control bytes before the fragment only, and the
  column is \<open>TEXT\<close>).  Unless the answer is 201 no endpoint is stored; with 201 exactly one is,
  with the URL and the tenant of the body, and the answer shows its secret in hexadecimal.\<close>

theorem endpoint_request_outcomes:
  assumes "healthy s" and "fresh_keys 1 s" and "\<And>e. rnd 32 = Inl e \<Longrightarrow> e = ErrRand"
    and "endpoint_Create (decode_endpoint parse_id) url_Parse rnd endpoint_service b s = (r, s')"
  shows "rs_Status r \<in> {201, 400, 422, 500} \<and>
    (rs_Status r = 500 \<longleftrightarrow> (\<exists>req t. decode_endpoint parse_id b = Some req \<and> eq_TenantID req = Some t \<and>
       ValidateURL url_Parse (eq_URL req) = None \<and> t \<in> tenant_ids s \<and>
       ((\<exists>e. rnd 32 = Inl e) \<or> CHR 0x00 \<in> set (cut_after CHR ''#'' (eq_URL req))))) \<and>
    (rs_Status r \<noteq> 201 \<longrightarrow> endpoints s' = endpoints s) \<and>
    (rs_Status r = 201 \<longrightarrow> (\<exists>req t k i. decode_endpoint parse_id b = Some req \<and> eq_TenantID req = Some t \<and>
       rnd 32 = Inr k \<and> endpoints s' = endpoints s @ [new_endpoint (eq_URL req) t k (now_ts s) i] \<and>
       r = writeJSON 201 (EndpointCreatedBody \<lparr>eo_ID = i, eo_URL = eq_URL req, eo_TenantID = t,
             eo_CreatedAt = now_ts s, eo_SigningSecret = hex_encode k\<rparr>)))"
proof (cases "decode_endpoint parse_id b")
  case None
  with assms(4) show ?thesis by (auto simp: endpoint_Create_def writeError_def writeJSON_def)
next
  case (Some req)
  show ?thesis
  proof (cases "eq_TenantID req")
    case None
    with assms(4) Some show ?thesis by (auto simp: endpoint_Create_def writeError_def writeJSON_def)
  next
    case (Some t)
    note req = \<open>decode_endpoint parse_id b = Some req\<close> Some
    let ?run = "EndpointService_Register url_Parse rnd endpoint_service (eq_URL req) t s"
    show ?thesis
    proof (cases "ValidateURL url_Parse (eq_URL req)")
      case (Some e)
      then have "?run = (Inl e, s)" by (simp add: EndpointService_Register_def)
      with assms(4) req Some ValidateURL_is_invalid_url [OF Some] show ?thesis
        by (auto simp: endpoint_Create_def respond_def writeError_def writeJSON_def)
    next
      case None
      have t: "text_ok (eq_URL req) \<longleftrightarrow> CHR 0x00 \<notin> set (cut_after CHR ''#'' (eq_URL req))"
        by (rule accepted_text_ok [OF None decode_endpoint_valid [OF req(1)]])
      from register_run [OF assms(1,2) None, of rnd t] assms(4) req None t show ?thesis
        by (auto simp: endpoint_Create_def respond_def writeError_def writeJSON_def internal_error_def Let_def
            dest!: assms(3) simp: new_endpoint_def split: if_splits sum.splits)
    qed
  qed
qed

theorem endpoint_request_outcomes_witness:
  "rs_Status (fst (endpoint_Create (decode_endpoint sample_parse) url_Parse (\<lambda>_. Inr ''k'') endpoint_service
     (''{\"URL\": \"https://a.test/#'' @ [CHR 0x5C] @ ''u0000\", \"tenant_id\": \"1\", \"x\": [null]}'') sample_db)) = 500"
proof -
  let ?b = "''{\"URL\": \"https://a.test/#'' @ [CHR 0x5C] @ ''u0000\", \"tenant_id\": \"1\", \"x\": [null]}''"
  let ?u = "''https://a.test/#'' @ [CHR 0x00]"
  have h: "healthy sample_db" "fresh_keys 1 sample_db"
    using sample_schema_ok by (simp_all add: healthy_def fresh_keys_def used_keys_def sample_defs)
  have d: "decode_endpoint sample_parse ?b = Some \<lparr>eq_URL = ?u, eq_TenantID = Some 1\<rparr>" by code_simp
  have v: "ValidateURL url_Parse ?u = None" by code_simp
  have c: "CHR 0x00 \<in> set (cut_after CHR ''#'' ?u)" by (simp add: cut_after_def)
  have t: "1 \<in> tenant_ids sample_db" by (simp add: sample_defs)
  from endpoint_request_outcomes [OF h _ surjective_pairing, of "\<lambda>_. Inr ''k''" sample_parse ?b] d v c t
  show ?thesis by auto
qed

text \<open>A host that is only a port passes as well: \<open>u.Host\<close> is not empty.\<close>

lemma port_only_host_accepted: "ValidateURL url_Parse ''http://:8080/hook'' = None"
  by code_simp

text \<open>C28. Every string the API takes out of a JSON body is valid UTF-8, whatever bytes the body has: raw
  bytes, escapes, lone surrogates or broken sequences.  So a tenant name that passes the
  handler's checks, which refuse control characters, is always one the database can store.\<close>

theorem decoded_strings_are_text:
  "(case decode_endpoint parse_id b of Some req \<Rightarrow> valid_utf8 (eq_URL req) | None \<Rightarrow> True) \<and>
   (case decode_tenant b of Some (Some n) \<Rightarrow> valid_utf8 n \<and> (validateTenantName n \<noteq> None \<or> text_ok n \<and> name_check (Some n))
    | _ \<Rightarrow> True)"
  using decode_endpoint_valid [of parse_id b] decode_tenant_valid [of b]
  by (auto split: option.splits dest: valid_name_text valid_name_check)

theorem decoded_strings_are_text_witness:
  "decode_tenant (''{\"name\":\"caf'' @ [CHR 0xC3, CHR 0xA9] @ ''\"}'') = Some (Some (''caf'' @ [CHR 0xC3, CHR 0xA9])) \<and>
   text_ok (''caf'' @ [CHR 0xC3, CHR 0xA9])"
proof -
  let ?b = "''{\"name\":\"caf'' @ [CHR 0xC3, CHR 0xA9] @ ''\"}''" and ?n = "''caf'' @ [CHR 0xC3, CHR 0xA9]"
  have d: "decode_tenant ?b = Some (Some ?n)" by code_simp
  have v: "validateTenantName ?n = None" by code_simp
  from decoded_strings_are_text [of "\<lambda>_. None" ?b] d v show ?thesis by simp
qed

text \<open>Creating a tenant on a working connection, for any body: one that is not JSON, or whose name is
  neither a string nor null, is answered 400 \<open>bad_request\<close>, a name that the check refuses 400
  \<open>invalid_name\<close>, and nothing is stored; every other body is answered 201, never 500, and the
  created tenant is what a later GET of its id returns.\<close>

theorem tenant_request_outcomes:
  assumes "healthy s" and "fresh_keys 1 s"
  shows "(decode_tenant b = None \<and>
       tenant_Create decode_tenant tenant_service b s = (writeError 400 ''bad_request'' (Detail ''malformed JSON body''), s)) \<or>
     (\<exists>n msg. decode_tenant b = Some (Some n) \<and> validateTenantName n = Some msg \<and>
       tenant_Create decode_tenant tenant_service b s = (writeError 400 ''invalid_name'' (Detail msg), s)) \<or>
     (\<exists>t s'. decode_tenant b = Some (tq_Name t) \<and>
       tenant_Create decode_tenant tenant_service b s = (writeJSON 201 (TenantBody t), s') \<and>
       tenant_GetByID (\<lambda>_. Some (tq_ID t)) tenant_service rawID s' = (writeJSON 200 (TenantBody t), s'))"
proof (cases "decode_tenant b")
  case None
  then show ?thesis by (simp add: tenant_Create_def)
next
  case (Some name)
  from tenant_registration [where decode = decode_tenant and b = b, OF assms Some decode_tenant_valid [OF Some], of rawID] Some show ?thesis by metis
qed

theorem tenant_request_outcomes_witness:
  "rs_Status (fst (tenant_Create decode_tenant tenant_service ''{\"name\": 5}'' sample_db)) = 400 \<and>
   rs_Status (fst (tenant_Create decode_tenant tenant_service ''{\"NAME\": \"acme\"} rest'' sample_db)) = 201"
proof -
  have h: "healthy sample_db" "fresh_keys 1 sample_db"
    using sample_schema_ok by (simp_all add: healthy_def fresh_keys_def used_keys_def sample_defs)
  note outcome = tenant_request_outcomes [OF h, where rawID = "[]"]
  have "decode_tenant ''{\"name\": 5}'' = None" by code_simp
  with outcome [of "''{\"name\": 5}''"] have "rs_Status (fst (tenant_Create decode_tenant tenant_service ''{\"name\": 5}'' sample_db)) = 400"
    by (auto simp: writeError_def writeJSON_def)
  moreover have "decode_tenant ''{\"NAME\": \"acme\"} rest'' = Some (Some ''acme'')" "validateTenantName ''acme'' = None"
    by code_simp+
  with outcome [of "''{\"NAME\": \"acme\"} rest''"]
  have "rs_Status (fst (tenant_Create decode_tenant tenant_service ''{\"NAME\": \"acme\"} rest'' sample_db)) = 201"
    by (auto simp: writeJSON_def)
  ultimately show ?thesis by blast
qed

section \<open>The body of an event\<close>

lemma codec_text: "uuid_codec enc parse_id \<Longrightarrow> parse_id (enc i) = Some i \<and> valid_utf8 (enc i)"
  by (force simp: uuid_codec_def is_lower_hex_def is_digit_def list_all_iff intro!: valid_utf8_ascii_all)

text \<open>The body a client writes for an event, an object of the endpoint, the tenant and any payload
  nested less than 9999 levels deep, is read back as exactly these, and the payload is handed
  on byte for byte as it was written.\<close>

theorem event_body_roundtrip:
  assumes "uuid_codec enc parse_id" and "written (max_depth - 1) payload"
  shows "decode_event parse_id (encode_json (object [(''endpoint_id'', JString (enc e)), (''tenant_id'', JString (enc t)),
      (''payload'', payload)])) =
    Some \<lparr>vq_EndpointID = e, vq_TenantID = Some t, vq_Payload = Some (encode_json payload)\<rparr>"
proof -
  let ?o = "object [(''endpoint_id'', JString (enc e)), (''tenant_id'', JString (enc t)), (''payload'', payload)]"
  have "written max_depth ?o"
    using codec_text [OF assms(1)] assms(2)
    by (intro written_object) (simp_all add: max_depth_def valid_utf8_ascii_all)
  then have "unmarshal_json (encode_json ?o) = Some ?o" by (rule unmarshal_written)
  then show ?thesis
    using codec_text [OF assms(1)]
    by (simp add: decode_event_def object_def decode_struct_def event_fields_def field_for_def into_text_def
        into_text_ptr_def)
qed

theorem event_body_roundtrip_witness:
  "decode_event sample_parse (encode_json (object [(''endpoint_id'', JString (sample_text 10)),
      (''tenant_id'', JString (sample_text 1)), (''payload'', JArray [JNull, JString ''<x>''])])) =
    Some \<lparr>vq_EndpointID = 10, vq_TenantID = Some 1, vq_Payload = Some (encode_json (JArray [JNull, JString ''<x>'']))\<rparr>"
  by (rule event_body_roundtrip [OF sample_codec]) (simp add: max_depth_def valid_utf8_ascii_all)

end
