(* ===== verification/Messages.thy ===== *)
theory Messages
  imports Traffic Requests
begin

text \<open>
  The service with the standard library in place of its parameters: workers read the Kafka
  messages with \<open>json.Unmarshal\<close> as modelled in \<open>Go_JSON\<close>, endpoint URLs are checked and
  requests built with \<open>url.Parse\<close> as modelled in \<open>Go_URL\<close>.  What was a hypothesis about the
  parser or the decoder in \<open>Traffic\<close> is proved here for reachable states: every stored URL can
  be parsed and every message on the topic can be read.
\<close>

section \<open>The message\<close>

record scheduledMessage =
  sm_DeliveryID :: uuid
  sm_EndpointID :: uuid

definition message_fields :: "(string \<Rightarrow> uuid option) \<Rightarrow> scheduledMessage field list" where
  "message_fields parse_id =
     [(''delivery_id'', \<lambda>raw v m. map_option (\<lambda>i. m\<lparr>sm_DeliveryID := i\<rparr>) (into_text parse_id v (sm_DeliveryID m))),
      (''endpoint_id'', \<lambda>raw v m. map_option (\<lambda>i. m\<lparr>sm_EndpointID := i\<rparr>) (into_text parse_id v (sm_EndpointID m)))]"

definition unmarshal_message :: "(string \<Rightarrow> uuid option) \<Rightarrow> bytes \<Rightarrow> err + uuid" where
  "unmarshal_message parse_id b =
     (case Option.bind (unmarshal_json b)
             (decode_struct (message_fields parse_id) \<lparr>sm_DeliveryID = 0, sm_EndpointID = 0\<rparr>) of
        None \<Rightarrow> Inl (ErrText ''invalid JSON'')
      | Some sm \<Rightarrow> Inr (sm_DeliveryID sm))"

lemma quote_ascii_plain:
  "32 \<le> (of_char c :: nat) \<Longrightarrow> (of_char c :: nat) \<notin> {34, 38, 60, 62, 92} \<Longrightarrow> quote_ascii c = [c]"
proof -
  assume n: "32 \<le> (of_char c :: nat)" "(of_char c :: nat) \<notin> {34, 38, 60, 62, 92}"
  then have "c \<noteq> CHR 0x22 \<and> c \<noteq> CHR 0x5C \<and> c \<noteq> CHR 0x08 \<and> c \<noteq> CHR 0x0C \<and> c \<noteq> CHR 0x0A \<and> c \<noteq> CHR 0x0D \<and>
      c \<noteq> CHR 0x09 \<and> c \<noteq> CHR ''<'' \<and> c \<noteq> CHR ''>'' \<and> c \<noteq> CHR ''&''"
    by (intro conjI notI) simp_all
  with n(1) show ?thesis by (simp add: quote_ascii_def)
qed

lemma quote_plain: "list_all (\<lambda>c. is_lower_hex c \<or> c = CHR ''-'') s \<Longrightarrow> quote_string s = s"
proof (induction s)
  case (Cons c s)
  then have "(of_char c :: nat) = 45 \<or> 48 \<le> (of_char c :: nat) \<and> (of_char c :: nat) \<le> 57 \<or>
      97 \<le> (of_char c :: nat) \<and> (of_char c :: nat) \<le> 102"
    by (auto simp: is_lower_hex_def is_digit_def)
  then have "(of_char c :: nat) < 128" "quote_ascii c = [c]" by (auto intro: quote_ascii_plain)
  with Cons show ?case by simp
qed simp

lemma kafka_json_is_marshal:
  assumes "uuid_codec enc parse_id"
  shows "kafka_json enc d e = encode_json (object [(''delivery_id'', JString (enc d)), (''endpoint_id'', JString (enc e))])"
proof -
  have "quote_string (enc i) = enc i" for i using assms by (auto simp: uuid_codec_def intro: quote_plain)
  moreover have "quoted ''delivery_id'' = ''\"delivery_id\"''" "quoted ''endpoint_id'' = ''\"endpoint_id\"''"
    by (simp_all add: quoted_def quote_ascii_def)
  ultimately show ?thesis by (simp add: kafka_json_def object_def quoted_def [of "enc _"])
qed

text \<open>What the scheduler marshals the worker reads back.\<close>

lemma unmarshal_kafka_json:
  assumes "uuid_codec enc parse_id"
  shows "unmarshal_message parse_id (kafka_json enc d e) = Inr d"
proof -
  let ?o = "object [(''delivery_id'', JString (enc d)), (''endpoint_id'', JString (enc e))]"
  have "written max_depth ?o"
    using codec_text [OF assms] by (intro written_object) (simp_all add: max_depth_def valid_utf8_ascii_all)
  then have "unmarshal_json (encode_json ?o) = Some ?o" by (rule unmarshal_written)
  then show ?thesis
    unfolding kafka_json_is_marshal [OF assms] using codec_text [OF assms]
    by (simp add: unmarshal_message_def object_def decode_struct_def message_fields_def field_for_def into_text_def)
qed

section \<open>Stored URLs\<close>

definition routable :: "(string \<Rightarrow> string + parsed_url) \<Rightarrow> db \<Rightarrow> bool" where
  "routable parse s \<longleftrightarrow> list_all (\<lambda>e. ValidateURL parse (er_url e) = None) (endpoints s)"

interpretation routes: table_law "routable parse" for parse
  by unfold_locales
    (simp_all add: routable_def table_pred_def list_all_iff keeps_endpoint_keys_def ball_upd_where)

lemma perform_routable:
  assumes "routable (sy_parse sys) (w_db w)"
  shows "routable (sy_parse sys) (w_db (perform sys a w))"
proof -
  note law = routes.table_law_axioms [of "sy_parse sys"]
  show ?thesis
  proof (cases a)
    case (RegisterEndpoint rnd url t)
    have "preserves (routable (sy_parse sys)) (EndpointService_Register (sy_parse sys) rnd endpoint_service url t)"
      by (rule routes.registration) (simp add: routable_def)
    with assms RegisterEndpoint show ?thesis by (simp add: at_db_preserves)
  next
    case (SchedulerTicks now)
    with assms show ?thesis using preservesD [OF scheduler_of_law [OF law], of w] by simp
  next
    case ReaperTicks
    with assms show ?thesis using preservesD [OF routes.reaper_tick, of "sy_parse sys" w] by simp
  next
    case (WorkerHandles ck)
    with assms show ?thesis using preservesD [OF handle_message_law [OF law], of w] by simp
  qed (use assms in \<open>simp_all add: at_db_preserves [of "routable (sy_parse sys)"] routes.account_services
      routes.submission routes.replay_service routes.bulk_service\<close>, simp_all add: routable_def)
qed

lemma reachable_routable: "reachable sys w \<Longrightarrow> routable (sy_parse sys) (w_db w)"
  by (induction rule: reachable.induct)
    (auto simp: initial_def migrated_db_def empty_db_def routable_def [of _ "empty_db _ _\<lparr>tenants := _\<rparr>"]
      elim!: stepE intro: perform_routable, simp add: routable_def)

lemma reachable_endpoint_ok:
  assumes "reachable sys w" and "row_by er_id i (endpoints (w_db w)) = Some e"
  shows "ValidateURL (sy_parse sys) (er_url e) = None"
  using reachable_routable [OF assms(1)] row_by_SomeD [OF assms(2)] by (simp add: routable_def list_all_iff)

section \<open>A deployment with the standard library\<close>

definition live :: deployment where
  "live = journey\<lparr>sy_parse := url_Parse, sy_unmarshal := unmarshal_message sample_parse, sy_uuid_text := sample_text\<rparr>"

lemma live_registers:
  "perform live (RegisterEndpoint (\<lambda>_. Inr ''k'') ''https://a.test/'' 1) journey_start = journey_registered"
proof -
  have "ValidateURL url_Parse ''https://a.test/'' = None" by code_simp
  then show ?thesis
    by (simp add: live_def journey_defs at_db_def EndpointService_Register_def check_tenant_exists_def bindP_def map_errP_def
        tryP_def TenantStore_GetByID_def stmt_def EndpointStore_Insert_def insert_endpoint_def insert_row_def Let_def
        check_endpoint_def new_endpoint_def text_ok_ascii url_check_def ToLower_def lower_char_def)
qed

lemma live_reachable: "reachable live journey_submitted"
proof -
  have "reachable live journey_start" unfolding journey_start_def by (rule reachable.start)
  then have "reachable live journey_registered"
    unfolding live_registers [symmetric] by (rule reachable_act) (simp add: allowed_def)
  moreover have "perform live (SubmitEvent 100 (Some ''{}'') [] ''r'' 1) journey_registered = journey_submitted"
    using journey_submits by (simp add: live_def)
  ultimately show ?thesis using reachable_act [of live journey_registered "SubmitEvent 100 (Some ''{}'') [] ''r'' 1"]
    by (simp add: allowed_def)
qed

lemma live_fields [simp]:
  "sy_parse live = url_Parse" "sy_unmarshal live = unmarshal_message sample_parse" "sy_uuid_text live = sample_text"
  "sy_circuits live = False" "sy_batch live = 10" "sy_lease live = 100" "sy_peer live = (\<lambda>_ _. Response 200)"
  by (simp_all add: live_def journey_def sample_deployment_def)

lemma live_topic:
  "w_topic (perform live (SchedulerTicks 5) journey_submitted) = [delivery_message sample_text journey_delivery]"
proof -
  have "claim_batch (nat (sy_batch live)) (w_db journey_submitted) = [journey_delivery]"
    unfolding claim_batch_def journey_ready by simp
  then show ?thesis
    by (subst perform_tick) (simp_all add: reachable_db_ok [OF live_reachable], simp_all add: journey_defs)
qed

section \<open>Properties\<close>

text \<open>C25. An attempt always gets as far as the endpoint: in every reachable state the URL of any delivery
  a worker loads is one that registration accepted, so building the request cannot fail and
  what \<open>doHTTP\<close> does is to hand the signed request to the client.\<close>

theorem every_attempt_is_sent:
  assumes "reachable sys w" and "worker_row i (w_db w) = Some wd"
  shows "ValidateURL (sy_parse sys) (wd_EndpointURL wd) = None \<and>
    doHTTP (sy_parse sys) cfg (ck_Sign ck) (wd_EndpointURL wd) (wd_Payload wd) (wd_SigningSecret wd) =
      wk_Do cfg (signed_request ck wd)"
proof -
  have "ValidateURL (sy_parse sys) (wd_EndpointURL wd) = None"
    using assms(2) reachable_endpoint_ok [OF assms(1)] by (auto simp: worker_row_def split: option.splits)
  then show ?thesis by (auto simp: ValidateURL_ok_iff doHTTP_def signed_request_def fun_eq_iff)
qed

theorem every_attempt_is_sent_witness:
  "\<exists>wd. worker_row 102 (w_db journey_submitted) = Some wd \<and> ValidateURL url_Parse (wd_EndpointURL wd) = None"
proof -
  have "\<exists>wd. worker_row 102 (w_db journey_submitted) = Some wd" by (simp add: worker_row_def journey_defs)
  then obtain wd where wd: "worker_row 102 (w_db journey_submitted) = Some wd" by blast
  from every_attempt_is_sent [OF live_reachable wd] wd show ?thesis by auto
qed

text \<open>C24. No poison pills: every message the service ever puts on its topic can be read, and names a
  delivery that exists, in every reachable state, whatever was requested, lost or redelivered.\<close>

theorem no_poison_pills:
  assumes "reachable sys w" and "uuid_codec (sy_uuid_text sys) parse_id" and "sy_unmarshal sys = unmarshal_message parse_id"
    and "m \<in> set (w_topic w) \<union> set (w_inbox w)"
  shows "\<exists>d. d \<in> set (deliveries (w_db w)) \<and> sy_unmarshal sys (m_Value m) = Inr (dr_id d)"
proof -
  obtain d where "d \<in> set (deliveries (w_db w))" "m = delivery_message (sy_uuid_text sys) d"
  proof -
    have "m \<in> set (w_topic w)" using reachable_traffic [OF assms(1)] assms(4) by (auto simp: traffic_ok_def)
    then show thesis using reachable_traffic [OF assms(1)] that by (auto simp: traffic_ok_def names_delivery_def)
  qed
  then show ?thesis using unmarshal_kafka_json [OF assms(2)] assms(3) by (auto simp: delivery_message_def)
qed

theorem no_poison_pills_witness:
  "\<exists>d. d \<in> set (deliveries (w_db (perform live (SchedulerTicks 5) journey_submitted))) \<and>
     unmarshal_message sample_parse (m_Value (delivery_message sample_text journey_delivery)) = Inr (dr_id d)"
  using no_poison_pills [OF reachable_act [OF live_reachable, of "SchedulerTicks 5"], of sample_parse
      "delivery_message sample_text journey_delivery"] sample_codec live_topic
  by (simp add: allowed_def del: perform.simps)



end
