(* ===== verification/Responses.thy ===== *)
theory Responses
  imports Requests
begin

text \<open>
  The bodies of the API's responses as the bytes that go over the wire: the field names and
  \<open>omitempty\<close> options of \<open>dto.go\<close> and the trailing newline of \<open>json.Encoder\<close>.  Three texts are
  arguments: \<open>enc\<close> of an identifier (\<open>UUID.String\<close>), \<open>tm\<close> of an instant (\<open>Time.MarshalJSON\<close> in
  the time zone of the process) and \<open>msg\<close> of an error (\<open>Error()\<close>).
\<close>

section \<open>The JSON of the response types\<close>

text \<open>A pointer with \<open>omitempty\<close>: the member is left out when it is nil.\<close>

definition omit_empty :: "bytes \<Rightarrow> ('a \<Rightarrow> json) \<Rightarrow> 'a option \<Rightarrow> (bytes \<times> json) list" where
  "omit_empty k f x = (case x of None \<Rightarrow> [] | Some y \<Rightarrow> [(k, f y)])"

definition int_json :: "int \<Rightarrow> json" where
  "int_json i = JNumber (FormatInt i)"

definition error_members :: "(err \<Rightarrow> string) \<Rightarrow> string \<Rightarrow> detail \<Rightarrow> (bytes \<times> json) list" where
  "error_members msg code det =
     (''error'', JString code) #
     (let text = (case det of NoDetail \<Rightarrow> [] | Detail s \<Rightarrow> s | DetailOf e \<Rightarrow> msg e) in
      if text = [] then [] else [(''detail'', JString text)])"

definition tenant_members :: "(uuid \<Rightarrow> string) \<Rightarrow> (instant \<Rightarrow> string) \<Rightarrow> TenantResponse \<Rightarrow> (bytes \<times> json) list" where
  "tenant_members enc tm t =
     (''id'', JString (enc (tq_ID t))) # omit_empty ''name'' JString (tq_Name t) @
     [(''created_at'', JString (tm (tq_CreatedAt t)))]"

definition endpoint_members :: "(uuid \<Rightarrow> string) \<Rightarrow> (instant \<Rightarrow> string) \<Rightarrow> 'a EndpointResponse_scheme \<Rightarrow> (bytes \<times> json) list" where
  "endpoint_members enc tm e =
     [(''id'', JString (enc (eo_ID e))), (''url'', JString (eo_URL e)), (''tenant_id'', JString (enc (eo_TenantID e))),
      (''created_at'', JString (tm (eo_CreatedAt e)))]"

definition created_members :: "(uuid \<Rightarrow> string) \<Rightarrow> (instant \<Rightarrow> string) \<Rightarrow> EndpointCreatedResponse \<Rightarrow> (bytes \<times> json) list" where
  "created_members enc tm e = endpoint_members enc tm e @ [(''signing_secret'', JString (eo_SigningSecret e))]"

definition rotate_members :: "string \<Rightarrow> (bytes \<times> json) list" where
  "rotate_members secret = [(''signing_secret'', JString secret)]"

definition accepted_members :: "(uuid \<Rightarrow> string) \<Rightarrow> uuid \<Rightarrow> uuid \<Rightarrow> (bytes \<times> json) list" where
  "accepted_members enc d v = [(''delivery_id'', JString (enc d)), (''event_id'', JString (enc v))]"

definition attempt_members :: "(instant \<Rightarrow> string) \<Rightarrow> AttemptResponse \<Rightarrow> (bytes \<times> json) list" where
  "attempt_members tm a =
     [(''sequence'', int_json (ao_Sequence a)), (''started_at'', JString (tm (ao_StartedAt a)))] @
     omit_empty ''completed_at'' (\<lambda>t. JString (tm t)) (ao_CompletedAt a) @
     [(''outcome'', JString (ao_Outcome a))] @
     omit_empty ''response_status_code'' int_json (ao_ResponseStatusCode a) @
     omit_empty ''error_reason'' JString (ao_ErrorReason a)"

definition attempts_json :: "(instant \<Rightarrow> string) \<Rightarrow> AttemptResponse list \<Rightarrow> json" where
  "attempts_json tm as = JArray (map (\<lambda>a. object (attempt_members tm a)) as)"

definition delivery_members :: "(uuid \<Rightarrow> string) \<Rightarrow> (instant \<Rightarrow> string) \<Rightarrow> DeliveryResponse \<Rightarrow> (bytes \<times> json) list" where
  "delivery_members enc tm d =
     [(''id'', JString (enc (do_ID d))), (''endpoint_id'', JString (enc (do_EndpointID d))),
      (''event_id'', JString (enc (do_EventID d))), (''status'', JString (do_Status d)),
      (''attempt_count'', int_json (do_AttemptCount d))] @
     omit_empty ''next_attempt_at'' (\<lambda>t. JString (tm t)) (do_NextAttemptAt d) @
     [(''created_at'', JString (tm (do_CreatedAt d))), (''updated_at'', JString (tm (do_UpdatedAt d))),
      (''attempts'', attempts_json tm (do_Attempts d))]"

definition item_members :: "(uuid \<Rightarrow> string) \<Rightarrow> (instant \<Rightarrow> string) \<Rightarrow> 'a DLQItemResponse_scheme \<Rightarrow> (bytes \<times> json) list" where
  "item_members enc tm x =
     [(''delivery_id'', JString (enc (io_DeliveryID x))), (''event_id'', JString (enc (io_EventID x))),
      (''endpoint_id'', JString (enc (io_EndpointID x))), (''tenant_id'', JString (enc (io_TenantID x))),
      (''attempt_count'', int_json (io_AttemptCount x)), (''failed_at'', JString (tm (io_FailedAt x)))]"

definition pagination_members :: "Pagination \<Rightarrow> (bytes \<times> json) list" where
  "pagination_members pg =
     [(''page'', int_json (pg_Page pg)), (''limit'', int_json (pg_Limit pg)), (''has_next'', JBool (pg_HasNext pg))]"

definition list_members :: "(uuid \<Rightarrow> string) \<Rightarrow> (instant \<Rightarrow> string) \<Rightarrow> DLQItemResponse list \<Rightarrow> Pagination \<Rightarrow> (bytes \<times> json) list" where
  "list_members enc tm items pg =
     [(''items'', JArray (map (\<lambda>x. object (item_members enc tm x)) items)), (''pagination'', object (pagination_members pg))]"

definition detail_members :: "(uuid \<Rightarrow> string) \<Rightarrow> (instant \<Rightarrow> string) \<Rightarrow> DLQDetailResponse \<Rightarrow> (bytes \<times> json) list" where
  "detail_members enc tm x = item_members enc tm x @ [(''attempts'', attempts_json tm (io_Attempts x))]"

definition replay_members :: "(uuid \<Rightarrow> string) \<Rightarrow> uuid \<Rightarrow> string \<Rightarrow> (bytes \<times> json) list" where
  "replay_members enc d st = [(''delivery_id'', JString (enc d)), (''status'', JString st)]"

definition bulk_members :: "int \<Rightarrow> (bytes \<times> json) list" where
  "bulk_members n = [(''replayed'', int_json n)]"

definition circuit_members :: "(uuid \<Rightarrow> string) \<Rightarrow> (instant \<Rightarrow> string) \<Rightarrow> CircuitBreakerResponse \<Rightarrow> (bytes \<times> json) list" where
  "circuit_members enc tm c =
     [(''endpoint_id'', JString (enc (co_EndpointID c))), (''state'', JString (co_State c)),
      (''consecutive_failures'', int_json (co_ConsecutiveFailures c))] @
     omit_empty ''suspended_until'' (\<lambda>t. JString (tm t)) (co_SuspendedUntil c)"

text \<open>The members of a body; only the text that \<open>http.Error\<close> writes after a panic is no JSON.\<close>

fun body_members ::
  "(uuid \<Rightarrow> string) \<Rightarrow> (instant \<Rightarrow> string) \<Rightarrow> (err \<Rightarrow> string) \<Rightarrow> body \<Rightarrow> (bytes \<times> json) list option" where
  "body_members enc tm msg (ErrorResponse code det) = Some (error_members msg code det)"
| "body_members enc tm msg (PlainText s) = None"
| "body_members enc tm msg (TenantBody t) = Some (tenant_members enc tm t)"
| "body_members enc tm msg (EndpointBody e) = Some (endpoint_members enc tm e)"
| "body_members enc tm msg (EndpointCreatedBody e) = Some (created_members enc tm e)"
| "body_members enc tm msg (RotateSecretBody k) = Some (rotate_members k)"
| "body_members enc tm msg (EventAcceptedBody d v) = Some (accepted_members enc d v)"
| "body_members enc tm msg (DeliveryBody d) = Some (delivery_members enc tm d)"
| "body_members enc tm msg (DLQListBody items pg) = Some (list_members enc tm items pg)"
| "body_members enc tm msg (DLQDetailBody x) = Some (detail_members enc tm x)"
| "body_members enc tm msg (ReplayBody d st) = Some (replay_members enc d st)"
| "body_members enc tm msg (BulkReplayBody n) = Some (bulk_members n)"
| "body_members enc tm msg (CircuitBody c) = Some (circuit_members enc tm c)"

definition response_bytes :: "(uuid \<Rightarrow> string) \<Rightarrow> (instant \<Rightarrow> string) \<Rightarrow> (err \<Rightarrow> string) \<Rightarrow> response \<Rightarrow> bytes" where
  "response_bytes enc tm msg r =
     (case body_members enc tm msg (rs_Body r) of
        Some fs \<Rightarrow> encode_json (object fs)
      | None \<Rightarrow> (case rs_Body r of PlainText s \<Rightarrow> s | _ \<Rightarrow> [])) @ [CHR 0x0A]"

section \<open>Responses can be read\<close>

text \<open>The trees above hold integers only, nest at most four levels and take their members' texts
  from the encoder, so valid strings are all that reading them back needs.\<close>

fun built :: "nat \<Rightarrow> json \<Rightarrow> bool" where
  "built d (JNumber s) \<longleftrightarrow> (\<exists>i. s = FormatInt i)"
| "built d (JArray vs) \<longleftrightarrow> 0 < d \<and> list_all (built (d - 1)) vs"
| "built d (JObject ms) \<longleftrightarrow> 0 < d \<and> list_all (\<lambda>(k, r, v). r = encode_json v \<and> built (d - 1) v) ms"
| "built d v \<longleftrightarrow> True"

lemma built_written: "built d v \<Longrightarrow> text_valid v \<Longrightarrow> written d v"
  by (induction d v rule: built.induct) (fastforce simp: list_all_iff)+

lemma built_mono: "built d v \<Longrightarrow> d \<le> d' \<Longrightarrow> built d' v"
proof (induction d v arbitrary: d' rule: built.induct)
  case (2 d vs)
  then show ?case by (fastforce simp: list_all_iff)
next
  case (3 d ms)
  then show ?case by (fastforce simp: list_all_iff)
qed auto

lemma built_object: "0 < d \<Longrightarrow> list_all (\<lambda>(k, v). built (d - 1) v) fs \<Longrightarrow> built d (object fs)"
  by (auto simp: object_def list_all_iff)

lemma built_int [simp]: "built d (int_json i)"
  by (auto simp: int_json_def)

lemmas member_defs = error_members_def tenant_members_def endpoint_members_def created_members_def rotate_members_def
  accepted_members_def attempt_members_def attempts_json_def delivery_members_def item_members_def
  pagination_members_def list_members_def detail_members_def replay_members_def bulk_members_def circuit_members_def

lemma built_attempts: "built 2 (attempts_json tm as)"
  by (auto simp: attempts_json_def attempt_members_def list_all_iff omit_empty_def intro!: built_object split: option.splits)

lemma built_body: "body_members enc tm msg b = Some fs \<Longrightarrow> built 3 (object fs)"
proof -
  have rows: "built 2 (JArray (map (\<lambda>x. object (item_members enc tm x)) items))" "built 2 (object (pagination_members pg))"
    for items :: "DLQItemResponse list" and pg
    by (auto simp: item_members_def pagination_members_def list_all_iff intro!: built_object)
  have items: "list_all (\<lambda>(k, v). built 2 v) (item_members enc tm x)" for x :: DLQDetailResponse
    by (simp add: item_members_def)
  have atts: "built 2 (attempts_json tm as)" for as by (rule built_attempts)
  assume "body_members enc tm msg b = Some fs"
  then show ?thesis
    by (cases b; intro built_object; simp)
      (auto simp: error_members_def tenant_members_def endpoint_members_def created_members_def rotate_members_def
        accepted_members_def delivery_members_def list_members_def detail_members_def
        replay_members_def bulk_members_def circuit_members_def Let_def omit_empty_def rows [simplified] items atts
        split: option.splits)
qed

lemma response_read:
  assumes "body_members enc tm msg (rs_Body r) = Some fs" and "text_valid (object fs)"
  shows "unmarshal_json (response_bytes enc tm msg r) = Some (object fs)"
proof -
  have "written max_depth (object fs)"
    using built_mono [OF built_body [OF assms(1)], of max_depth] assms(2) by (intro built_written) (simp_all add: max_depth_def)
  from parse_written [OF this, of "[CHR 0x0A]"] skip_ws_written [OF this, of "[CHR 0x0A]"] assms(1) show ?thesis
    by (simp add: unmarshal_json_def response_bytes_def stops_def is_digit_def skip_ws_def is_space_def)
qed


lemma FormatInt_ascii: "list_all (\<lambda>c. (of_char c :: nat) < 128) (FormatInt i)"
proof -
  have "list_all (\<lambda>c. (of_char c :: nat) < 128) (nat_digits n)" for n
    by (rule list.pred_mono_strong [OF nat_digits_is_digit]) (simp add: is_digit_def)
  then show ?thesis by (simp add: FormatInt_def)
qed

definition sample_time :: "instant \<Rightarrow> string" where
  "sample_time t = FormatInt t @ ''Z''"


section \<open>What was created is what is served\<close>

lemma create_201:
  assumes "healthy s" and "fresh_keys 1 s"
    and "endpoint_Create (decode_endpoint parse_id) url_Parse rnd endpoint_service b s = (r, s')" and "rs_Status r = 201"
  obtains req t k row where "decode_endpoint parse_id b = Some req" "rnd 32 = Inr k"
    "row = new_endpoint (eq_URL req) t k (now_ts s) (uuid_src s (uuid_pos s))"
    "r = writeJSON 201 (EndpointCreatedBody \<lparr>eo_ID = er_id row, eo_URL = eq_URL req, eo_TenantID = t,
        eo_CreatedAt = now_ts s, eo_SigningSecret = hex_encode k\<rparr>)"
    "s' = s\<lparr>uuid_pos := Suc (uuid_pos s), endpoints := endpoints s @ [row]\<rparr>"
proof (cases "decode_endpoint parse_id b")
  case None
  with assms(3,4) show ?thesis by (auto simp: endpoint_Create_def writeError_def writeJSON_def)
next
  case (Some req)
  then obtain t where t: "eq_TenantID req = Some t"
    using assms(3,4) by (cases "eq_TenantID req") (auto simp: endpoint_Create_def writeError_def writeJSON_def)
  have v: "ValidateURL url_Parse (eq_URL req) = None"
  proof (cases "ValidateURL url_Parse (eq_URL req)")
    case (Some e)
    then have "EndpointService_Register url_Parse rnd endpoint_service (eq_URL req) t s = (Inl e, s)"
      by (simp add: EndpointService_Register_def)
    with assms(3,4) \<open>decode_endpoint parse_id b = Some req\<close> t show ?thesis
      by (auto simp: endpoint_Create_def respond_def writeError_def writeJSON_def internal_error_def split: if_splits)
  qed
  let ?run = "EndpointService_Register url_Parse rnd endpoint_service (eq_URL req) t s"
  note run = register_run [OF assms(1,2) v, of rnd t]
  have failed: False if "?run = (Inl e, s1)" for e s1
    using that assms(3,4) Some t
    by (auto simp: endpoint_Create_def respond_def writeError_def writeJSON_def internal_error_def split: if_splits)
  obtain k where k: "rnd 32 = Inr k"
    using run failed by (cases "rnd 32") (auto split: if_splits)
  have "t \<in> tenant_ids s" "text_ok (eq_URL req)" using run failed k by (auto split: if_splits)
  with run k assms(3) Some t show ?thesis
    by (intro that [OF Some k refl, where t = t]) (simp_all add: endpoint_Create_def respond_def Let_def)
qed

lemma hex_text: "valid_utf8 (hex_encode k)"
  using hex_encode_lower [of k]
  by (intro valid_utf8_ascii_all) (auto simp: list_all_iff is_lower_hex_def is_digit_def)

text \<open>C23. A client that creates an endpoint can read the answer, and the id it finds there, used as it is
  written in a GET request, is answered 200 with the same object less its last member, the
  signing secret: same id, URL, tenant and creation time, byte for byte.\<close>

theorem created_endpoint_is_served:
  assumes "healthy s" and "fresh_keys 1 s" and "uuid_codec enc parse_id" and "\<And>t. valid_utf8 (tm t)"
    and "endpoint_Create (decode_endpoint parse_id) url_Parse rnd endpoint_service b s = (r, s')" and "rs_Status r = 201"
  shows "\<exists>i fs k r'. rnd 32 = Inr k \<and>
    unmarshal_json (response_bytes enc tm msg r) =
      Some (object ((''id'', JString (enc i)) # fs @ [(''signing_secret'', JString (hex_encode k))])) \<and>
    endpoint_Get parse_id endpoint_service (enc i) s' = (r', s') \<and> rs_Status r' = 200 \<and>
    unmarshal_json (response_bytes enc tm msg r') = Some (object ((''id'', JString (enc i)) # fs))"
proof -
  from assms(1,2,5,6) obtain req t k row where c: "decode_endpoint parse_id b = Some req" "rnd 32 = Inr k"
    "row = new_endpoint (eq_URL req) t k (now_ts s) (uuid_src s (uuid_pos s))"
    "r = writeJSON 201 (EndpointCreatedBody \<lparr>eo_ID = er_id row, eo_URL = eq_URL req, eo_TenantID = t,
        eo_CreatedAt = now_ts s, eo_SigningSecret = hex_encode k\<rparr>)"
    "s' = s\<lparr>uuid_pos := Suc (uuid_pos s), endpoints := endpoints s @ [row]\<rparr>"
    by (rule create_201)
  let ?i = "er_id row"
  let ?fs = "[(''url'', JString (eq_URL req)), (''tenant_id'', JString (enc t)), (''created_at'', JString (tm (now_ts s)))]"
  let ?e = "\<lparr>eo_ID = ?i, eo_URL = eq_URL req, eo_TenantID = t, eo_CreatedAt = now_ts s\<rparr>"
  have valid: "valid_utf8 (eq_URL req)" "valid_utf8 (enc i)" "valid_utf8 (hex_encode k)" for i
    using decode_endpoint_valid [OF c(1)] codec_text [OF assms(3)] hex_text by simp_all
  have new: "?i \<notin> endpoint_ids s"
    using fresh_keys_next [of 0 s] assms(2) by (simp add: used_keys_def c(3) new_endpoint_def)
  have "faults s' = []" using assms(1) by (simp add: healthy_def c(5))
  moreover have "row_by er_id ?i (endpoints s') = Some row"
    using new by (simp add: c(5) row_by_None_iff [THEN iffD2])
  moreover have "parse_id (enc ?i) = Some ?i" using codec_text [OF assms(3)] by simp
  ultimately have get: "endpoint_Get parse_id endpoint_service (enc ?i) s' = (writeJSON 200 (EndpointBody ?e), s')"
    by (simp add: endpoint_Get_def respond_def EndpointService_Get_def get_endpoint_eq scanEndpoint_def
        NewEndpointResponse_def) (simp add: c(3) new_endpoint_def)
  have "unmarshal_json (response_bytes enc tm msg r) =
      Some (object ((''id'', JString (enc ?i)) # ?fs @ [(''signing_secret'', JString (hex_encode k))]))"
    using assms(4) valid
    by (intro response_read) (simp_all add: c(4) writeJSON_def created_members_def endpoint_members_def object_def valid_utf8_ascii_all)
  moreover have "unmarshal_json (response_bytes enc tm msg (writeJSON 200 (EndpointBody ?e))) =
      Some (object ((''id'', JString (enc ?i)) # ?fs))"
    using assms(4) valid
    by (intro response_read) (simp_all add: writeJSON_def endpoint_members_def object_def valid_utf8_ascii_all)
  ultimately show ?thesis using get c(2)
    by (intro exI [of _ ?i] exI [of _ ?fs] exI [of _ k] exI [of _ "writeJSON 200 (EndpointBody ?e)"])
      (simp add: writeJSON_def)
qed

theorem created_endpoint_is_served_witness:
  "\<exists>i fs r'. endpoint_Get sample_parse endpoint_service (sample_text i)
      (snd (endpoint_Create (decode_endpoint sample_parse) url_Parse (\<lambda>_. Inr ''k'') endpoint_service
        ''{\"url\": \"https://b.test/\", \"tenant_id\": \"1\"}'' sample_db)) = (r', fs) \<and> rs_Status r' = 200"
proof -
  let ?b = "''{\"url\": \"https://b.test/\", \"tenant_id\": \"1\"}''"
  let ?run = "endpoint_Create (decode_endpoint sample_parse) url_Parse (\<lambda>_. Inr ''k'') endpoint_service ?b sample_db"
  have h: "healthy sample_db" "fresh_keys 1 sample_db"
    using sample_schema_ok by (simp_all add: healthy_def fresh_keys_def used_keys_def sample_defs)
  have d: "decode_endpoint sample_parse ?b = Some \<lparr>eq_URL = ''https://b.test/'', eq_TenantID = Some 1\<rparr>" by code_simp
  have v: "ValidateURL url_Parse ''https://b.test/'' = None" by code_simp
  have t: "1 \<in> tenant_ids sample_db" by (simp add: sample_defs)
  have "rs_Status (fst ?run) = 201"
    using register_run [OF h v, of "\<lambda>_. Inr ''k''" 1] t
    by (simp add: endpoint_Create_def d respond_def text_ok_ascii Let_def writeJSON_def)
  moreover have "valid_utf8 (sample_time n)" for n
    using FormatInt_ascii [of n] by (intro valid_utf8_ascii_all) (simp add: sample_time_def)
  ultimately show ?thesis
    using created_endpoint_is_served [OF h sample_codec, of sample_time "\<lambda>_. Inr ''k''" ?b "fst ?run" "snd ?run" "\<lambda>_. []"]
    by (auto simp: prod_eq_iff)
qed

end
