(* ===== verification/Threads.thy ===== *)
theory Threads
  imports Traffic
begin

text \<open>
  Workers side by side.  In \<open>System\<close> a worker handles a message in one step; here
  \<open>Worker.ProcessOne\<close> is cut at every call that another process can come between: each database
  statement, the HTTP request, the commit.  Any number of such threads, of any number of worker
  processes (\<open>WORKER_CONCURRENCY\<close>), run interleaved with each other, with the requests of the
  API, with scheduler and reaper, and any of them may stop for good between two steps.
\<close>

section \<open>The steps of a worker\<close>

text \<open>What a thread has at hand, named by the call it makes next.\<close>

datatype thread =
    Loading message uuid
  | Inserting message uuid WorkerDelivery
  | Sending message uuid WorkerDelivery uuid
  | Recording message uuid WorkerDelivery uuid http_result
  | Breaking message uuid WorkerDelivery AttemptOutcome
  | Marking message uuid WorkerDelivery AttemptOutcome
  | Committing message

abbreviation seq_of :: "WorkerDelivery \<Rightarrow> int" where
  "seq_of wd \<equiv> d_AttemptCount (wd_Delivery wd) + 1"

text \<open>One step: an error that ends \<open>ProcessOne\<close>, its end (\<open>Inr None\<close>), or the thread that goes on.\<close>

fun advance ::
  "(string \<Rightarrow> string + parsed_url) \<Rightarrow> duration list \<Rightarrow> 's WorkerConfig \<Rightarrow> clock \<Rightarrow> thread \<Rightarrow>
   (err, 's, thread option) prog" where
  "advance parse schedule cfg ck (Loading m i) =
     bindP (map_errP (Wrap ''load delivery'') (wk_LoadForWorker cfg i)) (\<lambda>wd. returnP (Some (Inserting m i wd)))"
| "advance parse schedule cfg ck (Inserting m i wd) =
     bindP (map_errP (Wrap ''insert attempt'') (wk_InsertStarted cfg i (seq_of wd)))
       (\<lambda>a. returnP (Some (Sending m i wd a)))"
| "advance parse schedule cfg ck (Sending m i wd a) =
     (\<lambda>s. case doHTTP parse cfg (ck_Sign ck) (wd_EndpointURL wd) (wd_Payload wd) (wd_SigningSecret wd) s of
        (res, s') \<Rightarrow> (Inr (Some (Recording m i wd a res)), s'))"
| "advance parse schedule cfg ck (Recording m i wd a res) =
     (let out = Classify res in
      bindP (ignore_err (wk_UpdateOutcome cfg a out (status_code_of res) (error_reason_of res) (ck_Done ck))) (\<lambda>_.
      bindP (record_metrics cfg (\<lambda>mt. wm_Attempt mt (d_EndpointID (wd_Delivery wd)) out)) (\<lambda>_.
        returnP (Some (Breaking m i wd out)))))"
| "advance parse schedule cfg ck (Breaking m i wd out) =
     bindP (update_circuit cfg wd out) (\<lambda>_. returnP (Some (Marking m i wd out)))"
| "advance parse schedule cfg ck (Marking m i wd out) =
     bindP (finish_delivery schedule cfg ck (d_EndpointID (wd_Delivery wd)) i (seq_of wd) out)
       (\<lambda>_. returnP (Some (Committing m)))"
| "advance parse schedule cfg ck (Committing m) = bindP (wk_Commit cfg m) (\<lambda>_. returnP None)"

text \<open>Fetching starts a thread; a message that cannot be read is committed and dropped.\<close>

definition start_thread :: "(bytes \<Rightarrow> err + uuid) \<Rightarrow> 's WorkerConfig \<Rightarrow> (err, 's, thread) prog" where
  "start_thread unmarshal cfg =
     bindP (map_errP (Wrap ''fetch message'') (wk_Fetch cfg)) (\<lambda>msg.
       case unmarshal (m_Value msg) of
         Inl e \<Rightarrow> bindP (ignore_err (wk_Commit cfg msg)) (\<lambda>_. failP (Wrap ''unmarshal kafka message'' e))
       | Inr deliveryID \<Rightarrow> returnP (Loading msg deliveryID))"

section \<open>Undisturbed, the steps are the code\<close>

fun rank :: "thread \<Rightarrow> nat" where
  "rank (Loading m i) = 6" | "rank (Inserting m i wd) = 5" | "rank (Sending m i wd a) = 4"
| "rank (Recording m i wd a res) = 3" | "rank (Breaking m i wd out) = 2" | "rank (Marking m i wd out) = 1"
| "rank (Committing m) = 0"

lemma advance_rank:
  "advance parse schedule cfg ck t s = (Inr (Some t'), s') \<Longrightarrow> rank t = Suc (rank t')"
  by (cases t) (auto simp: bindP_def map_errP_def Let_def split: prod.splits sum.splits)

text \<open>A thread alone, to its end.\<close>

function run_thread ::
  "(string \<Rightarrow> string + parsed_url) \<Rightarrow> duration list \<Rightarrow> 's WorkerConfig \<Rightarrow> clock \<Rightarrow> thread \<Rightarrow> (err, 's, unit) prog" where
  "run_thread parse schedule cfg ck t s =
     (case advance parse schedule cfg ck t s of
        (Inl e, s') \<Rightarrow> (Inl e, s')
      | (Inr None, s') \<Rightarrow> (Inr (), s')
      | (Inr (Some t'), s') \<Rightarrow> run_thread parse schedule cfg ck t' s')"
  by pat_completeness auto
termination
  by (relation "measure (\<lambda>(parse, schedule, cfg, ck, t, s). rank t)")
    (simp_all, metis advance_rank lessI)

declare run_thread.simps [simp del]

lemma run_thread_bind:
  assumes "advance parse schedule cfg ck t = bindP m (\<lambda>x. returnP (Some (f x)))"
  shows "run_thread parse schedule cfg ck t = bindP m (\<lambda>x. run_thread parse schedule cfg ck (f x))"
  by (rule ext, subst run_thread.simps) (auto simp: assms bindP_def split: prod.splits sum.splits)

lemma bindP_case_prod:
  "bindP (\<lambda>s. case h s of (x, s') \<Rightarrow> k x s') f = (\<lambda>s. case h s of (x, s') \<Rightarrow> bindP (k x) f s')"
  by (rule ext) (simp add: bindP_def split: prod.splits)

lemma run_committing: "run_thread parse schedule cfg ck (Committing m) = wk_Commit cfg m"
  by (rule ext, subst run_thread.simps) (auto simp: bindP_def split: prod.splits sum.splits)

lemma run_marking:
  "run_thread parse schedule cfg ck (Marking m i wd out) =
     bindP (finish_delivery schedule cfg ck (d_EndpointID (wd_Delivery wd)) i (seq_of wd) out) (\<lambda>_. wk_Commit cfg m)"
  by (subst run_thread_bind [OF advance.simps(6)]) (simp add: run_committing)

lemma run_recording:
  "run_thread parse schedule cfg ck (Recording m i wd a res) =
     bindP (settle schedule cfg ck wd i a (seq_of wd) res) (\<lambda>_. wk_Commit cfg m)"
proof -
  have "advance parse schedule cfg ck (Recording m i wd a res) =
      bindP (bindP (ignore_err (wk_UpdateOutcome cfg a (Classify res) (status_code_of res) (error_reason_of res) (ck_Done ck)))
        (\<lambda>_. record_metrics cfg (\<lambda>mt. wm_Attempt mt (d_EndpointID (wd_Delivery wd)) (Classify res))))
        (\<lambda>_. returnP (Some (Breaking m i wd (Classify res))))"
    by (simp add: Let_def bindP_assoc)
  from run_thread_bind [OF this] show ?thesis
    by (simp add: run_thread_bind [OF advance.simps(5)] run_marking settle_def Let_def bindP_assoc)
qed

lemma run_loading:
  "run_thread parse schedule cfg ck (Loading m i) =
     bindP (Worker_process parse schedule cfg ck i) (\<lambda>_. wk_Commit cfg m)"
proof -
  have "run_thread parse schedule cfg ck (Sending m i wd a) = (\<lambda>s.
      case doHTTP parse cfg (ck_Sign ck) (wd_EndpointURL wd) (wd_Payload wd) (wd_SigningSecret wd) s of
        (res, s') \<Rightarrow> run_thread parse schedule cfg ck (Recording m i wd a res) s')" for wd a
    by (rule ext, subst run_thread.simps) (simp split: prod.splits)
  then show ?thesis
    by (simp add: run_thread_bind [OF advance.simps(1)] run_thread_bind [OF advance.simps(2)] run_recording
        Worker_process_def Let_def bindP_assoc bindP_case_prod)
qed


section \<open>What a step keeps\<close>

lemma advance_keeps:
  assumes keeps: "attempt_keeps I cfg" and commit: "\<And>m. preserves I (wk_Commit cfg m)"
    and marks: "\<And>m i wd out. t = Marking m i wd out \<Longrightarrow> operations_keep I cfg"
  shows "preserves I (advance parse schedule cfg ck t)"
proof -
  have ops: "preserves I (wk_LoadForWorker cfg i)" "preserves I (wk_InsertStarted cfg i n)"
      "preserves I (wk_UpdateOutcome cfg i out c r t)" for i n out c r t
    using keeps by (simp_all add: attempt_keeps_def)
  show ?thesis
  proof (cases t)
    case (Sending m i wd a)
    have "I (snd (advance parse schedule cfg ck t w))" if "I w" for w
      using doHTTP_keeps [OF keeps that, of parse "ck_Sign ck" "wd_EndpointURL wd" "wd_Payload wd" "wd_SigningSecret wd"]
      by (auto simp: Sending split: prod.splits)
    then show ?thesis by (rule preservesI)
  next
    case (Marking m i wd out)
    then show ?thesis using finish_keeps [OF marks [OF Marking]] by (simp only: advance.simps) (intro preserves_intros)
  qed (simp_all only: advance.simps Let_def,
       (intro preserves_intros ops metrics_keep [OF keeps] update_circuit_keeps [OF keeps] commit)+)
qed

lemma commit_db: "w_db (snd (Consumer_Commit m w)) = w_db w"
  by (simp add: Consumer_Commit_def split: list.splits option.splits)

lemma commit_keeps_db: "preserves (\<lambda>w. I (w_db w)) (wk_Commit (NewWorker client cs ccfg peer hop) m)"
  by (simp add: NewWorker_def preserves_def commit_db)

text \<open>Up to the mark a step keeps what an attempt keeps.\<close>

lemma advance_attempt:
  assumes "attempt_law I" and "cs = None \<or> cs = Some worker_circuit_store"
    and "\<And>m i wd out. t \<noteq> Marking m i wd out"
  shows "preserves (\<lambda>w. I (w_db w)) (advance parse schedule (NewWorker client cs ccfg peer hop) ck t)"
  by (rule advance_keeps [OF attempt_law.worker_attempt [OF assms(1,2)] commit_keeps_db]) (use assms(3) in simp)

lemma advance_db_ok:
  "cs = None \<or> cs = Some worker_circuit_store \<Longrightarrow>
   preserves world_ok (advance parse schedule (NewWorker client cs ccfg peer hop) ck t)"
  using NewWorker_keeps_db_ok [of cs client ccfg peer hop] commit_keeps_db [of db_ok]
  by (intro advance_keeps) (simp_all add: operations_keep_def)

lemma advance_table:
  assumes "table_law I" and "cs = None \<or> cs = Some worker_circuit_store"
  shows "preserves (\<lambda>w. I (w_db w)) (advance parse schedule (NewWorker client cs ccfg peer hop) ck t)"
  using table_law.worker_operations [OF assms, of client ccfg peer hop] commit_keeps_db [of I]
  by (intro advance_keeps) (simp_all add: operations_keep_def)

text \<open>The mark: the row of the delivery is settled, or nothing happens to it.\<close>

lemma marking_db:
  "w_db (snd (advance parse schedule cfg ck (Marking m i wd out) w)) =
     w_db (snd (finish_delivery schedule cfg ck (d_EndpointID (wd_Delivery wd)) i (seq_of wd) out w))"
  by (simp add: bindP_def split: prod.splits sum.splits)

section \<open>The service with its threads\<close>

text \<open>The threads and the world they share.  A thread of some worker fetches a message, goes on by
  one step, or stops for good; everything else of the service and of its environment is an
  action of \<open>System\<close>.\<close>

datatype move = Elsewhere action | Starts | GoesOn nat clock | Stops nat

fun make :: "deployment \<Rightarrow> move \<Rightarrow> thread list \<times> world \<Rightarrow> thread list \<times> world" where
  "make sys (Elsewhere a) (ts, w) = (ts, perform sys a w)"
| "make sys Starts (ts, w) =
     (case start_thread (sy_unmarshal sys) (worker_of sys) w of
        (Inl _, w') \<Rightarrow> (ts, w')
      | (Inr t, w') \<Rightarrow> (ts @ [t], w'))"
| "make sys (GoesOn k ck) (ts, w) =
     (case advance (sy_parse sys) (sy_schedule sys) (worker_of sys) ck (ts ! k) w of
        (Inr (Some t), w') \<Rightarrow> (ts[k := t], w')
      | (_, w') \<Rightarrow> (without k ts, w'))"
| "make sys (Stops k) (ts, w) = (without k ts, w)"

definition possible :: "move \<Rightarrow> thread list \<times> world \<Rightarrow> bool" where
  "possible mv tw \<longleftrightarrow> (case mv of
     Elsewhere a \<Rightarrow> allowed a (snd tw) \<and> (\<forall>ck. a \<noteq> WorkerHandles ck)
   | Starts \<Rightarrow> True
   | GoesOn k _ \<Rightarrow> k < length (fst tw)
   | Stops k \<Rightarrow> k < length (fst tw))"

text \<open>The guard of the second kind of run: a thread that loads a delivery finds it open.\<close>

definition loads_open :: "move \<Rightarrow> thread list \<times> world \<Rightarrow> bool" where
  "loads_open mv tw \<longleftrightarrow> (case mv of
     GoesOn k _ \<Rightarrow> (case fst tw ! k of
         Loading m i \<Rightarrow> list_all (\<lambda>d. dr_id d = i \<longrightarrow> \<not> terminal (dr_status d)) (deliveries (w_db (snd tw)))
       | _ \<Rightarrow> True)
   | _ \<Rightarrow> True)"

inductive interleaved :: "deployment \<Rightarrow> thread list \<times> world \<Rightarrow> thread list \<times> world \<Rightarrow> bool" for sys tw0 where
  start: "interleaved sys tw0 tw0"
| further: "interleaved sys tw0 tw \<Longrightarrow> possible mv tw \<Longrightarrow> interleaved sys tw0 (make sys mv tw)"

inductive open_interleaved :: "deployment \<Rightarrow> thread list \<times> world \<Rightarrow> thread list \<times> world \<Rightarrow> bool" for sys tw0 where
  start: "open_interleaved sys tw0 tw0"
| further: "open_interleaved sys tw0 tw \<Longrightarrow> possible mv tw \<Longrightarrow> loads_open mv tw \<Longrightarrow> open_interleaved sys tw0 (make sys mv tw)"

lemma worker_of_cs:
  "\<exists>cs. (cs = None \<or> cs = Some worker_circuit_store) \<and>
     worker_of sys = NewWorker None cs (sy_CircuitCfg sys) (sy_peer sys) (sy_hop sys)"
  by (auto simp: worker_of_def)

lemma start_world:
  assumes "start_thread unmarshal (worker_of sys) w = (r, w')"
  shows "w_db w' = w_db w" and "w_sent w' = w_sent w" and "r = Inr t \<Longrightarrow> \<exists>m i. t = Loading m i"
proof -
  have f: "wk_Fetch (worker_of sys) = Consumer_FetchMessage" "wk_Commit (worker_of sys) = Consumer_Commit"
    by (simp_all add: worker_of_def NewWorker_def)
  have c: "w_sent (snd (Consumer_Commit m v)) = w_sent v" for m v
    by (simp add: Consumer_Commit_def split: list.splits option.splits)
  show "w_db w' = w_db w" "w_sent w' = w_sent w" "r = Inr t \<Longrightarrow> \<exists>m i. t = Loading m i"
    using assms by (auto simp: start_thread_def f Consumer_FetchMessage_def bindP_def map_errP_def ignore_err_run
        commit_db c failP_def split: list.splits sum.splits prod.splits)
qed

text \<open>The three kinds of moves, by what they do to the threads and the database.\<close>

lemma make_cases:
  assumes "possible mv (ts, w)" and "make sys mv (ts, w) = (ts', w')"
  obtains (action) a where "mv = Elsewhere a" "allowed a w" "\<And>ck. a \<noteq> WorkerHandles ck" "ts' = ts" "w' = perform sys a w"
    | (begun) m i where "w_db w' = w_db w" "w_sent w' = w_sent w" "ts' = ts @ [Loading m i]"
    | (idle) "w_db w' = w_db w" "w_sent w' = w_sent w" "ts' = ts"
    | (gone) A t B where "w' = w" "ts = A @ t # B" "ts' = A @ B"
    | (stepped) A t B ck r where "mv = GoesOn (length A) ck" "ts = A @ t # B"
        "advance (sy_parse sys) (sy_schedule sys) (worker_of sys) ck t w = (r, w')"
        "ts' = (case r of Inr (Some t') \<Rightarrow> A @ t' # B | _ \<Rightarrow> A @ B)"
proof (cases mv)
  case (Elsewhere a)
  with assms show thesis by (intro action) (auto simp: possible_def)
next
  case Starts
  obtain r w1 where st: "start_thread (sy_unmarshal sys) (worker_of sys) w = (r, w1)" by fastforce
  show thesis
  proof (cases r)
    case (Inl e)
    with assms(2) st start_world(1,2) [OF st] show thesis by (intro idle) (auto simp: Starts)
  next
    case (Inr t)
    with start_world(3) [OF st] obtain m i where "t = Loading m i" by blast
    with assms(2) st start_world(1,2) [OF st] Inr show thesis by (intro begun) (auto simp: Starts)
  qed
next
  case (GoesOn k ck)
  obtain r w1 where ad: "advance (sy_parse sys) (sy_schedule sys) (worker_of sys) ck (ts ! k) w = (r, w1)" by fastforce
  have k: "k < length ts" using assms(1) by (simp add: GoesOn possible_def)
  with ad assms(2) show thesis
    by (intro stepped [of "take k ts" ck "ts ! k" "drop (Suc k) ts" r])
      (auto simp: GoesOn id_take_nth_drop [symmetric] min_def without_def upd_conv_take_nth_drop
        split: sum.splits option.splits)
next
  case (Stops k)
  have "k < length ts" using assms(1) by (simp add: Stops possible_def)
  with assms(2) show thesis
    by (intro gone [of "take k ts" "ts ! k" "drop (Suc k) ts"])
      (auto simp: Stops without_def id_take_nth_drop [symmetric])
qed

section \<open>An attempt is made once\<close>

text \<open>The attempt a thread has begun, and the attempts that are recorded.\<close>

fun holds :: "thread \<Rightarrow> (uuid \<times> int) list" where
  "holds (Sending m i wd a) = [(i, seq_of wd)]"
| "holds (Recording m i wd a res) = [(i, seq_of wd)]"
| "holds (Breaking m i wd out) = [(i, seq_of wd)]"
| "holds (Marking m i wd out) = [(i, seq_of wd)]"
| "holds _ = []"

abbreviation held :: "thread list \<Rightarrow> (uuid \<times> int) list" where
  "held ts \<equiv> concat (map holds ts)"

definition on_record :: "db \<Rightarrow> (uuid \<times> int) set" where
  "on_record s = (\<lambda>a. (ar_delivery_id a, ar_sequence a)) ` set (attempts s)"

fun unsent :: "thread \<Rightarrow> nat" where
  "unsent (Sending m i wd a) = 1"
| "unsent _ = 0"

lemma grown_recorded: "grown s0 s \<Longrightarrow> on_record s0 \<subseteq> on_record s"
proof -
  have r: "on_record s = (\<lambda>(_, i, n, _). (i, n)) ` attempt_key ` set (attempts s)" for s
    by (simp add: on_record_def image_image attempt_key_def)
  assume "grown s0 s"
  then have "attempt_key ` set (attempts s0) \<subseteq> attempt_key ` set (attempts s)" by (simp add: grown_def)
  then show ?thesis unfolding r by (rule image_mono)
qed

lemma insert_attempt_Inr:
  assumes "insert_attempt mk s = (Inr r, s')"
  shows "\<exists>x. r = mk x" and "(ar_delivery_id r, ar_sequence r) \<notin> on_record s" and "attempts s' = attempts s @ [r]"
proof -
  let ?r = "mk (uuid_src s (uuid_pos s))" and ?s = "s\<lparr>uuid_pos := Suc (uuid_pos s)\<rparr>"
  have no: "check_attempt ?s ?r = None" and r: "r = ?r" and s': "s' = ?s\<lparr>attempts := attempts ?s @ [?r]\<rparr>"
    using assms by (auto simp: insert_attempt_def insert_row_def Let_def split: option.splits)
  show "\<exists>x. r = mk x" using r by blast
  show "(ar_delivery_id r, ar_sequence r) \<notin> on_record s"
    using no unfolding r by (simp add: check_attempt_def on_record_def split: if_splits)
  show "attempts s' = attempts s @ [r]" by (simp add: s' r)
qed

lemma InsertStarted_Inr:
  assumes "AttemptStore_InsertStarted i n s = (Inr a, s')"
  shows "(i, n) \<notin> on_record s" and "on_record s' = insert (i, n) (on_record s)"
    and "length (attempts s') = Suc (length (attempts s))"
proof -
  define mk where "mk t x = \<lparr>ar_id = x, ar_delivery_id = i, ar_sequence = n, ar_started_at = t, ar_completed_at = None,
      ar_response_status_code = None, ar_outcome = OutcomeTransientFailure, ar_error_reason = None\<rparr>" for t x
  have "AttemptStore_InsertStarted i n = bindP (stmt (with_state (\<lambda>s. insert_attempt (mk (now_ts s))))) (\<lambda>r. returnP (ar_id r))"
    unfolding AttemptStore_InsertStarted_def mk_def ..
  with assms obtain r where "stmt (with_state (\<lambda>s. insert_attempt (mk (now_ts s)))) s = (Inr r, s')"
    by (auto simp: bindP_def split: prod.splits sum.splits)
  from stmt_Inr_D [OF this] obtain fs t where "insert_attempt (mk t) (s\<lparr>faults := fs\<rparr>) = (Inr r, s')" by auto
  from insert_attempt_Inr [OF this]
  show "(i, n) \<notin> on_record s" "on_record s' = insert (i, n) (on_record s)" "length (attempts s') = Suc (length (attempts s))"
    by (auto simp: on_record_def mk_def)
qed

text \<open>A step that goes on to the request has recorded a new attempt; no other step begins one.\<close>

lemma advance_held:
  assumes "advance parse schedule (NewWorker client cs ccfg peer hop) ck t w = (Inr (Some t'), w')"
  shows "set (holds t') \<subseteq> set (holds t) \<and> distinct (holds t') \<and> unsent t' = 0 \<or>
    (\<exists>x. holds t = [] \<and> unsent t = 0 \<and> holds t' = [x] \<and> unsent t' = 1 \<and> x \<notin> on_record (w_db w) \<and>
       x \<in> on_record (w_db w') \<and> length (attempts (w_db w')) = Suc (length (attempts (w_db w))))"
proof (cases t)
  case (Inserting m i wd)
  obtain r s' where ins: "AttemptStore_InsertStarted i (seq_of wd) (w_db w) = (r, s')" by fastforce
  with assms obtain a where "r = Inr a" "t' = Sending m i wd a" "w_db w' = s'"
    by (auto simp: Inserting bindP_def map_errP_def NewWorker_def on_db_def split: sum.splits)
  with InsertStarted_Inr [of i "seq_of wd" "w_db w" a s'] ins show ?thesis by (simp add: Inserting)
qed (use assms in \<open>auto simp: bindP_def map_errP_def Let_def split: prod.splits sum.splits\<close>)

text \<open>Only the step of the request sends, and it sends one.\<close>

lemma advance_sent:
  assumes "cs = None \<or> cs = Some worker_circuit_store"
    and "advance parse schedule (NewWorker None cs ccfg peer hop) ck t w = (r, w')"
  shows "length (w_sent w') \<le> length (w_sent w) + unsent t"
proof (cases "unsent t = 0")
  case True
  let ?cfg = "NewWorker None cs ccfg peer hop" and ?I = "\<lambda>v. w_sent v = w_sent w"
  have ops: "preserves ?I (wk_LoadForWorker ?cfg i)" "preserves ?I (wk_InsertStarted ?cfg i n)"
      "preserves ?I (wk_UpdateOutcome ?cfg i out c r t)" for i n out c r t
    by (simp_all add: NewWorker_def on_db_sent)
  have circ: "preserves ?I (update_circuit ?cfg wd out)" for wd out
    using assms(1)
    by (elim disjE; simp only: update_circuit_def Let_def NewWorker_def worker_circuit_store_def
        WorkerConfig.simps WorkerCircuitStore.simps option.case; intro preserves_intros on_db_sent)
  have fin: "preserves ?I (finish_delivery schedule ?cfg ck e i n out)" for e i n out
    by (simp add: finish_delivery_def NewWorker_def no_metrics on_db_sent)
  have rec: "preserves ?I (record_metrics ?cfg add)" for add
    by (simp add: preserves_def record_metrics_def NewWorker_def)
  have commit: "preserves ?I (wk_Commit ?cfg m)" for m
    by (simp add: preserves_def NewWorker_def commit_queue)
  have "preserves ?I (advance parse schedule ?cfg ck t)"
  proof (cases t)
    case (Sending m i wd a)
    with True show ?thesis by simp
  qed (simp_all only: advance.simps Let_def, (intro preserves_intros ops circ fin rec commit)+)
  from preservesD_eq [OF this _ assms(2)] show ?thesis by simp
next
  case False
  then obtain m i wd a where "t = Sending m i wd a" by (cases t) auto
  with assms(2) show ?thesis
    by (auto simp: doHTTP_def NewWorker_def http_do_default split: sum.splits)
qed

interpretation counted: table_law "\<lambda>s. n \<le> length (attempts s)" for n
  by unfold_locales (auto simp: table_pred_def upd_where_def)

interpretation counted_requests: service_law "\<lambda>s. n \<le> length (attempts s)" for n
  by unfold_locales auto

lemma perform_sent:
  assumes "\<And>ck. a \<noteq> WorkerHandles ck"
  shows "w_sent (perform sys a w) = w_sent w"
proof (cases a)
  case (SchedulerTicks now)
  then show ?thesis using tick_topic [of sys now w] by (auto simp: outside_def)
next
  case ReaperTicks
  have "preserves (\<lambda>v. w_sent v = w_sent w) (Reaper_Tick (reaper_config 0))"
    unfolding Reaper_Tick_def reaper_config_fields by (intro preserves_intros on_db_sent count_preserves) simp
  then show ?thesis by (simp add: ReaperTicks preserves_def)
qed (use assms in \<open>simp_all add: at_db_def\<close>)

definition made_once :: "thread list \<times> world \<Rightarrow> bool" where
  "made_once tw \<longleftrightarrow> distinct (held (fst tw)) \<and> set (held (fst tw)) \<subseteq> on_record (w_db (snd tw)) \<and>
     length (w_sent (snd tw)) + sum_list (map unsent (fst tw)) \<le> length (attempts (w_db (snd tw)))"

lemma perform_counted:
  assumes "\<And>ck. a \<noteq> WorkerHandles ck"
  shows "length (attempts (w_db w)) \<le> length (attempts (w_db (perform sys a w)))"
proof -
  let ?n = "length (attempts (w_db w))"
  note law = counted.table_law_axioms [of ?n]
  show ?thesis
  proof (cases a)
    case (SchedulerTicks now)
    then show ?thesis using preservesD [OF scheduler_of_law [OF law], of w] by simp
  next
    case ReaperTicks
    then show ?thesis using preservesD [OF counted.reaper_tick, of ?n w] by simp
  qed (use assms in \<open>simp_all add: at_db_preserves [of "\<lambda>s. ?n \<le> length (attempts s)"] counted_requests.entity_services
      counted.submission counted.replay_service counted.bulk_service\<close>)
qed

lemma make_once:
  assumes "made_once (ts, w)" and "possible mv (ts, w)" and "make sys mv (ts, w) = (ts', w')"
  shows "made_once (ts', w')"
  using assms(2,3)
proof (cases rule: make_cases)
  case (action a)
  with assms(1) perform_counted [of a w sys] grown_recorded [OF perform_grown [of w sys a]] show ?thesis
    by (auto simp: made_once_def perform_sent intro: order_trans)
next
  case (stepped A t B ck r)
  obtain cs where cs: "cs = None \<or> cs = Some worker_circuit_store"
    and cfg: "worker_of sys = NewWorker None cs (sy_CircuitCfg sys) (sy_peer sys) (sy_hop sys)"
    using worker_of_cs by blast
  note run = stepped(3) [unfolded cfg]
  have rec: "on_record (w_db w) \<subseteq> on_record (w_db w')"
    by (rule grown_recorded [OF preservesD_eq [OF advance_table [OF history.table_law_axioms cs] grown_refl run]])
  have len: "length (attempts (w_db w)) \<le> length (attempts (w_db w'))"
    by (rule preservesD_eq [OF advance_table [OF counted.table_law_axioms cs] order_refl run])
  note sent = advance_sent [OF cs run]
  show ?thesis
  proof (cases "\<exists>t'. r = Inr (Some t')")
    case False
    then have "ts' = A @ B" using stepped(4) by (auto split: sum.splits option.splits)
    with assms(1) rec len sent show ?thesis by (auto simp: made_once_def stepped(2))
  next
    case True
    then obtain t' where r: "r = Inr (Some t')" by blast
    with stepped(4) have ts': "ts' = A @ t' # B" by simp
    note old = assms(1) [unfolded made_once_def stepped(2)]
    from advance_held [OF run [unfolded r]] show ?thesis
    proof (elim disjE exE conjE)
      assume t': "set (holds t') \<subseteq> set (holds t)" "distinct (holds t')" "unsent t' = 0"
      have "set (held ts') \<subseteq> on_record (w_db w')" "distinct (held ts')"
        using old t'(1,2) rec by (auto simp: ts')
      with old t'(3) len sent show ?thesis by (simp add: made_once_def ts')
    next
      fix x
      assume x: "holds t = []" "holds t' = [x]" "x \<notin> on_record (w_db w)" "x \<in> on_record (w_db w')"
        and u: "unsent t = 0" "unsent t' = 1" "length (attempts (w_db w')) = Suc (length (attempts (w_db w)))"
      have "x \<notin> set (held A) \<union> set (held B)" using old x(1,3) by auto
      then have "set (held ts') \<subseteq> on_record (w_db w')" "distinct (held ts')"
        using old x rec by (auto simp: ts')
      with old u sent show ?thesis by (simp add: made_once_def ts')
    qed
  qed
qed (use assms(1) in \<open>auto simp: made_once_def\<close>)

lemma interleaved_once: "interleaved sys tw0 tw \<Longrightarrow> made_once tw0 \<Longrightarrow> made_once tw"
proof (induction rule: interleaved.induct)
  case (further tw mv)
  then show ?case using make_once [of "fst tw" "snd tw" mv sys] by (metis prod.collapse)
qed

section \<open>While every load finds its delivery open\<close>

text \<open>The delivery is open and \<open>c\<close> of its attempts are counted.\<close>

definition counts :: "uuid \<Rightarrow> int \<Rightarrow> db \<Rightarrow> bool" where
  "counts i c s \<longleftrightarrow> (\<exists>d \<in> set (deliveries s). dr_id d = i \<and> dr_attempt_count d = c \<and> \<not> terminal (dr_status d))"

interpretation open_requests: request_law "counts i c" for i c
  by unfold_locales (auto simp: counts_def table_pred_def)

interpretation open_services: service_law "counts i c" for i c
  by unfold_locales (auto simp: counts_def)

lemma counts_upd:
  assumes "counts i c s"
    and "\<And>d. d \<in> set (deliveries s) \<Longrightarrow> p d \<Longrightarrow> dr_id d = i \<Longrightarrow> \<not> terminal (dr_status d) \<Longrightarrow>
      dr_id (f d) = dr_id d \<and> dr_attempt_count (f d) = dr_attempt_count d \<and> \<not> terminal (dr_status (f d))"
  shows "counts i c (s\<lparr>deliveries := upd_where p f (deliveries s)\<rparr>)"
proof -
  from assms(1) obtain d where d: "d \<in> set (deliveries s)" "dr_id d = i" "dr_attempt_count d = c" "\<not> terminal (dr_status d)"
    by (auto simp: counts_def)
  then have "(if p d then f d else d) \<in> set (upd_where p f (deliveries s))" by (auto simp: upd_where_def)
  with assms(2) [OF d(1) _ d(2,4)] d(2-4) show ?thesis by (fastforce simp: counts_def split: if_splits)
qed

lemma counts_update:
  "(\<And>d. p d \<Longrightarrow> \<not> terminal (dr_status d) \<Longrightarrow>
      dr_id (f d) = dr_id d \<and> dr_attempt_count (f d) = dr_attempt_count d \<and> \<not> terminal (dr_status (f d))) \<Longrightarrow>
   preserves (counts i c) (update_deliveries p f)"
  using counts_upd by (auto simp: preserves_def update_deliveries_def Let_def)

lemma counts_kept:
  "preserves (counts i c) (DeliveryStore_ClaimReady n l)" "preserves (counts i c) (CircuitStore_SetProbeDelivery e)"
  "preserves (counts i c) DeliveryStore_ResurrectExpiredLeases"
  "preserves (counts i c) DeliveryStore_PurgeExpiredIdempotencyRecords"
proof -
  have upd: "preserves (counts i c) (update_deliveries p (claimed_row l t))"
      "preserves (counts i c) (update_deliveries p (resurrected_row t))"
      "preserves (counts i c) (update_deliveries p (dr_next_attempt_at_update g))" for p t g l
    by (rule counts_update; simp add: claimed_row_def resurrected_row_def)+
  show "preserves (counts i c) (DeliveryStore_ClaimReady n l)" "preserves (counts i c) (CircuitStore_SetProbeDelivery e)"
      "preserves (counts i c) DeliveryStore_ResurrectExpiredLeases"
      "preserves (counts i c) DeliveryStore_PurgeExpiredIdempotencyRecords"
    unfolding DeliveryStore_ClaimReady_def CircuitStore_SetProbeDelivery_def DeliveryStore_ResurrectExpiredLeases_def
      DeliveryStore_PurgeExpiredIdempotencyRecords_def Let_def
    by (intro open_requests.attempt_laws open_requests.records_replaced upd; simp)+
qed

lemma perform_counts:
  assumes "\<And>ck. a \<noteq> WorkerHandles ck" and "counts i c (w_db w)"
  shows "counts i c (w_db (perform sys a w))"
proof (cases a)
  case (SchedulerTicks now)
  have "preserves (\<lambda>w. counts i c (w_db w)) (Scheduler_Tick (sy_uuid_text sys) (scheduler_of sys) now)"
    unfolding scheduler_of_def by (intro Scheduler_Tick_keeps counts_kept open_requests.circuit_store_ops) simp
  from preservesD [OF this, of w] assms(2) show ?thesis by (simp add: SchedulerTicks)
next
  case ReaperTicks
  with assms(2) show ?thesis using preservesD [OF Reaper_Tick_keeps [OF counts_kept(3,4)], of i c w] by simp
next
  case (TimePasses t)
  with assms(2) show ?thesis by (simp add: counts_def)
next
  case (ConnectionBecomes fs)
  with assms(2) show ?thesis by (simp add: counts_def)
qed (use assms in \<open>simp_all add: at_db_preserves [of "counts i c"] open_services.entity_services
      open_requests.submission open_requests.replay_service open_requests.bulk_service\<close>)

lemma counts_unique:
  assumes "db_ok s" and "counts i c s" and "d \<in> set (deliveries s)" and "dr_id d = i"
  shows "dr_attempt_count d = c" and "\<not> terminal (dr_status d)"
proof -
  from assms(2) obtain d' where d': "d' \<in> set (deliveries s)" "dr_id d' = i" "dr_attempt_count d' = c"
      "\<not> terminal (dr_status d')"
    unfolding counts_def by blast
  have "distinct (map dr_id (deliveries s))" using db_ok_schema [OF assms(1)] by (simp add: schema_defs)
  then have "d = d'" by (rule unique_row) (simp_all add: assms(3,4) d')
  with d' show "dr_attempt_count d = c" "\<not> terminal (dr_status d)" by simp_all
qed

lemma counts_fun: "db_ok s \<Longrightarrow> counts i c s \<Longrightarrow> counts i c' s \<Longrightarrow> c = c'"
  by (subst (asm) (2) counts_def) (use counts_unique(1) in blast)

text \<open>What a thread relies on: the attempt it has begun is recorded and is the next one of an open
  delivery; the attempt it is about to begin is that one, or is recorded already.\<close>

fun in_turn :: "db \<Rightarrow> thread \<Rightarrow> bool" where
  "in_turn s (Inserting m i wd) \<longleftrightarrow> (i, seq_of wd) \<in> on_record s \<or> counts i (d_AttemptCount (wd_Delivery wd)) s"
| "in_turn s t \<longleftrightarrow> list_all (\<lambda>(i, n). counts i (n - 1) s) (holds t)"

definition turns :: "thread list \<times> world \<Rightarrow> bool" where
  "turns tw \<longleftrightarrow> db_ok (w_db (snd tw)) \<and> orderly (w_db (snd tw)) \<and> made_once tw \<and>
     list_all (in_turn (w_db (snd tw))) (fst tw)"

lemma in_turn_mono:
  assumes "in_turn s t" and "on_record s \<subseteq> on_record s'" and "\<And>i c. counts i c s \<Longrightarrow> counts i c s'"
  shows "in_turn s' t"
  using assms by (cases t) auto

text \<open>A step up to the mark.\<close>

lemma attempt_turn:
  assumes ok: "db_ok (w_db w)" and turn: "in_turn (w_db w) t"
    and run: "advance parse schedule (NewWorker client cs ccfg peer hop) ck t w = (Inr (Some t'), w')"
    and "\<And>m i wd out. t \<noteq> Marking m i wd out"
    and load: "\<And>m i. t = Loading m i \<Longrightarrow> list_all (\<lambda>d. dr_id d = i \<longrightarrow> \<not> terminal (dr_status d)) (deliveries (w_db w))"
    and kept: "\<And>i c. counts i c (w_db w) \<Longrightarrow> counts i c (w_db w')"
  shows "in_turn (w_db w') t'"
proof (cases t)
  case (Loading m i)
  obtain q s' where db: "DeliveryStore_LoadForWorker i (w_db w) = (q, s')" by fastforce
  with run obtain wd where wd: "q = Inr wd" "t' = Inserting m i wd"
    by (auto simp: Loading bindP_def map_errP_def NewWorker_def on_db_def split: sum.splits)
  from LoadForWorker_Inr [of i "w_db w" wd] db wd obtain d
    where "row_by dr_id i (deliveries (w_db w)) = Some d" "wd_Delivery wd = scanDelivery d"
    by (auto simp: worker_row_def split: option.splits)
  then have "counts i (d_AttemptCount (wd_Delivery wd)) (w_db w)"
    using load [OF Loading] row_by_SomeD [of dr_id i "deliveries (w_db w)" d]
    by (auto simp: counts_def list_all_iff scanDelivery_def)
  with kept wd show ?thesis by simp
next
  case (Inserting m i wd)
  obtain q s' where ins: "AttemptStore_InsertStarted i (seq_of wd) (w_db w) = (q, s')" by fastforce
  with run obtain a where "q = Inr a" "t' = Sending m i wd a"
    by (auto simp: Inserting bindP_def map_errP_def NewWorker_def on_db_def split: sum.splits)
  with InsertStarted_Inr(1) [of i "seq_of wd" "w_db w" a s'] ins turn kept show ?thesis by (simp add: Inserting)
qed (use assms in \<open>auto simp: bindP_def map_errP_def Let_def split: prod.splits sum.splits\<close>)

lemma make_attempt:
  assumes t: "turns (A @ t # B, w)" and once: "made_once (ts', w')"
    and cs: "cs = None \<or> cs = Some worker_circuit_store"
    and run: "advance parse schedule (NewWorker None cs ccfg peer hop) ck t w = (r, w')"
    and no: "\<And>m i wd out. t \<noteq> Marking m i wd out"
    and load: "\<And>m i. t = Loading m i \<Longrightarrow> list_all (\<lambda>d. dr_id d = i \<longrightarrow> \<not> terminal (dr_status d)) (deliveries (w_db w))"
    and ts': "ts' = (case r of Inr (Some t') \<Rightarrow> A @ t' # B | _ \<Rightarrow> A @ B)"
  shows "turns (ts', w')"
proof -
  have old: "db_ok (w_db w)" "orderly (w_db w)" "list_all (in_turn (w_db w)) (A @ t # B)"
    using t by (simp_all add: turns_def)
  note law = advance_attempt [OF _ cs no, THEN preservesD_eq, OF _ _ run]
  have db: "db_ok (w_db w')" by (rule preservesD_eq [OF advance_db_ok [OF cs] old(1) run])
  have ord: "orderly (w_db w')" by (rule law [OF requests.attempt_law_axioms old(2)])
  have kept: "counts i c (w_db w')" if "counts i c (w_db w)" for i c
    by (rule law [OF open_requests.attempt_law_axioms that])
  have rec: "on_record (w_db w) \<subseteq> on_record (w_db w')"
    by (rule grown_recorded [OF law [OF history.attempt_law_axioms grown_refl]])
  have others: "list_all (in_turn (w_db w')) (A @ B)"
    using old(3) in_turn_mono [OF _ rec kept] by (auto simp: list_all_iff)
  have "in_turn (w_db w') t'" if "r = Inr (Some t')" for t'
    using old attempt_turn [OF old(1) _ run [unfolded that] no load kept] by simp
  with others have "list_all (in_turn (w_db w')) ts'" by (auto simp: ts' split: sum.splits option.splits)
  with db ord once show ?thesis by (simp add: turns_def)
qed

text \<open>The mark moves its own delivery only, and no other thread relies on that one.\<close>

lemma make_marking:
  assumes t: "turns (A @ Marking m i wd out # B, w)" and once: "made_once (ts', w')"
    and cs: "cs = None \<or> cs = Some worker_circuit_store"
    and run: "advance parse schedule (NewWorker None cs ccfg peer hop) ck (Marking m i wd out) w = (r, w')"
    and ts': "ts' = (case r of Inr (Some t') \<Rightarrow> A @ t' # B | _ \<Rightarrow> A @ B)"
  shows "turns (ts', w')"
proof -
  let ?s = "w_db w" and ?n = "seq_of wd"
  have old: "db_ok ?s" "orderly ?s" "made_once (A @ Marking m i wd out # B, w)"
      "list_all (in_turn ?s) (A @ B)" and own: "counts i (?n - 1) ?s"
    using t by (auto simp: turns_def)
  have "same_deliveries (deliveries ?s) (now_ts ?s) ?s" by (simp add: same_deliveries_def)
  from finish_cases [OF this, of i ?n schedule None cs ccfg peer hop ck "d_EndpointID (wd_Delivery wd)" out]
    counts_unique(1) [OF old(1) own]
  have cases: "now_ts (w_db w') = now_ts ?s" "deliveries (w_db w') = deliveries ?s \<or>
      deliveries (w_db w') = upd_where (\<lambda>d. dr_id d = i) (settled_row schedule ck out (now_ts ?s)) (deliveries ?s)"
    using marking_db [of parse schedule "NewWorker None cs ccfg peer hop" ck m i wd out w] run by auto
  have db: "db_ok (w_db w')" by (rule preservesD_eq [OF advance_db_ok [OF cs] old(1) run])
  have "\<forall>d \<in> set (deliveries ?s). dr_id d = i \<longrightarrow> \<not> terminal (dr_status d)"
    using counts_unique(2) [OF old(1) own] by blast
  from orderly_settled [OF old(2) this, of schedule ck out "now_ts ?s"] cases old(2) have ord: "orderly (w_db w')"
    using orderly_cong [of "w_db w'" ?s] orderly_cong [of "w_db w'" "?s\<lparr>deliveries := x\<rparr>" for x] by auto
  have kept: "counts j c (w_db w')" if "counts j c ?s" "j \<noteq> i" for j c
    using counts_upd [OF that(1), of "\<lambda>d. dr_id d = i" "settled_row schedule ck out (now_ts ?s)"] that cases(2)
    by (auto simp: counts_def)
  have rec: "on_record ?s \<subseteq> on_record (w_db w')"
    by (rule grown_recorded [OF preservesD_eq [OF advance_table [OF history.table_law_axioms cs] grown_refl run]])
  have mine: "(i, ?n) \<in> on_record ?s" "(i, ?n) \<notin> set (held (A @ B))"
    using old(3) by (auto simp: made_once_def)
  have "in_turn (w_db w') t2" if t2: "t2 \<in> set (A @ B)" for t2
  proof -
    have turn: "in_turn ?s t2" using old(4) t2 by (simp add: list_all_iff)
    have only: "c = ?n - 1" if "counts i c ?s" for c using counts_fun [OF old(1) that own] .
    have "x \<in> set (held (A @ B))" if "x \<in> set (holds t2)" for x using that t2 by auto
    with mine(2) have not: "(i, ?n) \<notin> set (holds t2)" by blast
    show ?thesis
    proof (cases "\<exists>m2 j wd2. t2 = Inserting m2 j wd2")
      case True
      then obtain m2 j wd2 where t2: "t2 = Inserting m2 j wd2" by blast
      show ?thesis using turn kept only mine(1) rec by (cases "j = i") (fastforce simp: t2)+
    next
      case False
      then have plain: "in_turn s t2 = list_all (\<lambda>(j, n). counts j (n - 1) s) (holds t2)" for s by (cases t2) auto
      show ?thesis
        unfolding plain list_all_iff
      proof (intro ballI, clarify)
        fix j n assume h: "(j, n) \<in> set (holds t2)"
        then have c: "counts j (n - 1) ?s" using turn by (auto simp: plain list_all_iff)
        moreover have "j \<noteq> i"
        proof
          assume "j = i"
          with c only have "n - 1 = ?n - 1" by blast
          then have "n = ?n" by linarith
          with h not \<open>j = i\<close> show False by simp
        qed
        ultimately show "counts j (n - 1) (w_db w')" by (rule kept)
      qed
    qed
  qed
  moreover have "t' = Committing m" if "r = Inr (Some t')" for t'
    using run that by (auto simp: bindP_def split: prod.splits sum.splits)
  ultimately have "list_all (in_turn (w_db w')) ts'"
    by (auto simp: ts' list_all_iff split: sum.splits option.splits)
  with db ord once show ?thesis by (simp add: turns_def)
qed

lemma make_turns:
  assumes t: "turns (ts, w)" and p: "possible mv (ts, w)" and g: "loads_open mv (ts, w)"
    and mk: "make sys mv (ts, w) = (ts', w')"
  shows "turns (ts', w')"
proof -
  have old: "db_ok (w_db w)" "orderly (w_db w)" "made_once (ts, w)" "list_all (in_turn (w_db w)) ts"
    using t by (simp_all add: turns_def)
  have once: "made_once (ts', w')" by (rule make_once [OF old(3) p mk])
  from p mk show ?thesis
  proof (cases rule: make_cases)
    case (action a)
    have "guarded sys a w" using action(2,3) by (auto simp: guarded_def split: action.splits)
    then have "orderly (w_db w')" using perform_orderly [OF old(1,2)] action(5) by simp
    moreover have "list_all (in_turn (w_db w')) ts"
      using old(4) in_turn_mono [OF _ grown_recorded [OF perform_grown] perform_counts [OF action(3)]]
      by (auto simp: list_all_iff action(5))
    ultimately show ?thesis using perform_db_ok [OF old(1)] once action by (simp add: turns_def)
  next
    case (stepped A t B ck r)
    obtain cs where cs: "cs = None \<or> cs = Some worker_circuit_store"
      and cfg: "worker_of sys = NewWorker None cs (sy_CircuitCfg sys) (sy_peer sys) (sy_hop sys)"
      using worker_of_cs by blast
    note run = stepped(3) [unfolded cfg]
    show ?thesis
    proof (cases "\<exists>m i wd out. t = Marking m i wd out")
      case True
      then obtain m i wd out where mark: "t = Marking m i wd out" by blast
      show ?thesis
        by (rule make_marking [OF assms(1) [unfolded stepped(2) mark] once cs run [unfolded mark] stepped(4)])
    next
      case False
      show ?thesis
        by (rule make_attempt [OF assms(1) [unfolded stepped(2)] once cs run _ _ stepped(4)])
          (use False g in \<open>auto simp: loads_open_def stepped(1,2)\<close>)
    qed
  qed (use old once in \<open>auto simp: turns_def\<close>)
qed

lemma open_interleaved_turns: "open_interleaved sys tw0 tw \<Longrightarrow> turns tw0 \<Longrightarrow> turns tw"
proof (induction rule: open_interleaved.induct)
  case (further tw mv)
  then show ?case using make_turns [of "fst tw" "snd tw" mv sys] by (metis prod.collapse)
qed

text \<open>A delivery is in the hands of one thread at most.\<close>

lemma turns_exclusive:
  assumes t: "turns (ts, w)"
  shows "distinct (map fst (held ts))"
proof -
  have dist: "distinct (held ts)" and turn: "\<forall>t \<in> set ts. in_turn (w_db w) t" and ok: "db_ok (w_db w)"
    using t by (auto simp: turns_def made_once_def list_all_iff)
  have "counts (fst x) (snd x - 1) (w_db w)" if "t \<in> set ts" "x \<in> set (holds t)" for t x
    using bspec [OF turn that(1)] that(2) by (cases t) auto
  then have c: "counts (fst x) (snd x - 1) (w_db w)" if "x \<in> set (held ts)" for x using that by auto
  have "inj_on fst (set (held ts))"
  proof (rule inj_onI)
    fix x y assume xy: "x \<in> set (held ts)" "y \<in> set (held ts)" "fst x = fst y"
    from counts_fun [OF ok c [OF xy(1)] c [OF xy(2), folded xy(3)]] have "snd x = snd y" by linarith
    with xy(3) show "x = y" by (rule prod_eqI)
  qed
  with dist show ?thesis by (simp add: distinct_map)
qed

lemma make_db_ok:
  assumes "db_ok (w_db w)" and "possible mv (ts, w)" and "make sys mv (ts, w) = (ts', w')"
  shows "db_ok (w_db w')"
  using assms(2,3)
proof (cases rule: make_cases)
  case (stepped A t B ck r)
  obtain cs where cs: "cs = None \<or> cs = Some worker_circuit_store"
    and cfg: "worker_of sys = NewWorker None cs (sy_CircuitCfg sys) (sy_peer sys) (sy_hop sys)"
    using worker_of_cs by blast
  show ?thesis by (rule preservesD_eq [OF advance_db_ok [OF cs] assms(1) stepped(3) [unfolded cfg]])
qed (use assms(1) in \<open>simp_all add: perform_db_ok\<close>)

lemma interleaved_db_ok: "interleaved sys tw0 tw \<Longrightarrow> db_ok (w_db (snd tw0)) \<Longrightarrow> db_ok (w_db (snd tw))"
proof (induction rule: interleaved.induct)
  case (further tw mv)
  then show ?case using make_db_ok [of "snd tw" mv "fst tw" sys] by (metis prod.collapse)
qed

section \<open>Properties\<close>

text \<open>Two threads with the same delivery: both load it, one records the attempt, the other comes too late.\<close>

definition shared_delivery :: world where
  "shared_delivery = (sample_world sample_db)\<lparr>w_inbox := [\<lparr>m_Key = [], m_Value = []\<rparr>, \<lparr>m_Key = [], m_Value = []\<rparr>]\<rparr>"

definition race :: "nat \<Rightarrow> thread list \<times> world" where
  "race n = fold (make sample_deployment) (take n [Starts, Starts, GoesOn 0 sample_clock, GoesOn 1 sample_clock,
     GoesOn 0 sample_clock, GoesOn 1 sample_clock]) ([], shared_delivery)"

definition raced :: WorkerDelivery where
  "raced = \<lparr>wd_Delivery = scanDelivery sample_running, wd_EndpointURL = ''https://a.test/'',
     wd_Payload = ''{}'', wd_SigningSecret = ''k'', wd_EndpointCircuitState = ''closed''\<rparr>"

lemma race_steps:
  "race 0 = ([], shared_delivery)" "race (Suc 0) = make sample_deployment Starts (race 0)"
  "race 2 = make sample_deployment Starts (race (Suc 0))" "race 3 = make sample_deployment (GoesOn 0 sample_clock) (race 2)"
  "race 4 = make sample_deployment (GoesOn 1 sample_clock) (race 3)"
  "race 5 = make sample_deployment (GoesOn 0 sample_clock) (race 4)"
  "race 6 = make sample_deployment (GoesOn 1 sample_clock) (race 5)"
  by (simp_all add: race_def take_Cons')

lemma race_states:
  fixes m :: message and s1 :: db
  defines "m \<equiv> \<lparr>m_Key = [], m_Value = []\<rparr>"
    and "s1 \<equiv> sample_db\<lparr>uuid_pos := 1, attempts := [sample_attempt, started_attempt 30 3 sample_db]\<rparr>"
  shows "race 2 = ([Loading m 30, Loading m 30], sample_world sample_db)"
    and "race 3 = ([Inserting m 30 raced, Loading m 30], sample_world sample_db)"
    and "race 4 = ([Inserting m 30 raced, Inserting m 30 raced], sample_world sample_db)"
    and "race 5 = ([Sending m 30 raced 100, Inserting m 30 raced], sample_world s1)"
    and "race 6 = ([Sending m 30 raced 100], sample_world (s1\<lparr>uuid_pos := 2\<rparr>))"
proof -
  have row: "worker_row 30 sample_db = Some raced" by (simp add: worker_row_def raced_def sample_defs)
  have load: "DeliveryStore_LoadForWorker 30 sample_db = (Inr raced, sample_db)"
    by (rule LoadForWorker_row [OF _ row]) (simp add: sample_db_def)
  have new: "AttemptStore_InsertStarted 30 3 sample_db = (Inr 100, s1)"
    using InsertStarted_new [of sample_db 30 3] by (simp add: s1_def sample_defs used_keys_def started_attempt_def)
  have old: "AttemptStore_InsertStarted 30 3 s1 = (Inl (PgError unique_violation), s1\<lparr>uuid_pos := 2\<rparr>)"
    using InsertStarted_duplicate [of s1 "started_attempt 30 3 sample_db" 30 3]
    by (simp add: s1_def sample_db_def started_attempt_def)
  have seq: "seq_of raced = 3" by (simp add: raced_def scanDelivery_def sample_running_def)
  note defs = worker_of_def NewWorker_def bindP_def map_errP_def sample_deployment_def on_db_def sample_world_def
  show r2: "race 2 = ([Loading m 30, Loading m 30], sample_world sample_db)"
    by (simp add: race_steps(1-3) shared_delivery_def start_thread_def Consumer_FetchMessage_def defs m_def)
  show r3: "race 3 = ([Inserting m 30 raced, Loading m 30], sample_world sample_db)"
    by (simp add: race_steps(4) r2 defs load)
  show r4: "race 4 = ([Inserting m 30 raced, Inserting m 30 raced], sample_world sample_db)"
    by (simp add: race_steps(5) r3 defs load)
  show r5: "race 5 = ([Sending m 30 raced 100, Inserting m 30 raced], sample_world s1)"
    by (simp add: race_steps(6) r4 defs seq new)
  show "race 6 = ([Sending m 30 raced 100], sample_world (s1\<lparr>uuid_pos := 2\<rparr>))"
    by (simp add: race_steps(7) r5 defs seq old without_def)
qed

lemma race_runs: "open_interleaved sample_deployment ([], shared_delivery) (race 6)"
proof -
  let ?run = "open_interleaved sample_deployment ([], shared_delivery)"
  note cond = possible_def loads_open_def race_states
  have r0: "?run (race 0)" unfolding race_steps(1) by (rule open_interleaved.start)
  have r1: "?run (race (Suc 0))" unfolding race_steps(2) by (rule open_interleaved.further [OF r0]) (simp_all add: cond)
  have r2: "?run (race 2)" unfolding race_steps(3) by (rule open_interleaved.further [OF r1]) (simp_all add: cond)
  have r3: "?run (race 3)" unfolding race_steps(4)
    by (rule open_interleaved.further [OF r2]) (simp_all add: cond, simp add: sample_world_def sample_defs)
  have r4: "?run (race 4)" unfolding race_steps(5)
    by (rule open_interleaved.further [OF r3]) (simp_all add: cond, simp add: sample_world_def sample_defs)
  have r5: "?run (race 5)" unfolding race_steps(6) by (rule open_interleaved.further [OF r4]) (simp_all add: cond)
  show ?thesis unfolding race_steps(7) by (rule open_interleaved.further [OF r5]) (simp_all add: cond)
qed

lemma open_interleaved_runs: "open_interleaved sys tw0 tw \<Longrightarrow> interleaved sys tw0 tw"
  by (induction rule: open_interleaved.induct) (auto intro: interleaved.intros)

lemma shared_delivery_fields:
  "w_db shared_delivery = sample_db" "w_sent shared_delivery = []"
  by (simp_all add: shared_delivery_def sample_world_def)


text \<open>C10. Workers side by side never make an attempt twice: however the steps of any number of worker
  threads, of the API, of scheduler and reaper are interleaved, and whichever threads stop half way, the
  attempts the threads have in their hands are recorded and pairwise different, and no more
  requests were sent than attempts recorded; the database stays consistent.\<close>

theorem no_attempt_is_made_twice:
  assumes "db_ok (w_db w0)" and "length (w_sent w0) \<le> length (attempts (w_db w0))"
    and "interleaved sys ([], w0) (ts, w)"
  shows "db_ok (w_db w) \<and> distinct (held ts) \<and> set (held ts) \<subseteq> on_record (w_db w) \<and>
    length (w_sent w) \<le> length (attempts (w_db w))"
proof -
  have "made_once ([], w0)" using assms(2) by (simp add: made_once_def)
  from interleaved_once [OF assms(3) this] interleaved_db_ok [OF assms(3)] assms(1)
  show ?thesis by (auto simp: made_once_def)
qed

theorem no_attempt_is_made_twice_witness:
  "held (fst (race 6)) = [(30, 3)] \<and> (30, 3) \<in> on_record (w_db (snd (race 6)))"
proof -
  have run: "interleaved sample_deployment ([], shared_delivery) (fst (race 6), snd (race 6))"
    using open_interleaved_runs [OF race_runs] by simp
  have "held (fst (race 6)) = [(30, 3)]"
    by (simp add: race_states(5) raced_def scanDelivery_def sample_running_def)
  with no_attempt_is_made_twice [OF _ _ run] show ?thesis
    by (simp add: shared_delivery_fields sample_db_ok)
qed



end
