(* ===== verification/Submissions.thy ===== *)
theory Submissions
  imports Traffic
begin

text \<open>
  Submissions at the same time.  In \<open>System\<close> a submission is one step; here
  \<open>EventService.Submit\<close> is cut where another request can come between: after the checks, at the
  begin of the transaction, at the advisory lock, and between the lookup of the idempotency record
  and the writes.  \<open>NOW()\<close> is the same in all statements of a transaction, the time of its begin.
  What a transaction writes is visible to others from its commit on, so its writes
  and the commit are one step; what it read may be old by then, and it is the advisory
  lock alone that keeps two submissions with one key apart.
\<close>

section \<open>The stages of a submission\<close>

record submission =
  sb_Endpoint :: uuid
  sb_Payload :: "bytes option"
  sb_Key :: string
  sb_Raw :: bytes
  sb_Tenant :: uuid

datatype stage =
    Checking
  | Beginning
  | Locking instant
  | Looking instant
  | Writing instant "IdempotencyRecord option"

datatype progress = Next stage | Answered "Delivery option"

text \<open>The checks before the transaction, and the body of the transaction after the key is claimed.\<close>

definition submit_checks :: "submission \<Rightarrow> unit dbprog" where
  "submit_checks r =
     bindP (EndpointService_Get endpoint_service (sb_Endpoint r)) (\<lambda>ep.
     bindP (check_tenant_exists endpoint_service (sb_Tenant r)) (\<lambda>_.
       if ep_TenantID ep \<noteq> sb_Tenant r then failP ErrTenantEndpointMismatch else returnP ()))"

definition submit_rows :: "(bytes \<Rightarrow> bytes option) \<Rightarrow> submission \<Rightarrow> (err, db \<times> Delivery option, unit) prog" where
  "submit_rows jsonb r =
     bindP (liftV (map_errP (Wrap ''insert event'')
              (stmt (insert_event_values jsonb (sb_Endpoint r) (sb_Tenant r) (sb_Payload r))))) (\<lambda>v.
     bindP (liftV (map_errP (Wrap ''insert delivery'')
              (stmt (with_state (\<lambda>s. insert_delivery (new_delivery (vr_id v) (sb_Endpoint r) None (now_ts s) (sb_Tenant r))))))) (\<lambda>d.
     bindP (setV (Some (scanDelivery d))) (\<lambda>_.
       if sb_Key r \<noteq> [] then liftV (IdempotencyTxStore_Complete (sb_Endpoint r) (sb_Key r) (vr_id v) (dr_id d))
       else returnP ())))"

definition submit_writes ::
  "(bytes \<Rightarrow> bytes option) \<Rightarrow> submission \<Rightarrow> IdempotencyRecord option \<Rightarrow> (err, db \<times> Delivery option, unit) prog" where
  "submit_writes jsonb r found =
     bindP (if sb_Key r \<noteq> [] then claim_unless_cached (sb_Endpoint r) (sb_Key r) (sb_Raw r) found else returnP ())
       (\<lambda>_. submit_rows jsonb r)"

text \<open>The end of \<open>InTx\<close>: commit, or roll back to the state of the begin.\<close>

definition end_tx :: "db \<Rightarrow> (err + 'a) \<times> db \<times> 'v \<Rightarrow> (err + 'a) \<times> db \<times> 'v" where
  "end_tx s1 res = (case res of
     (Inl e, (s2, v)) \<Rightarrow> (Inl e, (rollback s1 s2, v))
   | (Inr x, (s2, v)) \<Rightarrow> (case faults s2 of
       LostRequest # fs \<Rightarrow> (Inl (Wrap ''commit tx'' ErrConn), (rollback s1 (s2\<lparr>faults := fs\<rparr>), v))
     | LostAnswer # fs \<Rightarrow> (Inl (Wrap ''commit tx'' ErrConn), (s2\<lparr>faults := fs\<rparr>, v))
     | Fine # fs \<Rightarrow> (Inr x, (s2\<lparr>faults := fs\<rparr>, v))
     | [] \<Rightarrow> (Inr x, (s2, v))))"

definition submit_answer :: "(err + unit) \<times> db \<times> Delivery option \<Rightarrow> (err + progress) \<times> db" where
  "submit_answer res = (case res of
     (Inr _, (s', d)) \<Rightarrow> (Inr (Answered d), s')
   | (Inl e, (s', d)) \<Rightarrow> if e = ErrCachedResult then (Inr (Answered d), s') else (Inl (Wrap ''submit event'' e), s'))"

text \<open>Inside a transaction the clock stands.\<close>

definition at_time :: "instant \<Rightarrow> 'a dbprog \<Rightarrow> 'a dbprog" where
  "at_time t m s = (case m (s\<lparr>now_ts := t\<rparr>) of (x, s') \<Rightarrow> (x, s'\<lparr>now_ts := now_ts s\<rparr>))"

fun submit_stage :: "(bytes \<Rightarrow> bytes option) \<Rightarrow> submission \<Rightarrow> stage \<Rightarrow> progress dbprog" where
  "submit_stage jsonb r Checking = bindP (submit_checks r) (\<lambda>_. returnP (Next Beginning))"
| "submit_stage jsonb r Beginning =
     map_errP (\<lambda>e. Wrap ''submit event'' (Wrap ''begin tx'' e))
       (bindP (stmt (returnP ())) (\<lambda>_. with_state (\<lambda>s.
          returnP (Next (if sb_Key r \<noteq> [] then Locking (now_ts s) else Writing (now_ts s) None)))))"
| "submit_stage jsonb r (Locking t) =
     map_errP (Wrap ''submit event'')
       (bindP (IdempotencyTxStore_AcquireAdvisoryLock (sb_Endpoint r) (sb_Key r)) (\<lambda>_. returnP (Next (Looking t))))"
| "submit_stage jsonb r (Looking t) =
     map_errP (Wrap ''submit event'')
       (bindP (at_time t (IdempotencyTxStore_Lookup (sb_Endpoint r) (sb_Key r))) (\<lambda>found. returnP (Next (Writing t found))))"
| "submit_stage jsonb r (Writing t found) =
     at_time t (\<lambda>s. submit_answer (end_tx s (submit_writes jsonb r found (s, None))))"

section \<open>Undisturbed, the stages are the code\<close>

fun stages_left :: "stage \<Rightarrow> nat" where
  "stages_left Checking = 4" | "stages_left Beginning = 3" | "stages_left (Locking t) = 2"
| "stages_left (Looking t) = 1" | "stages_left (Writing t found) = 0"

lemma submit_stage_left:
  "submit_stage jsonb r st s = (Inr (Next st'), s') \<Longrightarrow> stages_left st' < stages_left st"
  by (cases st) (auto simp: bindP_def map_errP_def at_time_def submit_answer_def split: prod.splits sum.splits if_splits)

function run_submission :: "(bytes \<Rightarrow> bytes option) \<Rightarrow> submission \<Rightarrow> stage \<Rightarrow> Delivery option dbprog" where
  "run_submission jsonb r st s =
     (case submit_stage jsonb r st s of
        (Inl e, s') \<Rightarrow> (Inl e, s')
      | (Inr (Answered d), s') \<Rightarrow> (Inr d, s')
      | (Inr (Next st'), s') \<Rightarrow> run_submission jsonb r st' s')"
  by pat_completeness auto
termination
  by (relation "measure (\<lambda>(jsonb, r, st, s). stages_left st)") (simp_all, metis submit_stage_left)

declare run_submission.simps [simp del]

lemma InTx_end:
  "InTx fn (s, v) = (case stmt (returnP ()) s of
     (Inl e, s1) \<Rightarrow> (Inl (Wrap ''begin tx'' e), (s1, v))
   | (Inr _, s1) \<Rightarrow> end_tx s1 (fn (s1, v)))"
  by (auto simp: InTx_def end_tx_def split: prod.splits sum.splits list.splits)

lemma rollback_same: "same_tables s1 s2 \<Longrightarrow> rollback s1 s2 = s2"
  by (simp add: same_tables_def rollback_def)

lemma rollback_from: "same_tables s1 s \<Longrightarrow> rollback s z = rollback s1 z"
  by (auto simp: same_tables_iff rollback_def intro!: db.equality)

lemma end_tx_from: "same_tables s1 s \<Longrightarrow> end_tx s res = end_tx s1 res"
  using rollback_from by (auto simp: end_tx_def split: prod.splits sum.splits list.splits fault.splits)

lemma at_time_now:
  assumes "preserves (\<lambda>v. now_ts v = now_ts s) m"
  shows "at_time (now_ts s) m s = m s"
proof -
  have "now_ts (snd (m s)) = now_ts s" using preservesD [OF assms, of s] by simp
  moreover have "s\<lparr>now_ts := now_ts s\<rparr> = s" by simp
  ultimately show ?thesis by (auto simp: at_time_def split: prod.splits intro!: db.equality)
qed

interpretation standing: table_law "\<lambda>s. now_ts s = u" for u
  by unfold_locales (auto simp: table_pred_def)

interpretation standing_services: service_law "\<lambda>s. now_ts s = u" for u
  by unfold_locales (auto simp: table_pred_def)

lemma submit_writes_clock: "preserves (\<lambda>sv. now_ts (fst sv) = n) (submit_writes jsonb r found)"
proof -
  have "preserves (\<lambda>sv. now_ts (fst sv) = n) (claim_unless_cached e k raw x)" for e k raw x
    unfolding claim_unless_cached_def Let_def by (intro standing.laws standing.idempotency_store)
  then show ?thesis
    unfolding submit_writes_def submit_rows_def
    by (intro standing.laws standing.idempotency_store standing.event_values preserves_self standing.delivery_inserted) simp_all
qed

lemma submit_body_stages:
  "submit_body jsonb (sb_Endpoint r) (sb_Payload r) (sb_Key r) (sb_Raw r) (sb_Tenant r) =
     (if sb_Key r = [] then submit_writes jsonb r None
      else bindP (liftV (IdempotencyTxStore_AcquireAdvisoryLock (sb_Endpoint r) (sb_Key r))) (\<lambda>_.
           bindP (liftV (IdempotencyTxStore_Lookup (sb_Endpoint r) (sb_Key r))) (submit_writes jsonb r)))"
proof -
  have "submit_body jsonb (sb_Endpoint r) (sb_Payload r) (sb_Key r) (sb_Raw r) (sb_Tenant r) =
      bindP (if sb_Key r \<noteq> [] then claim_key (sb_Endpoint r) (sb_Key r) (sb_Raw r) else returnP ()) (\<lambda>_. submit_rows jsonb r)"
    by (simp add: submit_body_def submit_rows_def)
  then show ?thesis by (simp add: submit_writes_def [abs_def] claim_key_def bindP_assoc)
qed

text \<open>From each stage on, if nothing else happens.\<close>

lemma run_writing:
  assumes "now_ts s = t"
  shows "run_submission jsonb r (Writing t found) s =
    (case end_tx s (submit_writes jsonb r found (s, None)) of
       (Inr _, (s', d)) \<Rightarrow> (Inr d, s')
     | (Inl e, (s', d)) \<Rightarrow> if e = ErrCachedResult then (Inr d, s') else (Inl (Wrap ''submit event'' e), s'))"
proof -
  have s: "s\<lparr>now_ts := t\<rparr> = s" using assms by simp
  obtain q s' d where run: "submit_writes jsonb r found (s, None) = (q, (s', d))"
    by (cases "submit_writes jsonb r found (s, None)") auto
  have "now_ts s' = now_ts s"
    using preservesD_eq [OF submit_writes_clock _ run, of "now_ts s"] by simp
  then have keep: "v\<lparr>now_ts := now_ts s\<rparr> = v" if "end_tx s (q, (s', d)) = (x, (v, d'))" for x v d'
    using that by (auto simp: end_tx_def rollback_def split: sum.splits list.splits fault.splits)
  obtain x v d' where e: "end_tx s (q, (s', d)) = (x, (v, d'))" by (cases "end_tx s (q, (s', d))") auto
  with keep have v: "v\<lparr>now_ts := now_ts s\<rparr> = v" by blast
  show ?thesis
    by (subst run_submission.simps) (auto simp: at_time_def s run e v submit_answer_def split: sum.splits)
qed

lemma run_looking:
  assumes "now_ts s = t" and "same_tables s0 s"
  shows "run_submission jsonb r (Looking t) s =
    (case end_tx s0 (bindP (liftV (IdempotencyTxStore_Lookup (sb_Endpoint r) (sb_Key r))) (submit_writes jsonb r) (s, None)) of
       (Inr _, (s', d)) \<Rightarrow> (Inr d, s')
     | (Inl e, (s', d)) \<Rightarrow> if e = ErrCachedResult then (Inr d, s') else (Inl (Wrap ''submit event'' e), s'))"
proof -
  let ?look = "IdempotencyTxStore_Lookup (sb_Endpoint r) (sb_Key r)"
  have here: "at_time t ?look s = ?look s"
    using at_time_now [OF standing.idempotency_store(2), of s] assms(1) by simp
  obtain q s' where look: "?look s = (q, s')" by fastforce
  have "same_tables s s'"
    using look by (auto simp: IdempotencyTxStore_Lookup_def map_errP_def stmt_read_same split: prod.splits sum.splits)
  then have st: "same_tables s0 s'" "now_ts s' = t" using assms same_tables_trans by (auto simp: same_tables_iff)
  show ?thesis
  proof (cases q)
    case (Inl e)
    then have "e \<noteq> ErrCachedResult" using look by (auto simp: IdempotencyTxStore_Lookup_def dest: map_errP_Wrap_neq)
    with look Inl here st rollback_same [OF st(1)] show ?thesis
      by (subst run_submission.simps) (simp add: bindP_def map_errP_def liftV_def end_tx_def)
  next
    case (Inr found)
    with look here st show ?thesis
      by (subst run_submission.simps) (simp add: bindP_def map_errP_def liftV_def run_writing end_tx_from [OF st(1)])
  qed
qed

lemma run_transaction:
  assumes "now_ts s = t"
  shows "run_submission jsonb r (if sb_Key r \<noteq> [] then Locking t else Writing t None) s =
    (case end_tx s (submit_body jsonb (sb_Endpoint r) (sb_Payload r) (sb_Key r) (sb_Raw r) (sb_Tenant r) (s, None)) of
       (Inr _, (s', d)) \<Rightarrow> (Inr d, s')
     | (Inl e, (s', d)) \<Rightarrow> if e = ErrCachedResult then (Inr d, s') else (Inl (Wrap ''submit event'' e), s'))"
proof (cases "sb_Key r = []")
  case True
  with assms show ?thesis unfolding submit_body_stages by (simp add: run_writing)
next
  case False
  let ?lock = "IdempotencyTxStore_AcquireAdvisoryLock (sb_Endpoint r) (sb_Key r)"
  obtain q s' where lock: "?lock s = (q, s')" by fastforce
  then have st: "same_tables s s'" by (rule lock_same)
  then have t: "now_ts s' = t" using assms by (simp add: same_tables_iff)
  show ?thesis
  proof (cases q)
    case (Inl e)
    then have "e \<noteq> ErrCachedResult" using lock by (auto simp: IdempotencyTxStore_AcquireAdvisoryLock_def dest: map_errP_Wrap_neq)
    with lock Inl rollback_same [OF st] False show ?thesis
      by (subst run_submission.simps) (simp add: submit_body_stages bindP_def map_errP_def liftV_def end_tx_def)
  next
    case (Inr u)
    with lock False show ?thesis
      by (subst run_submission.simps)
        (simp add: submit_body_stages bindP_def [of "liftV ?lock"] bindP_def [of ?lock] map_errP_def liftV_def [of ?lock] run_looking [OF t st])
  qed
qed

lemma run_beginning:
  "run_submission jsonb r Beginning s =
    (case InTx (submit_body jsonb (sb_Endpoint r) (sb_Payload r) (sb_Key r) (sb_Raw r) (sb_Tenant r)) (s, None) of
       (Inr _, (s', d)) \<Rightarrow> (Inr d, s')
     | (Inl e, (s', d)) \<Rightarrow> if e = ErrCachedResult then (Inr d, s') else (Inl (Wrap ''submit event'' e), s'))"
proof -
  obtain q s1 where b: "stmt (returnP ()) s = (q, s1)" by (cases "stmt (returnP ()) s :: (err + unit) \<times> db")
  show ?thesis
  proof (cases q)
    case (Inl e)
    with b show ?thesis by (subst run_submission.simps) (simp add: InTx_end bindP_def map_errP_def)
  next
    case (Inr u)
    have "run_submission jsonb r Beginning s =
        run_submission jsonb r (if sb_Key r \<noteq> [] then Locking (now_ts s1) else Writing (now_ts s1) None) s1"
      using b Inr by (subst run_submission.simps) (simp add: bindP_def map_errP_def)
    with run_transaction [OF refl, of jsonb r s1] b Inr show ?thesis by (simp add: InTx_end)
  qed
qed

lemma run_checking:
  "run_submission jsonb r Checking s =
     submit jsonb (sb_Endpoint r) (sb_Payload r) (sb_Key r) (sb_Raw r) (sb_Tenant r) s"
proof -
  have "run_submission jsonb r Checking = bindP (submit_checks r) (\<lambda>_. run_submission jsonb r Beginning)"
    by (rule ext, subst run_submission.simps) (auto simp: bindP_def split: prod.splits sum.splits)
  then show ?thesis
    by (auto simp: submit_checks_def EventService_Submit_def run_beginning bindP_def split: prod.splits sum.splits)
qed


section \<open>Many submissions\<close>

text \<open>A submission holds the advisory lock of its key from the lookup on, to the end of its
  transaction; \<open>pg_advisory_xact_lock\<close> waits while another transaction holds it.\<close>

fun locks :: "submission \<times> stage \<Rightarrow> int list" where
  "locks (r, Looking t) = (if sb_Key r \<noteq> [] then [lockKey (sb_Endpoint r) (sb_Key r)] else [])"
| "locks (r, Writing t found) = (if sb_Key r \<noteq> [] then [lockKey (sb_Endpoint r) (sb_Key r)] else [])"
| "locks _ = []"

abbreviation locked :: "(submission \<times> stage) list \<Rightarrow> int list" where
  "locked xs \<equiv> concat (map locks xs)"

text \<open>A request arrives, goes on by one stage, or is given up (its connection is lost and the
  transaction rolled back); every other action of the service and its environment may come between.\<close>

datatype submission_move = Meanwhile action | Arrives submission | Proceeds nat | GivesUp nat

fun occur :: "deployment \<Rightarrow> submission_move \<Rightarrow> (submission \<times> stage) list \<times> world \<Rightarrow> (submission \<times> stage) list \<times> world" where
  "occur sys (Meanwhile a) (xs, w) = (xs, perform sys a w)"
| "occur sys (Arrives r) (xs, w) = (xs @ [(r, Checking)], w)"
| "occur sys (Proceeds k) (xs, w) =
     (case submit_stage (sy_jsonb sys) (fst (xs ! k)) (snd (xs ! k)) (w_db w) of
        (Inr (Next st), s') \<Rightarrow> (xs[k := (fst (xs ! k), st)], w\<lparr>w_db := s'\<rparr>)
      | (_, s') \<Rightarrow> (without k xs, w\<lparr>w_db := s'\<rparr>))"
| "occur sys (GivesUp k) (xs, w) = (without k xs, w)"

definition can_occur :: "submission_move \<Rightarrow> (submission \<times> stage) list \<times> world \<Rightarrow> bool" where
  "can_occur mv xw \<longleftrightarrow> (case mv of
     Meanwhile a \<Rightarrow> allowed a (snd xw) \<and> (\<forall>e payload k raw t. a \<noteq> SubmitEvent e payload k raw t)
   | Arrives r \<Rightarrow> True
   | Proceeds k \<Rightarrow> k < length (fst xw) \<and> (case fst xw ! k of
       (r, Locking t) \<Rightarrow> lockKey (sb_Endpoint r) (sb_Key r) \<notin> set (locked (fst xw)) | _ \<Rightarrow> True)
   | GivesUp k \<Rightarrow> k < length (fst xw))"

inductive overlapping ::
  "deployment \<Rightarrow> (submission \<times> stage) list \<times> world \<Rightarrow> (submission \<times> stage) list \<times> world \<Rightarrow> bool" for sys xw0 where
  start: "overlapping sys xw0 xw0"
| further: "overlapping sys xw0 xw \<Longrightarrow> can_occur mv xw \<Longrightarrow> overlapping sys xw0 (occur sys mv xw)"

section \<open>What a submission relies on\<close>

definition admitted :: "submission \<Rightarrow> db \<Rightarrow> bool" where
  "admitted r s \<longleftrightarrow> (\<exists>e \<in> set (endpoints s). er_id e = sb_Endpoint r \<and> er_tenant_id e = sb_Tenant r)"

text \<open>What it found at its time is what it would find now, or the record has been purged since.\<close>

definition read_ok :: "submission \<Rightarrow> instant \<Rightarrow> IdempotencyRecord option \<Rightarrow> db \<Rightarrow> bool" where
  "read_ok r t found s \<longleftrightarrow> (sb_Key r \<noteq> [] \<longrightarrow>
     (\<forall>rec. found = Some rec \<longrightarrow> ix_Complete rec) \<and>
     (\<forall>i \<in> set (idempotency_records s). has_key (sb_Endpoint r) (sb_Key r) i \<longrightarrow>
        (case found of None \<Rightarrow> ir_expires_at i < t | Some rec \<Rightarrow> scanIdempotency i = rec)))"

fun stage_ok :: "db \<Rightarrow> submission \<times> stage \<Rightarrow> bool" where
  "stage_ok s (r, Checking) \<longleftrightarrow> True"
| "stage_ok s (r, Beginning) \<longleftrightarrow> admitted r s"
| "stage_ok s (r, Locking t) \<longleftrightarrow> admitted r s \<and> t \<le> now_ts s \<and> sb_Key r \<noteq> []"
| "stage_ok s (r, Looking t) \<longleftrightarrow> admitted r s \<and> t \<le> now_ts s \<and> sb_Key r \<noteq> []"
| "stage_ok s (r, Writing t found) \<longleftrightarrow> admitted r s \<and> t \<le> now_ts s \<and> read_ok r t found s \<and> (sb_Key r = [] \<longrightarrow> found = None)"

definition lawful :: "(submission \<times> stage) list \<times> world \<Rightarrow> bool" where
  "lawful xw \<longleftrightarrow> db_ok (w_db (snd xw)) \<and> list_all (stage_ok (w_db (snd xw))) (fst xw) \<and> distinct (locked (fst xw))"

text \<open>Endpoints stay, the clock goes on, and no record of a locked key appears.\<close>

lemma stage_ok_later:
  assumes ok: "stage_ok s (r, st)" and ep: "endpoint_key ` set (endpoints s) \<subseteq> endpoint_key ` set (endpoints s')"
    and now: "now_ts s \<le> now_ts s'"
    and rec: "\<And>i. i \<in> set (idempotency_records s') \<Longrightarrow> has_key (sb_Endpoint r) (sb_Key r) i \<Longrightarrow> locks (r, st) \<noteq> [] \<Longrightarrow>
      i \<in> set (idempotency_records s)"
  shows "stage_ok s' (r, st)"
proof -
  have adm: "admitted r s'" if "admitted r s"
  proof -
    from that obtain e where e: "e \<in> set (endpoints s)" "er_id e = sb_Endpoint r" "er_tenant_id e = sb_Tenant r"
      by (auto simp: admitted_def)
    then have "endpoint_key e \<in> endpoint_key ` set (endpoints s')" using ep by blast
    with e show ?thesis by (auto simp: admitted_def endpoint_key_def)
  qed
  have "read_ok r t found s'" if "read_ok r t found s" "st = Writing t found" for t found
    using that rec by (fastforce simp: read_ok_def)
  with ok adm now show ?thesis by (cases st) auto
qed

section \<open>The write\<close>

lemma has_key_rows [simp]:
  "has_key e k (reclaimed_row h x i) = has_key e k i" "has_key e k (completed_row v d i) = has_key e k i"
  "has_key e k \<lparr>ir_id = n, ir_endpoint_id = e', ir_key = k', ir_payload_hash = h, ir_event_id = v',
     ir_delivery_id = d', ir_created_at = y, ir_expires_at = x\<rparr> = (e' = e \<and> k' = k)"
  by (auto simp: has_key_def reclaimed_row_def completed_row_def)

abbreviation others :: "uuid \<Rightarrow> string \<Rightarrow> db \<Rightarrow> idempotency_row list" where
  "others e k s \<equiv> filter (\<lambda>i. \<not> has_key e k i) (idempotency_records s)"

lemma filter_others_upd:
  "(\<And>i. p i \<Longrightarrow> has_key e k i) \<Longrightarrow> (\<And>i. p i \<Longrightarrow> has_key e k (f i)) \<Longrightarrow>
   filter (\<lambda>i. \<not> has_key e k i) (upd_where p f rows) = filter (\<lambda>i. \<not> has_key e k i) rows"
  by (induction rows) (auto simp: upd_where_def)

lemma claim_others:
  assumes "upsert_claim e k h s1 = (Inr (), s2)"
  shows "others e k s2 = others e k s1"
proof -
  have "filter (\<lambda>i. \<not> has_key e k i) (upd_where (\<lambda>r. has_key e k r \<and> ir_expires_at r < now_ts s1)
      (reclaimed_row h (now_ts s1 + window)) (idempotency_records s1)) = others e k s1"
    by (rule filter_others_upd) simp_all
  with assms show ?thesis by (auto simp: upsert_claim_def Let_def split: if_splits)
qed

lemma complete_others: "set_complete e k v d s1 = (Inr (), s2) \<Longrightarrow> others e k s2 = others e k s1"
  by (drule set_complete_Inr) (simp add: filter_others_upd)

lemma body_others:
  assumes "submit_body jsonb e payload k raw t (s, v0) = (Inr (), (s', d))"
  shows "others e k s' = others e k s" and "k = [] \<Longrightarrow> idempotency_records s' = idempotency_records s"
proof -
  from assms have "others e k s' = others e k s \<and> (k = [] \<longrightarrow> idempotency_records s' = idempotency_records s)"
  proof (rule submit_body_trace, goal_cases)
    case (1 s1 s2 s3 s4 s5 s6 v r)
    have "idempotency_records s6 = idempotency_records s1"
      using 1(2-6) by (auto simp: same_tables_iff insert_event_values_Inr insert_delivery_Inr)
    then have same: "others e k s6 = others e k s1" by simp
    show ?case
    proof (cases "k = []")
      case True
      with 1(1,8) \<open>idempotency_records s6 = idempotency_records s1\<close> show ?thesis by (simp add: same_tables_iff)
    next
      case False
      with 1(1) obtain s0 where "same_tables s s0" "upsert_claim e k (PayloadHash raw) s0 = (Inr (), s1)" by auto
      then have "others e k s1 = others e k s" by (simp add: claim_others same_tables_iff)
      moreover have "others e k s' = others e k s6" using False 1(8) by (simp add: complete_others)
      ultimately show ?thesis using False same by simp
    qed
  qed
  then show "others e k s' = others e k s" "k = [] \<Longrightarrow> idempotency_records s' = idempotency_records s" by auto
qed

text \<open>When the record found is still what a lookup would find, the writes are the whole body of
  the transaction.\<close>

lemma writes_are_body:
  assumes "sb_Key r \<noteq> []" and "found = map_option scanIdempotency (valid_record (sb_Endpoint r) (sb_Key r) s)"
  shows "submit_writes jsonb r found (s, v) =
    submit_body jsonb (sb_Endpoint r) (sb_Payload r) (sb_Key r) (sb_Raw r) (sb_Tenant r) (s\<lparr>faults := Fine # Fine # faults s\<rparr>, v)"
proof -
  have "IdempotencyTxStore_AcquireAdvisoryLock e k (s\<lparr>faults := Fine # fs\<rparr>) = (Inr (), s\<lparr>faults := fs\<rparr>)" for e k fs
    by (simp add: IdempotencyTxStore_AcquireAdvisoryLock_def stmt_def map_errP_def)
  moreover have "IdempotencyTxStore_Lookup (sb_Endpoint r) (sb_Key r) (s\<lparr>faults := Fine # fs\<rparr>) = (Inr found, s\<lparr>faults := fs\<rparr>)" for fs
    using assms(2) by (simp add: IdempotencyTxStore_Lookup_def stmt_def map_errP_def)
  ultimately show ?thesis
    using assms(1) unfolding submit_body_stages by (simp add: bindP_def [of "liftV _"] liftV_def)
qed

text \<open>What a write comes to: nothing, or the commit of the whole body at the time of the begin.\<close>

definition committed_at ::
  "(bytes \<Rightarrow> bytes option) \<Rightarrow> submission \<Rightarrow> instant \<Rightarrow> db \<Rightarrow> Delivery option \<Rightarrow> db \<Rightarrow> bool" where
  "committed_at jsonb r t s d s' \<longleftrightarrow> (\<exists>a b. same_tables (s\<lparr>now_ts := t\<rparr>) a \<and>
     submit_body jsonb (sb_Endpoint r) (sb_Payload r) (sb_Key r) (sb_Raw r) (sb_Tenant r) (a, None) = (Inr (), (b, d)) \<and>
     same_tables (b\<lparr>now_ts := now_ts s\<rparr>) s')"

lemma writing_cases:
  assumes read: "read_ok r t found s" and plain: "sb_Key r = [] \<longrightarrow> found = None"
    and run: "submit_stage jsonb r (Writing t found) s = (x, s')"
  obtains
    (cached) rec where "found = Some rec" and "same_tables s s'"
      and "x = (if ix_PayloadHash rec = PayloadHash (sb_Raw r) then Inr (Answered (Some (cached_delivery rec (sb_Endpoint r))))
             else Inl (Wrap ''submit event'' ErrConflict))"
  | (failed) e where "found = None" and "same_tables s s'" and "x = Inl (Wrap ''submit event'' e)"
  | (written) d where "found = None" and "committed_at jsonb r t s d s'" and "x = Inr (Answered d) \<or> (\<exists>e. x = Inl e)"
proof -
  let ?s = "s\<lparr>now_ts := t\<rparr>"
  obtain q b d where w: "submit_writes jsonb r found (?s, None) = (q, (b, d))"
    by (cases "submit_writes jsonb r found (?s, None)") auto
  have x: "(x, s') = (case submit_answer (end_tx ?s (q, (b, d))) of (x, s') \<Rightarrow> (x, s'\<lparr>now_ts := now_ts s\<rparr>))"
    using run w by (simp add: at_time_def)
  have rb: "same_tables s ((rollback ?s z)\<lparr>now_ts := now_ts s\<rparr>)" "same_tables s ((rollback ?s z)\<lparr>faults := fs, now_ts := now_ts s\<rparr>)" for z fs
    by (simp_all add: same_tables_iff rollback_def)
  show thesis
  proof (cases found)
    case (Some rec)
    with plain have k: "sb_Key r \<noteq> []" by auto
    with read Some have "ix_Complete rec" by (simp add: read_ok_def)
    with w Some k have "q = Inl (if ix_PayloadHash rec = PayloadHash (sb_Raw r) then ErrCachedResult else ErrConflict)"
        "ix_PayloadHash rec = PayloadHash (sb_Raw r) \<Longrightarrow> d = Some (cached_delivery rec (sb_Endpoint r))"
      by (auto simp: submit_writes_def claim_unless_cached_def Let_def bindP_def failP_def split: if_splits)
    with x rb show thesis
      by (intro cached [OF Some]) (auto simp: end_tx_def submit_answer_def split: if_splits)
  next
    case None
    let ?body = "submit_body jsonb (sb_Endpoint r) (sb_Payload r) (sb_Key r) (sb_Raw r) (sb_Tenant r)"
    have "valid_record (sb_Endpoint r) (sb_Key r) ?s = None" if "sb_Key r \<noteq> []"
      using read None that by (auto simp: read_ok_def valid_record_def find_None_iff)
    then have "\<exists>fs. submit_writes jsonb r found (?s, None) = ?body (?s\<lparr>faults := fs\<rparr>, None)"
    proof (cases "sb_Key r = []")
      case True
      then have "submit_writes jsonb r None (?s, None) = ?body (?s\<lparr>faults := faults s\<rparr>, None)"
        unfolding submit_body_stages by simp
      with None show ?thesis by blast
    next
      case False
      with writes_are_body [of r None ?s jsonb None] None \<open>sb_Key r \<noteq> [] \<Longrightarrow> _\<close> show ?thesis by auto
    qed
    then obtain fs where body: "?body (?s\<lparr>faults := fs\<rparr>, None) = (q, (b, d))" using w by auto
    show thesis
    proof (cases q)
      case (Inl e)
      then have "e \<noteq> ErrCachedResult"
        using body submit_body_unwrapped [of jsonb "sb_Endpoint r" "sb_Payload r" "sb_Key r" "sb_Raw r" "sb_Tenant r" "?s\<lparr>faults := fs\<rparr>" None e b d]
          claim_key_unwrapped [of "sb_Endpoint r" "sb_Key r" "sb_Raw r" "?s\<lparr>faults := fs\<rparr>" None e b d]
          \<open>sb_Key r \<noteq> [] \<Longrightarrow> _\<close> by auto
      with Inl x rb show thesis by (intro failed [OF None]) (auto simp: end_tx_def submit_answer_def)
    next
      case (Inr u)
      with body have fin: "?body (?s\<lparr>faults := fs\<rparr>, None) = (Inr (), (b, d))" by simp
      consider (rolled_back) e where "same_tables s s'" "x = Inl (Wrap ''submit event'' e)"
        | (kept) "same_tables (b\<lparr>now_ts := now_ts s\<rparr>) s'" "x = Inr (Answered d) \<or> (\<exists>e. x = Inl e)"
        using x Inr rb
        by (auto simp: end_tx_def submit_answer_def same_tables_iff rollback_def split: list.splits fault.splits)
      then show thesis
      proof cases
        case rolled_back
        then show thesis by (rule failed [OF None])
      next
        case kept
        moreover have "same_tables ?s (?s\<lparr>faults := fs\<rparr>)" by (simp add: same_tables_iff)
        ultimately show thesis using written [OF None _ kept(2)] fin by (auto simp: committed_at_def)
      qed
    qed
  qed
qed

lemma committed_effects:
  assumes ok: "db_ok s" and adm: "admitted r s" and com: "committed_at jsonb r t s d s'"
  shows "db_ok s'" and "endpoints s' = endpoints s" and "now_ts s' = now_ts s"
    and "others (sb_Endpoint r) (sb_Key r) s' = others (sb_Endpoint r) (sb_Key r) s"
    and "sb_Key r = [] \<Longrightarrow> idempotency_records s' = idempotency_records s"
    and "\<exists>row. deliveries s' = deliveries s @ [row] \<and> d = Some (scanDelivery row) \<and>
      (sb_Key r \<noteq> [] \<longrightarrow> (\<exists>i \<in> set (idempotency_records s'). recorded (sb_Endpoint r) (sb_Key r) (sb_Raw r) row (t + window) i))"
proof -
  let ?e = "sb_Endpoint r" and ?k = "sb_Key r"
  obtain a b where a: "same_tables (s\<lparr>now_ts := t\<rparr>) a"
    and body: "submit_body jsonb ?e (sb_Payload r) ?k (sb_Raw r) (sb_Tenant r) (a, None) = (Inr (), (b, d))"
    and b: "same_tables (b\<lparr>now_ts := now_ts s\<rparr>) s'"
    using com by (auto simp: committed_at_def)
  have ok_a: "db_ok a" using ok same_tables_pred [OF table_pred_db_ok a] by simp
  obtain er where "er \<in> set (endpoints s)" "er_id er = ?e" and tenant: "er_tenant_id er = sb_Tenant r"
    using adm by (auto simp: admitted_def)
  then have "row_by er_id ?e (endpoints a) = Some er"
    using row_by_unique [of er_id "endpoints s" er] db_ok_schema [OF ok] a by (simp add: schema_defs same_tables_iff)
  from submit_body_db_ok [OF ok_a this tenant body] same_tables_pred [OF table_pred_db_ok b]
  show "db_ok s'" by simp
  from submit_body_Inr [OF body] a b show "endpoints s' = endpoints s" "now_ts s' = now_ts s"
    by (auto simp: submitted_def same_tables_iff)
  from body_others [OF body] a b
  show "others ?e ?k s' = others ?e ?k s" "?k = [] \<Longrightarrow> idempotency_records s' = idempotency_records s"
    by (simp_all add: same_tables_iff)
  obtain row where row: "d = Some (scanDelivery row)" "deliveries s' = deliveries s @ [row]"
    using submit_body_Inr [OF body] a b by (auto simp: submitted_def same_tables_iff)
  have "\<exists>i \<in> set (idempotency_records s'). recorded ?e ?k (sb_Raw r) row (t + window) i" if "?k \<noteq> []"
    using submit_body_record [OF ok_a that body] row a b by (auto simp: same_tables_iff)
  with row show "\<exists>row. deliveries s' = deliveries s @ [row] \<and> d = Some (scanDelivery row) \<and>
      (?k \<noteq> [] \<longrightarrow> (\<exists>i \<in> set (idempotency_records s'). recorded ?e ?k (sb_Raw r) row (t + window) i))" by blast
qed

section \<open>What the rest of the service does to the records\<close>

interpretation records_content: content_law "\<lambda>s. idempotency_records s = R" for R
  by unfold_locales (auto simp: table_pred_def)

interpretation records_attempt: attempt_law "\<lambda>s. idempotency_records s = R" for R
  by unfold_locales (auto simp: table_pred_def)

lemma update_keeps_records: "preserves (\<lambda>s. idempotency_records s = R) (update_deliveries p f)"
  by (simp add: preserves_def update_deliveries_def Let_def)

lemma registration_keeps_records:
  "preserves (\<lambda>s. idempotency_records s = R) (EndpointService_Register parse rnd endpoint_service url i)"
  by (rule records_content.registration) simp

lemma worker_keeps_records:
  assumes "cs = None \<or> cs = Some worker_circuit_store"
  shows "preserves (\<lambda>w. idempotency_records (w_db w) = R) (Worker_process parse schedule (NewWorker client cs ccfg peer hop) ck i)"
proof (rule process_keeps)
  have "preserves (\<lambda>s. idempotency_records s = R) (mark_by_id i f)" for i f
    unfolding mark_by_id_def by (intro records_attempt.attempt_laws update_keeps_records)
  then show "operations_keep (\<lambda>w. idempotency_records (w_db w) = R) (NewWorker client cs ccfg peer hop)"
    using records_attempt.worker_attempt [OF assms, of R client ccfg peer hop]
    by (auto simp: operations_keep_def NewWorker_def DeliveryStore_MarkDelivered_def
        DeliveryStore_MarkPermanentlyFailed_def DeliveryStore_Reschedule_def intro!: on_db_preserves preserves_intros)
qed

lemma perform_records:
  assumes "\<And>e payload k raw t. a \<noteq> SubmitEvent e payload k raw t"
  shows "set (idempotency_records (w_db (perform sys a w))) \<subseteq> set (idempotency_records (w_db w)) \<and>
    (\<forall>i \<in> set (idempotency_records (w_db w)). now_ts (w_db w) \<le> ir_expires_at i \<longrightarrow>
       i \<in> set (idempotency_records (w_db (perform sys a w))))"
proof -
  let ?R = "idempotency_records (w_db w)"
  have "idempotency_records (w_db (perform sys a w)) = ?R" if "a \<noteq> ReaperTicks"
  proof (cases a)
    case (SchedulerTicks now)
    have "preserves (\<lambda>s. idempotency_records s = ?R) (DeliveryStore_ClaimReady n l)"
      "preserves (\<lambda>s. idempotency_records s = ?R) (CircuitStore_SetProbeDelivery e)" for n l e
      unfolding DeliveryStore_ClaimReady_def CircuitStore_SetProbeDelivery_def Let_def
      by (intro records_attempt.attempt_laws update_keeps_records; simp)+
    then have "preserves (\<lambda>w. idempotency_records (w_db w) = ?R) (Scheduler_Tick (sy_uuid_text sys) (scheduler_of sys) now)"
      unfolding scheduler_of_def by (intro Scheduler_Tick_keeps records_attempt.circuit_store_ops) simp
    from preservesD [OF this, of w] show ?thesis by (simp add: SchedulerTicks)
  next
    case (WorkerHandles ck)
    then show ?thesis
      using preservesD [OF worker_keeps_records]
      by (auto simp: handle_message_db worker_of_def split: list.splits sum.splits)
  qed (use assms that in \<open>simp_all add: at_db_preserves [of "\<lambda>s. idempotency_records s = ?R"] registration_keeps_records
      records_content.account_services records_content.replay_service records_content.bulk_service\<close>)
  moreover have "set (idempotency_records (w_db (perform sys ReaperTicks w))) \<subseteq> set ?R \<and>
    (\<forall>i \<in> set ?R. now_ts (w_db w) \<le> ir_expires_at i \<longrightarrow> i \<in> set (idempotency_records (w_db (perform sys ReaperTicks w))))"
  proof -
    let ?I = "\<lambda>s. now_ts s = now_ts (w_db w) \<and> set (idempotency_records s) \<subseteq> set ?R \<and>
      (\<forall>i \<in> set ?R. now_ts (w_db w) \<le> ir_expires_at i \<longrightarrow> i \<in> set (idempotency_records s))"
    have tp: "table_pred ?I" by (simp add: table_pred_def)
    have "preserves ?I (update_deliveries p f)" for p f
      by (simp add: preserves_def update_deliveries_def Let_def)
    then have "preserves ?I DeliveryStore_ResurrectExpiredLeases"
      unfolding DeliveryStore_ResurrectExpiredLeases_def by (intro preserves_intros preserves_stmt [OF tp])
    moreover have "preserves ?I DeliveryStore_PurgeExpiredIdempotencyRecords"
      unfolding DeliveryStore_PurgeExpiredIdempotencyRecords_def
      by (intro preserves_intros preserves_stmt [OF tp]) (auto simp: preserves_def Let_def del_where_def)
    ultimately have "preserves (\<lambda>w. ?I (w_db w)) (Reaper_Tick (reaper_config 0))" by (rule Reaper_Tick_keeps)
    from preservesD [OF this, of w] show ?thesis by simp
  qed
  ultimately show ?thesis by (cases "a = ReaperTicks") auto
qed

lemma perform_clock: "allowed a w \<Longrightarrow> now_ts (w_db w) \<le> now_ts (w_db (perform sys a w))"
proof -
  assume al: "allowed a w"
  let ?t = "now_ts (w_db w)"
  note law = standing.table_law_axioms [of ?t]
  show ?thesis
  proof (cases a)
    case (SchedulerTicks now)
    then show ?thesis using preservesD [OF scheduler_of_law [OF law], of w] by simp
  next
    case ReaperTicks
    then show ?thesis using preservesD [OF table_law.reaper_tick [OF law], of w] by simp
  next
    case (WorkerHandles ck)
    then show ?thesis using preservesD [OF handle_message_law [OF law], of w] by simp
  qed (use al in \<open>simp_all add: allowed_def at_db_preserves [of "\<lambda>s. now_ts s = ?t"] standing_services.entity_services
      standing.submission standing.replay_service standing.bulk_service\<close>)
qed

section \<open>Every stage keeps the invariant\<close>

lemma checks_effect:
  assumes "submit_checks r s = (x, s')"
  shows "same_tables s s'" and "x = Inr () \<Longrightarrow> admitted r s"
proof -
  obtain y s1 where g: "EndpointStore_GetByID (sb_Endpoint r) s = (y, s1)" by fastforce
  obtain z s2 where c: "check_tenant_exists endpoint_service (sb_Tenant r) s1 = (z, s2)" by fastforce
  have st: "same_tables s s1" "same_tables s s2"
    using get_endpoint_same [OF g] check_tenant_same [OF c] same_tables_trans by blast+
  show "same_tables s s'"
    using assms g c st by (auto simp: submit_checks_def EndpointService_Get_def bindP_def split: sum.splits if_splits)
  assume "x = Inr ()"
  with assms g c obtain ep where "y = Inr ep" "ep_TenantID ep = sb_Tenant r"
    by (auto simp: submit_checks_def EndpointService_Get_def bindP_def split: sum.splits if_splits)
  with g get_endpoint_Inr [of "sb_Endpoint r" s ep s1] obtain er
    where "row_by er_id (sb_Endpoint r) (endpoints s) = Some er" "er_tenant_id er = sb_Tenant r"
    by (auto simp: scanEndpoint_def)
  with row_by_SomeD show "admitted r s" by (fastforce simp: admitted_def)
qed

lemma looked_up:
  assumes ok: "db_ok s" and found: "found = map_option scanIdempotency (valid_record (sb_Endpoint r) (sb_Key r) (s\<lparr>now_ts := t\<rparr>))"
  shows "read_ok r t found s"
proof -
  let ?p = "\<lambda>i. has_key (sb_Endpoint r) (sb_Key r) i"
  have dist: "distinct (map (\<lambda>i. (ir_endpoint_id i, ir_key i)) (idempotency_records s))"
    using db_ok_schema [OF ok] by (simp add: schema_defs)
  show ?thesis
  proof (cases "valid_record (sb_Endpoint r) (sb_Key r) (s\<lparr>now_ts := t\<rparr>)")
    case None
    then have "found = None" using found by simp
    with None show ?thesis by (auto simp: read_ok_def valid_record_def find_None_iff)
  next
    case (Some i)
    then have i: "i \<in> set (idempotency_records s)" "?p i" by (auto simp: valid_record_def find_Some_iff)
    with ok have "ix_Complete (scanIdempotency i)"
      by (auto simp: db_ok_def consistent_def idempotency_complete_def scanIdempotency_def)
    moreover have "j = i" if "j \<in> set (idempotency_records s)" "?p j" for j
      by (rule unique_row [OF dist that(1) i(1)]) (use that i in \<open>simp add: has_key_def\<close>)
    ultimately show ?thesis using found Some by (auto simp: read_ok_def)
  qed
qed

lemma stage_ok_same: "same_tables s s' \<Longrightarrow> stage_ok s' x = stage_ok s x"
  by (cases x; cases "snd x") (auto simp: same_tables_iff admitted_def read_ok_def)

text \<open>Before the write nothing changes, and only the lock step takes a lock.\<close>

lemma quiet_stage:
  assumes ok: "db_ok s" and st: "stage_ok s (r, st)" and run: "submit_stage jsonb r st s = (x, s')"
    and quiet: "\<And>t found. st \<noteq> Writing t found"
  shows "same_tables s s'" and "x \<noteq> Inr (Answered d)"
    and "x = Inr (Next st') \<Longrightarrow> stage_ok s (r, st') \<and> (locks (r, st') = locks (r, st) \<or>
      (\<exists>t. st = Locking t \<and> locks (r, st') = [lockKey (sb_Endpoint r) (sb_Key r)]))"
proof -
  have "same_tables s s' \<and> x \<noteq> Inr (Answered d) \<and> (x = Inr (Next st') \<longrightarrow> stage_ok s (r, st') \<and>
      (locks (r, st') = locks (r, st) \<or> (\<exists>t. st = Locking t \<and> locks (r, st') = [lockKey (sb_Endpoint r) (sb_Key r)])))"
  proof (cases st)
    case Checking
    obtain y s1 where c: "submit_checks r s = (y, s1)" by fastforce
    from checks_effect [OF c] show ?thesis
      using run c by (cases y) (auto simp: Checking bindP_def)
  next
    case Beginning
    obtain y s1 where b: "stmt (returnP ()) s = (y, s1)" by (cases "stmt (returnP ()) s :: (err + unit) \<times> db")
    then have same: "same_tables s s1" using stmt_cases_state [of "returnP ()" s] by (auto simp: same_tables_iff)
    then have "now_ts s1 = now_ts s" by (simp add: same_tables_iff)
    then show ?thesis
      using run b same st by (cases y) (auto simp: Beginning bindP_def map_errP_def read_ok_def)
  next
    case (Locking t)
    obtain y s1 where l: "IdempotencyTxStore_AcquireAdvisoryLock (sb_Endpoint r) (sb_Key r) s = (y, s1)" by fastforce
    from lock_same [OF l] show ?thesis
      using run l st by (cases y) (auto simp: Locking bindP_def map_errP_def)
  next
    case (Looking t)
    let ?s = "s\<lparr>now_ts := t\<rparr>"
    obtain y s1 where l: "IdempotencyTxStore_Lookup (sb_Endpoint r) (sb_Key r) ?s = (y, s1)" by fastforce
    have "same_tables ?s s1"
      using l by (auto simp: IdempotencyTxStore_Lookup_def map_errP_def stmt_read_same split: prod.splits sum.splits)
    then have same: "same_tables s (s1\<lparr>now_ts := now_ts s\<rparr>)" by (simp add: same_tables_iff)
    have "read_ok r t found s" if "y = Inr found" for found
      by (rule looked_up [OF ok]) (use lookup_Inr l that in blast)
    then show ?thesis
      using run l same st by (cases y) (auto simp: Looking at_time_def bindP_def map_errP_def)
  next
    case (Writing t found)
    with quiet show ?thesis by blast
  qed
  then show "same_tables s s'" "x \<noteq> Inr (Answered d)" "x = Inr (Next st') \<Longrightarrow> stage_ok s (r, st') \<and>
      (locks (r, st') = locks (r, st) \<or> (\<exists>t. st = Locking t \<and> locks (r, st') = [lockKey (sb_Endpoint r) (sb_Key r)]))"
    by simp_all
qed

lemma lawful_later:
  assumes "db_ok s'" and "list_all (stage_ok s) xs" and "distinct (locked xs)"
    and "endpoint_key ` set (endpoints s) \<subseteq> endpoint_key ` set (endpoints s')" and "now_ts s \<le> now_ts s'"
    and "\<And>r st i. (r, st) \<in> set xs \<Longrightarrow> locks (r, st) \<noteq> [] \<Longrightarrow> i \<in> set (idempotency_records s') \<Longrightarrow>
      has_key (sb_Endpoint r) (sb_Key r) i \<Longrightarrow> i \<in> set (idempotency_records s)"
  shows "lawful (xs, w\<lparr>w_db := s'\<rparr>)"
  using assms stage_ok_later [OF _ assms(4,5)] by (auto simp: lawful_def list_all_iff)

lemma others_in:
  assumes "others e k s' = others e k s" and "\<not> has_key e k i"
  shows "i \<in> set (idempotency_records s') \<longleftrightarrow> i \<in> set (idempotency_records s)"
proof -
  have "i \<in> set (others e k s') \<longleftrightarrow> i \<in> set (others e k s)" by (simp add: assms(1))
  with assms(2) show ?thesis by simp
qed

text \<open>The write of one submission and what the others rely on: those that hold a lock hold another one.\<close>

lemma write_lawful:
  assumes l: "lawful (A @ (r, Writing t found) # B, w)"
    and run: "submit_stage jsonb r (Writing t found) (w_db w) = (x, s')"
  shows "lawful (A @ B, w\<lparr>w_db := s'\<rparr>)"
proof -
  let ?s = "w_db w"
  have ok: "db_ok ?s" and all: "list_all (stage_ok ?s) (A @ B)" and dist: "distinct (locked (A @ B))"
    and own: "admitted r ?s" "read_ok r t found ?s" "sb_Key r = [] \<longrightarrow> found = None"
    and apart: "sb_Key r \<noteq> [] \<Longrightarrow> lockKey (sb_Endpoint r) (sb_Key r) \<notin> set (locked (A @ B))"
    using l by (auto simp: lawful_def)
  have quiet: "lawful (A @ B, w\<lparr>w_db := s'\<rparr>)" if "same_tables ?s s'"
    by (rule lawful_later [OF _ all dist])
      (use ok that same_tables_pred [OF table_pred_db_ok that] in \<open>auto simp: same_tables_iff\<close>)
  from own(2,3) run show ?thesis
  proof (cases rule: writing_cases)
    case (written d)
    note eff = committed_effects [OF ok own(1) written(2)]
    show ?thesis
    proof (rule lawful_later [OF eff(1) all dist])
      fix r2 st2 i
      assume r2: "(r2, st2) \<in> set (A @ B)" "locks (r2, st2) \<noteq> []"
        and i: "i \<in> set (idempotency_records s')" "has_key (sb_Endpoint r2) (sb_Key r2) i"
      have key2: "sb_Key r2 \<noteq> []" "lockKey (sb_Endpoint r2) (sb_Key r2) \<in> set (locked (A @ B))"
        using r2 by (cases st2; force split: if_splits)+
      show "i \<in> set (idempotency_records ?s)"
      proof (cases "sb_Key r = []")
        case True
        with eff(5) i show ?thesis by simp
      next
        case False
        then have "\<not> has_key (sb_Endpoint r) (sb_Key r) i"
          using apart key2 i(2) by (auto simp: has_key_def)
        with others_in [OF eff(4)] i show ?thesis by blast
      qed
    qed (simp_all add: eff)
  qed (use quiet in blast)+
qed

lemma occur_lawful:
  assumes l: "lawful (xs, w)" and can: "can_occur mv (xs, w)"
  shows "lawful (occur sys mv (xs, w))"
proof (cases mv)
  case (Meanwhile a)
  have a: "allowed a w" "\<And>e payload k raw t. a \<noteq> SubmitEvent e payload k raw t"
    using can by (auto simp: can_occur_def Meanwhile)
  have "lawful (xs, (perform sys a w)\<lparr>w_db := w_db (perform sys a w)\<rparr>)"
    using l perform_db_ok [of w sys a] perform_grown [of w sys a] perform_clock [OF a(1), of sys] perform_records [OF a(2), of sys w]
    by (intro lawful_later [of _ "w_db w"]) (auto simp: lawful_def grown_def)
  then show ?thesis by (simp add: Meanwhile)
next
  case (Arrives r)
  with l show ?thesis by (auto simp: lawful_def)
next
  case (GivesUp k)
  then have "k < length xs" using can by (simp add: can_occur_def)
  then obtain A y B where "xs = A @ y # B" "without k xs = A @ B" using split_at by metis
  with l show ?thesis by (auto simp: GivesUp lawful_def)
next
  case (Proceeds k)
  then have k: "k < length xs" using can by (simp add: can_occur_def)
  obtain r st where rst: "xs ! k = (r, st)" by fastforce
  obtain A B where xs: "xs = A @ (r, st) # B" and wo: "without k xs = A @ B" and upd: "\<And>y. xs[k := y] = A @ y # B"
    using split_at [OF k] rst by metis
  obtain x s' where run: "submit_stage (sy_jsonb sys) r st (w_db w) = (x, s')" by fastforce
  have occ: "occur sys mv (xs, w) =
      ((case x of Inr (Next st') \<Rightarrow> A @ (r, st') # B | _ \<Rightarrow> A @ B), w\<lparr>w_db := s'\<rparr>)"
    by (auto simp: Proceeds rst run wo upd split: sum.splits progress.splits)
  note old = l [unfolded xs lawful_def, simplified]
  show ?thesis
  proof (cases "\<exists>t found. st = Writing t found")
    case True
    then obtain t found where w: "st = Writing t found" by blast
    from write_lawful [OF l [unfolded xs w] run [unfolded w]]
    show ?thesis
      using run submit_stage_left [of "sy_jsonb sys" r st "w_db w" _ s']
      by (auto simp: occ w split: sum.splits progress.splits)
  next
    case False
    have ok: "db_ok (w_db w)" "stage_ok (w_db w) (r, st)" using old by simp_all
    note q = quiet_stage [OF ok run]
    have same: "same_tables (w_db w) s'" using q(1) False by blast
    have sts: "stage_ok s' = stage_ok (w_db w)" by (rule ext) (rule stage_ok_same [OF same])
    have ok': "db_ok s'" using ok(1) same_tables_pred [OF table_pred_db_ok same] by simp
    show ?thesis
    proof (cases "\<exists>st'. x = Inr (Next st')")
      case True
      then obtain st' where x: "x = Inr (Next st')" by blast
      have st': "stage_ok (w_db w) (r, st')" "locks (r, st') = locks (r, st) \<or>
          (\<exists>t. st = Locking t \<and> locks (r, st') = [lockKey (sb_Endpoint r) (sb_Key r)])"
        using q(3) [OF _ x] False by blast+
      have "distinct (locked (A @ (r, st') # B))"
        using st'(2) old can rst by (auto simp: can_occur_def Proceeds xs)
      with old ok' st'(1) show ?thesis by (simp add: occ x lawful_def sts)
    next
      case no: False
      then have "occur sys mv (xs, w) = (A @ B, w\<lparr>w_db := s'\<rparr>)"
        by (auto simp: occ split: sum.splits progress.splits)
      with old ok' show ?thesis by (auto simp: lawful_def sts)
    qed
  qed
qed

lemma overlapping_lawful: "overlapping sys xw0 xw \<Longrightarrow> lawful xw0 \<Longrightarrow> lawful xw"
proof (induction rule: overlapping.induct)
  case (further xw mv)
  then show ?case using occur_lawful [of "fst xw" "snd xw" mv sys] by simp
qed

section \<open>One key, one delivery\<close>

text \<open>The record of a key, complete and within its window.\<close>

definition keeps_record :: "idempotency_row \<Rightarrow> world \<Rightarrow> bool" where
  "keeps_record i w \<longleftrightarrow> i \<in> set (idempotency_records (w_db w)) \<and> now_ts (w_db w) \<le> ir_expires_at i"

text \<open>Whoever has the key next finds it.\<close>

lemma found_record:
  assumes ok: "stage_ok s (r, Writing t found)" and k: "sb_Key r \<noteq> []"
    and i: "i \<in> set (idempotency_records s)" "has_key (sb_Endpoint r) (sb_Key r) i" "now_ts s \<le> ir_expires_at i"
  shows "found = Some (scanIdempotency i)"
  using ok k i by (cases found) (auto simp: read_ok_def)

lemma write_finds_record:
  assumes ok: "stage_ok s (r, Writing t found)" and k: "sb_Key r \<noteq> []"
    and i: "i \<in> set (idempotency_records s)" "has_key (sb_Endpoint r) (sb_Key r) i" "now_ts s \<le> ir_expires_at i"
    and run: "submit_stage jsonb r (Writing t found) s = (x, s')"
  shows "same_tables s s'" and "x = (if ir_payload_hash i = PayloadHash (sb_Raw r)
      then Inr (Answered (Some (cached_delivery (scanIdempotency i) (sb_Endpoint r))))
      else Inl (Wrap ''submit event'' ErrConflict))"
proof -
  have f: "found = Some (scanIdempotency i)" by (rule found_record [OF ok k i])
  have "read_ok r t found s" "sb_Key r = [] \<longrightarrow> found = None" using ok by simp_all
  from this run have "same_tables s s' \<and> x = (if ir_payload_hash i = PayloadHash (sb_Raw r)
      then Inr (Answered (Some (cached_delivery (scanIdempotency i) (sb_Endpoint r))))
      else Inl (Wrap ''submit event'' ErrConflict))"
    by (cases rule: writing_cases) (use f in \<open>auto simp: hash_scanIdempotency\<close>)
  then show "same_tables s s'" "x = (if ir_payload_hash i = PayloadHash (sb_Raw r)
      then Inr (Answered (Some (cached_delivery (scanIdempotency i) (sb_Endpoint r))))
      else Inl (Wrap ''submit event'' ErrConflict))" by simp_all
qed

text \<open>The clock of the database goes on, and the record stays as long as its window is open.\<close>

lemma stage_clock:
  assumes ok: "db_ok s" "stage_ok s (r, st)" and run: "submit_stage jsonb r st s = (x, s')"
  shows "now_ts s' = now_ts s"
proof (cases "\<exists>t found. st = Writing t found")
  case False
  with quiet_stage(1) [OF ok run] show ?thesis by (simp add: same_tables_iff)
next
  case True
  then obtain t found where w: "st = Writing t found" by blast
  from ok(2) have "read_ok r t found s" "sb_Key r = [] \<longrightarrow> found = None" "admitted r s" by (simp_all add: w)
  from this(1,2) run [unfolded w] show ?thesis
    by (cases rule: writing_cases) (simp_all add: same_tables_iff committed_effects(3) [OF ok(1) \<open>admitted r s\<close>])
qed

lemma stage_keeps_record:
  assumes ok: "db_ok s" "stage_ok s (r, st)" and run: "submit_stage jsonb r st s = (x, s')"
    and i: "i \<in> set (idempotency_records s)" "now_ts s \<le> ir_expires_at i"
  shows "i \<in> set (idempotency_records s')"
proof (cases "\<exists>t found. st = Writing t found")
  case False
  with quiet_stage(1) [OF ok run] i show ?thesis by (simp add: same_tables_iff)
next
  case True
  then obtain t found where w: "st = Writing t found" by blast
  from ok(2) have "read_ok r t found s" "sb_Key r = [] \<longrightarrow> found = None" "admitted r s" by (simp_all add: w)
  from this(1,2) run [unfolded w] show ?thesis
  proof (cases rule: writing_cases)
    case (written d)
    note eff = committed_effects [OF ok(1) \<open>admitted r s\<close> written(2)]
    have "\<not> (sb_Key r \<noteq> [] \<and> has_key (sb_Endpoint r) (sb_Key r) i)"
      using found_record [OF ok(2) [unfolded w] _ i(1) _ i(2)] written(1) by auto
    with eff(5) others_in [OF eff(4)] i(1) show ?thesis by (cases "sb_Key r = []") auto
  qed (use i in \<open>simp_all add: same_tables_iff\<close>)
qed

lemma occur_later:
  assumes l: "lawful (xs, w)" and can: "can_occur mv (xs, w)" and occ: "occur sys mv (xs, w) = (xs', w')"
  shows "now_ts (w_db w) \<le> now_ts (w_db w')"
    and "keeps_record i w \<Longrightarrow> i \<in> set (idempotency_records (w_db w'))"
proof -
  have "now_ts (w_db w) \<le> now_ts (w_db w') \<and> (keeps_record i w \<longrightarrow> i \<in> set (idempotency_records (w_db w')))"
  proof (cases mv)
    case (Meanwhile a)
    have a: "allowed a w" "\<And>e payload k raw t. a \<noteq> SubmitEvent e payload k raw t"
      using can by (auto simp: can_occur_def Meanwhile)
    with occ perform_records [OF a(2), of sys w] perform_clock [OF a(1), of sys] show ?thesis
      by (auto simp: Meanwhile keeps_record_def)
  next
    case (Proceeds k)
    obtain x s' where run: "submit_stage (sy_jsonb sys) (fst (xs ! k)) (snd (xs ! k)) (w_db w) = (x, s')" by fastforce
    have "db_ok (w_db w)" "stage_ok (w_db w) (fst (xs ! k), snd (xs ! k))"
      using l can by (auto simp: lawful_def can_occur_def Proceeds list_all_length)
    from stage_clock [OF this run] stage_keeps_record [OF this run] occ run show ?thesis
      by (auto simp: Proceeds keeps_record_def split: sum.splits progress.splits)
  qed (use occ in \<open>auto simp: keeps_record_def\<close>)
  then show "now_ts (w_db w) \<le> now_ts (w_db w')" "keeps_record i w \<Longrightarrow> i \<in> set (idempotency_records (w_db w'))" by simp_all
qed

lemma overlapping_clock:
  "overlapping sys xw0 xw \<Longrightarrow> lawful xw0 \<Longrightarrow> now_ts (w_db (snd xw0)) \<le> now_ts (w_db (snd xw))"
proof (induction rule: overlapping.induct)
  case (further xw mv)
  obtain xs w where xw: "xw = (xs, w)" by fastforce
  obtain xs' w' where occ: "occur sys mv (xs, w) = (xs', w')" by fastforce
  have l: "lawful (xs, w)" using overlapping_lawful [OF further.hyps(1) further.prems] by (simp add: xw)
  have can: "can_occur mv (xs, w)" using further.hyps(2) by (simp add: xw)
  have "now_ts (w_db w) \<le> now_ts (w_db w')" by (rule occur_later(1) [OF l can occ])
  with further.IH [OF further.prems] show ?case unfolding xw occ by simp
qed simp

lemma overlapping_keeps_record:
  assumes "overlapping sys xw0 xw" and "lawful xw0" and "keeps_record i (snd xw0)"
  shows "now_ts (w_db (snd xw)) \<le> ir_expires_at i \<Longrightarrow> keeps_record i (snd xw)"
  using assms(1)
proof (induction rule: overlapping.induct)
  case start
  show ?case by (rule assms(3))
next
  case (further xw mv)
  obtain xs w where xw: "xw = (xs, w)" by fastforce
  obtain xs' w' where occ: "occur sys mv (xs, w) = (xs', w')" by fastforce
  have l: "lawful (xs, w)" using overlapping_lawful [OF further.hyps(1) assms(2)] by (simp add: xw)
  have can: "can_occur mv (xs, w)" using further.hyps(2) by (simp add: xw)
  note later = occur_later [OF l can occ]
  show ?case using later further.IH further.prems unfolding xw occ by (simp add: keeps_record_def)
qed

text \<open>The write that creates a delivery leaves such a record.\<close>

lemma write_leaves_record:
  assumes ok: "db_ok s" "stage_ok s (r, Writing t None)" and k: "sb_Key r \<noteq> []"
    and run: "submit_stage jsonb r (Writing t None) s = (Inr (Answered (Some d)), s')"
  shows "\<exists>i \<in> set (idempotency_records s'). has_key (sb_Endpoint r) (sb_Key r) i \<and>
    ir_payload_hash i = PayloadHash (sb_Raw r) \<and> ir_event_id i = Some (d_EventID d) \<and>
    ir_delivery_id i = Some (d_ID d) \<and> ir_expires_at i = t + window"
proof -
  have adm: "admitted r s" and read: "read_ok r t None s" using ok(2) by simp_all
  have "sb_Key r = [] \<longrightarrow> None = (None :: IdempotencyRecord option)" by simp
  from read this run show ?thesis
  proof (cases rule: writing_cases)
    case (written d')
    then have "d' = Some d" by auto
    with committed_effects(6) [OF ok(1) adm written(2)] k show ?thesis
      by (auto simp: recorded_def scanDelivery_def)
  qed auto
qed

text \<open>The same submission twice: both begin before either has the lock.\<close>

definition duplicate :: submission where
  "duplicate = \<lparr>sb_Endpoint = 10, sb_Payload = Some ''{}'', sb_Key = ''k'', sb_Raw = ''{}'', sb_Tenant = 1\<rparr>"

definition twice :: "nat \<Rightarrow> (submission \<times> stage) list \<times> world" where
  "twice n = fold (occur sample_deployment) (take n [Arrives duplicate, Arrives duplicate, Proceeds 0, Proceeds 1,
     Proceeds 0, Proceeds 1, Proceeds 0, Proceeds 0, Proceeds 0, Proceeds 0, Proceeds 0]) ([], sample_world sample_db)"

definition first_delivery :: delivery_row where
  "first_delivery = new_delivery 101 10 None 1000 1 102"

definition first_record :: idempotency_row where
  "first_record = \<lparr>ir_id = 100, ir_endpoint_id = 10, ir_key = ''k'', ir_payload_hash = PayloadHash ''{}'',
     ir_event_id = Some 101, ir_delivery_id = Some 102, ir_created_at = 1000, ir_expires_at = 1000 + window\<rparr>"

definition once_submitted :: db where
  "once_submitted = sample_db\<lparr>uuid_pos := 3, events := [sample_event, new_event 10 1 ''{}'' 1000 101],
     deliveries := [sample_running, sample_failed, first_delivery], idempotency_records := [first_record]\<rparr>"

lemma twice_steps:
  "twice 0 = ([], sample_world sample_db)" "twice (Suc 0) = occur sample_deployment (Arrives duplicate) (twice 0)"
  "twice 2 = occur sample_deployment (Arrives duplicate) (twice (Suc 0))"
  "twice 3 = occur sample_deployment (Proceeds 0) (twice 2)" "twice 4 = occur sample_deployment (Proceeds 1) (twice 3)"
  "twice 5 = occur sample_deployment (Proceeds 0) (twice 4)" "twice 6 = occur sample_deployment (Proceeds 1) (twice 5)"
  "twice 7 = occur sample_deployment (Proceeds 0) (twice 6)" "twice 8 = occur sample_deployment (Proceeds 0) (twice 7)"
  "twice 9 = occur sample_deployment (Proceeds 0) (twice 8)" "twice 10 = occur sample_deployment (Proceeds 0) (twice 9)"
  "twice 11 = occur sample_deployment (Proceeds 0) (twice 10)"
  by (simp_all add: twice_def take_Cons')

lemma duplicate_stages:
  "submit_stage Some duplicate Checking sample_db = (Inr (Next Beginning), sample_db)"
  "submit_stage Some duplicate Beginning sample_db = (Inr (Next (Locking 1000)), sample_db)"
  "submit_stage Some duplicate (Locking 1000) sample_db = (Inr (Next (Looking 1000)), sample_db)"
  "submit_stage Some duplicate (Looking 1000) sample_db = (Inr (Next (Writing 1000 None)), sample_db)"
proof -
  have get: "EndpointStore_GetByID 10 sample_db = (Inr (scanEndpoint sample_endpoint), sample_db)"
      "TenantStore_GetByID 1 sample_db = (Inr (scanTenant (hd (tenants sample_db))), sample_db)"
    by (simp_all add: EndpointStore_GetByID_def TenantStore_GetByID_def tryP_def sample_defs)
  show "submit_stage Some duplicate Checking sample_db = (Inr (Next Beginning), sample_db)"
    by (simp add: submit_checks_def EndpointService_Get_def check_tenant_exists_def tryP_def bindP_def get duplicate_def
        scanEndpoint_def sample_endpoint_def)
  show "submit_stage Some duplicate Beginning sample_db = (Inr (Next (Locking 1000)), sample_db)"
    "submit_stage Some duplicate (Locking 1000) sample_db = (Inr (Next (Looking 1000)), sample_db)"
    by (simp_all add: bindP_def map_errP_def duplicate_def IdempotencyTxStore_AcquireAdvisoryLock_def sample_db_def)
  show "submit_stage Some duplicate (Looking 1000) sample_db = (Inr (Next (Writing 1000 None)), sample_db)"
    by (simp add: at_time_def bindP_def map_errP_def duplicate_def IdempotencyTxStore_Lookup_def valid_record_def sample_db_def)
qed

lemma duplicate_write:
  "submit_stage Some duplicate (Writing 1000 None) sample_db = (Inr (Answered (Some (scanDelivery first_delivery))), once_submitted)"
  by (simp add: at_time_def submit_writes_def submit_rows_def duplicate_def claim_unless_cached_def Let_def bindP_def liftV_def map_errP_def
      IdempotencyTxStore_Claim_def upsert_claim_def sample_defs insert_event_values_def insert_event_def insert_row_def
      check_event_def insert_delivery_def check_delivery_def new_delivery_def replay_index_ok_def active_replay_def
      IdempotencyTxStore_Complete_def set_complete_def upd_where_def completed_row_def has_key_def end_tx_def submit_answer_def
      once_submitted_def first_delivery_def first_record_def new_event_def)

lemma duplicate_found:
  "submit_stage Some duplicate (Locking 1000) once_submitted = (Inr (Next (Looking 1000)), once_submitted)"
  "submit_stage Some duplicate (Looking 1000) once_submitted =
     (Inr (Next (Writing 1000 (Some (scanIdempotency first_record)))), once_submitted)"
proof -
  have f: "faults once_submitted = []" "now_ts once_submitted = 1000" "idempotency_records once_submitted = [first_record]"
    by (simp_all add: once_submitted_def sample_db_def)
  have same: "once_submitted\<lparr>now_ts := 1000\<rparr> = once_submitted" using f(2) by simp
  show "submit_stage Some duplicate (Locking 1000) once_submitted = (Inr (Next (Looking 1000)), once_submitted)"
    using f by (simp add: bindP_def map_errP_def IdempotencyTxStore_AcquireAdvisoryLock_def)
  have "valid_record 10 ''k'' (once_submitted\<lparr>now_ts := 1000\<rparr>) = Some first_record"
    using f by (simp add: valid_record_def first_record_def has_key_def window_def)
  then have "at_time 1000 (IdempotencyTxStore_Lookup 10 ''k'') once_submitted = (Inr (Some (scanIdempotency first_record)), once_submitted)"
    unfolding at_time_def IdempotencyTxStore_Lookup_def same using f by (simp add: map_errP_def same)
  then show "submit_stage Some duplicate (Looking 1000) once_submitted =
      (Inr (Next (Writing 1000 (Some (scanIdempotency first_record)))), once_submitted)"
    by (simp add: bindP_def map_errP_def duplicate_def)
qed

lemma twice_states:
  "twice (Suc 0) = ([(duplicate, Checking)], sample_world sample_db)"
  "twice 2 = ([(duplicate, Checking), (duplicate, Checking)], sample_world sample_db)"
  "twice 3 = ([(duplicate, Beginning), (duplicate, Checking)], sample_world sample_db)"
  "twice 4 = ([(duplicate, Beginning), (duplicate, Beginning)], sample_world sample_db)"
  "twice 5 = ([(duplicate, Locking 1000), (duplicate, Beginning)], sample_world sample_db)"
  "twice 6 = ([(duplicate, Locking 1000), (duplicate, Locking 1000)], sample_world sample_db)"
  "twice 7 = ([(duplicate, Looking 1000), (duplicate, Locking 1000)], sample_world sample_db)"
  "twice 8 = ([(duplicate, Writing 1000 None), (duplicate, Locking 1000)], sample_world sample_db)"
  "twice 9 = ([(duplicate, Locking 1000)], sample_world once_submitted)"
  "twice 10 = ([(duplicate, Looking 1000)], sample_world once_submitted)"
  "twice 11 = ([(duplicate, Writing 1000 (Some (scanIdempotency first_record)))], sample_world once_submitted)"
proof -
  have jsonb: "sy_jsonb sample_deployment = Some" by (simp add: sample_deployment_def)
  note step = sample_world_def jsonb duplicate_stages duplicate_write duplicate_found without_def
  show t1: "twice (Suc 0) = ([(duplicate, Checking)], sample_world sample_db)" by (simp add: twice_steps(1,2))
  show t2: "twice 2 = ([(duplicate, Checking), (duplicate, Checking)], sample_world sample_db)" by (simp add: twice_steps(3) t1)
  show t3: "twice 3 = ([(duplicate, Beginning), (duplicate, Checking)], sample_world sample_db)"
    by (simp add: twice_steps(4) t2 step del: submit_stage.simps)
  show t4: "twice 4 = ([(duplicate, Beginning), (duplicate, Beginning)], sample_world sample_db)"
    by (simp add: twice_steps(5) t3 step del: submit_stage.simps)
  show t5: "twice 5 = ([(duplicate, Locking 1000), (duplicate, Beginning)], sample_world sample_db)"
    by (simp add: twice_steps(6) t4 step del: submit_stage.simps)
  show t6: "twice 6 = ([(duplicate, Locking 1000), (duplicate, Locking 1000)], sample_world sample_db)"
    by (simp add: twice_steps(7) t5 step del: submit_stage.simps)
  show t7: "twice 7 = ([(duplicate, Looking 1000), (duplicate, Locking 1000)], sample_world sample_db)"
    by (simp add: twice_steps(8) t6 step del: submit_stage.simps)
  show t8: "twice 8 = ([(duplicate, Writing 1000 None), (duplicate, Locking 1000)], sample_world sample_db)"
    by (simp add: twice_steps(9) t7 step del: submit_stage.simps)
  show t9: "twice 9 = ([(duplicate, Locking 1000)], sample_world once_submitted)"
    by (simp add: twice_steps(10) t8 step del: submit_stage.simps)
  show t10: "twice 10 = ([(duplicate, Looking 1000)], sample_world once_submitted)"
    by (simp add: twice_steps(11) t9 step del: submit_stage.simps)
  show "twice 11 = ([(duplicate, Writing 1000 (Some (scanIdempotency first_record)))], sample_world once_submitted)"
    by (simp add: twice_steps(12) t10 step del: submit_stage.simps)
qed

lemma twice_runs:
  "overlapping sample_deployment ([], sample_world sample_db) (twice 8)"
  "overlapping sample_deployment (twice 9) (twice 11)"
proof -
  let ?run = "overlapping sample_deployment ([], sample_world sample_db)"
  have r0: "?run (twice 0)" unfolding twice_steps(1) by (rule overlapping.start)
  have r1: "?run (twice (Suc 0))" unfolding twice_steps(2) by (rule overlapping.further [OF r0]) (simp add: can_occur_def)
  have r2: "?run (twice 2)" unfolding twice_steps(3) by (rule overlapping.further [OF r1]) (simp add: can_occur_def)
  have r3: "?run (twice 3)" unfolding twice_steps(4) by (rule overlapping.further [OF r2]) (simp add: can_occur_def twice_states)
  have r4: "?run (twice 4)" unfolding twice_steps(5) by (rule overlapping.further [OF r3]) (simp add: can_occur_def twice_states)
  have r5: "?run (twice 5)" unfolding twice_steps(6) by (rule overlapping.further [OF r4]) (simp add: can_occur_def twice_states)
  have r6: "?run (twice 6)" unfolding twice_steps(7) by (rule overlapping.further [OF r5]) (simp add: can_occur_def twice_states)
  have r7: "?run (twice 7)" unfolding twice_steps(8) by (rule overlapping.further [OF r6]) (simp add: can_occur_def twice_states)
  show "?run (twice 8)" unfolding twice_steps(9) by (rule overlapping.further [OF r7]) (simp add: can_occur_def twice_states)
  let ?more = "overlapping sample_deployment (twice 9)"
  have m10: "?more (twice 10)" unfolding twice_steps(11)
    by (rule overlapping.further [OF overlapping.start]) (simp add: can_occur_def twice_states)
  show "?more (twice 11)" unfolding twice_steps(12) by (rule overlapping.further [OF m10]) (simp add: can_occur_def twice_states)
qed

section \<open>Properties\<close>


text \<open>C3. Concurrent submissions with one key create one delivery: let any number of submissions overlap,
  with everything else the service does in between, and let one of them, with a key and no record
  found, commit and answer.  From then on, for the 24 hours from the begin of its transaction,
  no stage of any submission with this key (also one that had begun before) changes a table, and
  one that is answered has the same body and gets the ids of that delivery.\<close>

theorem concurrent_duplicates_agree:
  assumes "db_ok (w_db w0)" and "overlapping sys ([], w0) (xs, w)"
    and "k < length xs" and "xs ! k = (r, Writing t None)" and "sb_Key r \<noteq> []"
    and "submit_stage (sy_jsonb sys) r (Writing t None) (w_db w) = (Inr (Answered (Some d)), s1)"
    and "overlapping sys (occur sys (Proceeds k) (xs, w)) (xs2, w2)" and "now_ts (w_db w2) \<le> t + window"
    and "j < length xs2" and "xs2 ! j = (r2, st2)"
    and "sb_Endpoint r2 = sb_Endpoint r" and "sb_Key r2 = sb_Key r"
    and "submit_stage (sy_jsonb sys) r2 st2 (w_db w2) = (x, s2)"
  shows "same_tables (w_db w2) s2 \<and> (x = Inr (Answered d2) \<longrightarrow>
    PayloadHash (sb_Raw r2) = PayloadHash (sb_Raw r) \<and>
    map_option d_ID d2 = Some (d_ID d) \<and> map_option d_EventID d2 = Some (d_EventID d))"
proof -
  have "lawful ([], w0)" using assms(1) by (simp add: lawful_def)
  then have l: "lawful (xs, w)" by (rule overlapping_lawful [OF assms(2)])
  have can: "can_occur (Proceeds k) (xs, w)" using assms(3,4) by (simp add: can_occur_def)
  have ok: "db_ok (w_db w)" "stage_ok (w_db w) (r, Writing t None)"
    using l assms(3,4) by (auto simp: lawful_def list_all_length)
  obtain i where i: "i \<in> set (idempotency_records s1)" "has_key (sb_Endpoint r) (sb_Key r) i"
      "ir_payload_hash i = PayloadHash (sb_Raw r)" "ir_event_id i = Some (d_EventID d)"
      "ir_delivery_id i = Some (d_ID d)" "ir_expires_at i = t + window"
    using write_leaves_record [OF ok assms(5,6)] by blast
  obtain xs1 w1 where occ: "occur sys (Proceeds k) (xs, w) = (xs1, w1)" by fastforce
  with assms(4,6) have w1: "w_db w1 = s1" by auto
  have l1: "lawful (xs1, w1)" using occur_lawful [OF l can, of sys] unfolding occ .
  have run2: "overlapping sys (xs1, w1) (xs2, w2)" using assms(7) unfolding occ .
  have "now_ts s1 \<le> t + window" using overlapping_clock [OF run2 l1] assms(8) by (simp add: w1)
  then have "keeps_record i (snd (xs1, w1))" using i w1 by (simp add: keeps_record_def)
  from overlapping_keeps_record [OF run2 l1 this] assms(8) i(6) have keep: "keeps_record i w2" by simp
  have ok2: "db_ok (w_db w2)" "stage_ok (w_db w2) (r2, st2)"
    using overlapping_lawful [OF run2 l1] assms(9,10) by (auto simp: lawful_def list_all_length)
  show ?thesis
  proof (cases "\<exists>t found. st2 = Writing t found")
    case False
    with quiet_stage(1,2) [OF ok2 assms(13)] show ?thesis by blast
  next
    case True
    then obtain t2 found where "st2 = Writing t2 found" by blast
    with write_finds_record [of "w_db w2" r2 t2 found i "sy_jsonb sys" x s2] ok2(2) assms(5,11-13) i keep
    show ?thesis by (auto simp: keeps_record_def cached_delivery_def scanIdempotency_def split: if_splits)
  qed
qed

theorem concurrent_duplicates_agree_witness:
  "same_tables once_submitted
     (snd (submit_stage Some duplicate (Writing 1000 (Some (scanIdempotency first_record))) once_submitted))"
proof -
  have run: "overlapping sample_deployment ([], sample_world sample_db)
      ([(duplicate, Writing 1000 None), (duplicate, Locking 1000)], sample_world sample_db)"
    using twice_runs(1) by (simp add: twice_states)
  have more: "overlapping sample_deployment
      (occur sample_deployment (Proceeds 0) ([(duplicate, Writing 1000 None), (duplicate, Locking 1000)], sample_world sample_db))
      ([(duplicate, Writing 1000 (Some (scanIdempotency first_record)))], sample_world once_submitted)"
    using twice_runs(2) unfolding twice_steps(10) unfolding twice_states .
  have w: "w_db (sample_world s) = s" for s by (simp add: sample_world_def)
  have jsonb: "sy_jsonb sample_deployment = Some" by (simp add: sample_deployment_def)
  have clock: "now_ts once_submitted = 1000" "sb_Key duplicate \<noteq> []"
    by (simp_all add: once_submitted_def sample_db_def duplicate_def)
  obtain x s2 where last: "submit_stage Some duplicate (Writing 1000 (Some (scanIdempotency first_record))) once_submitted = (x, s2)"
    by fastforce
  show ?thesis
    using concurrent_duplicates_agree [where d = "scanDelivery first_delivery" and ?s1.0 = once_submitted and j = 0 and ?r2.0 = duplicate
        and ?st2.0 = "Writing 1000 (Some (scanIdempotency first_record))" and x = x and ?s2.0 = s2, OF _ run _ _ clock(2) _ more] last duplicate_write
    by (simp add: w jsonb clock sample_db_ok window_def del: submit_stage.simps)
qed

end
