(* ===== verification/Migrations.thy ===== *)
theory Migrations
  imports System
begin

text \<open>
  \<open>internal/store/migrations\<close>: the steps of the schema and what each does to the rows it finds.
  A database in between has columns that are not there yet; here every column that a migration
  adds is an option, \<open>None\<close> while it is absent or \<open>NULL\<close>, and a table that a later migration
  creates is an option too; the four tables of the first are empty lists at version 0, where there
  are none.  The migration tool runs each file in a transaction of its own and stops at the first
  that fails.
\<close>

section \<open>Tables under way\<close>

record m_endpoint =
  me_id :: uuid
  me_url :: string
  me_created_at :: instant
  me_signing_secret :: "bytes option"
  me_tenant_id :: "uuid option"
  me_circuit :: "(CircuitState \<times> int \<times> instant option \<times> bool \<times> uuid option) option"

record m_event =
  mv_id :: uuid
  mv_endpoint_id :: uuid
  mv_payload :: bytes
  mv_submitted_at :: instant
  mv_tenant_id :: "uuid option"

record m_delivery =
  md_id :: uuid
  md_event_id :: uuid
  md_endpoint_id :: uuid
  md_status :: delivery_status
  md_attempt_count :: int
  md_next_attempt_at :: instant
  md_lease_until :: "instant option"
  md_created_at :: instant
  md_updated_at :: instant
  md_tenant_id :: "uuid option"
  md_source_delivery_id :: "uuid option"

record schema =
  ms_version :: nat
  ms_tenants :: "tenant_row list option"
  ms_endpoints :: "m_endpoint list"
  ms_events :: "m_event list"
  ms_deliveries :: "m_delivery list"
  ms_attempts :: "attempt_row list"
  ms_records :: "idempotency_row list option"

definition no_schema :: schema where
  "no_schema = \<lparr>ms_version = 0, ms_tenants = None, ms_endpoints = [], ms_events = [], ms_deliveries = [],
     ms_attempts = [], ms_records = None\<rparr>"

definition default_tenant :: uuid where "default_tenant = 1"

definition default_tenant_row :: "instant \<Rightarrow> tenant_row" where
  "default_tenant_row t = \<lparr>tr_id = default_tenant, tr_name = Some ''system-default-tenant'', tr_created_at = t\<rparr>"

section \<open>Up\<close>

text \<open>A column is added as \<open>NULL\<close>, filled by the update, and then checked by \<open>SET NOT NULL\<close>.\<close>

definition up_001 :: "schema \<Rightarrow> schema option" where
  "up_001 s = Some (s\<lparr>ms_endpoints := [], ms_events := [], ms_deliveries := [], ms_attempts := []\<rparr>)"

definition up_002 :: "(uuid \<Rightarrow> bytes) \<Rightarrow> schema \<Rightarrow> schema option" where
  "up_002 random s =
     Some (s\<lparr>ms_endpoints := upd_where (\<lambda>e. me_signing_secret e = None)
       (\<lambda>e. e\<lparr>me_signing_secret := Some (random (me_id e))\<rparr>) (ms_endpoints s)\<rparr>)"

definition up_003 :: "schema \<Rightarrow> schema option" where
  "up_003 s = (case ms_records s of None \<Rightarrow> Some (s\<lparr>ms_records := Some []\<rparr>) | Some _ \<Rightarrow> None)"

definition up_004 :: "schema \<Rightarrow> schema option" where
  "up_004 s = (case ms_tenants s of None \<Rightarrow> Some (s\<lparr>ms_tenants := Some []\<rparr>) | Some _ \<Rightarrow> None)"

text \<open>\<open>(SELECT e.tenant_id FROM endpoints e WHERE e.id = i)\<close>, \<open>NULL\<close> without such an endpoint.\<close>

definition tenant_of :: "m_endpoint list \<Rightarrow> uuid \<Rightarrow> uuid option" where
  "tenant_of es i = Option.bind (row_by me_id i es) me_tenant_id"

definition up_005 :: "instant \<Rightarrow> schema \<Rightarrow> schema option" where
  "up_005 now s =
     (case ms_tenants s of
        None \<Rightarrow> None
      | Some ts \<Rightarrow>
          if default_tenant \<in> tr_id ` set ts then None
          else
            (let es = upd_where (\<lambda>e. me_tenant_id e = None) (\<lambda>e. e\<lparr>me_tenant_id := Some default_tenant\<rparr>) (ms_endpoints s);
                 vs = map (\<lambda>v. v\<lparr>mv_tenant_id := tenant_of es (mv_endpoint_id v)\<rparr>) (ms_events s);
                 ds = map (\<lambda>d. d\<lparr>md_tenant_id := tenant_of es (md_endpoint_id d)\<rparr>) (ms_deliveries s) in
             if list_all (\<lambda>v. mv_tenant_id v \<noteq> None) vs \<and> list_all (\<lambda>d. md_tenant_id d \<noteq> None) ds
             then Some (s\<lparr>ms_tenants := Some (ts @ [default_tenant_row now]),
                    ms_endpoints := es, ms_events := vs, ms_deliveries := ds\<rparr>)
             else None))"

definition up_006 :: "schema \<Rightarrow> schema option" where
  "up_006 s =
     Some (s\<lparr>ms_endpoints := map (\<lambda>e. e\<lparr>me_circuit := Some (CircuitClosed, 0, None, False, None)\<rparr>) (ms_endpoints s)\<rparr>)"

text \<open>The new column is \<open>NULL\<close> everywhere, so that the unique partial index has no rows.\<close>

definition up_007 :: "schema \<Rightarrow> schema option" where
  "up_007 s =
     Some (s\<lparr>ms_deliveries := map (\<lambda>d. d\<lparr>md_source_delivery_id := None\<rparr>) (ms_deliveries s)\<rparr>)"

definition migration_up :: "(uuid \<Rightarrow> bytes) \<Rightarrow> instant \<Rightarrow> nat \<Rightarrow> schema \<Rightarrow> schema option" where
  "migration_up random now n s =
     map_option (ms_version_update (\<lambda>_. n))
       (if n = 1 then up_001 s else if n = 2 then up_002 random s else if n = 3 then up_003 s
        else if n = 4 then up_004 s else if n = 5 then up_005 now s else if n = 6 then up_006 s
        else if n = 7 then up_007 s else None)"

text \<open>The tool applies what is pending, in order, up to the first failure.\<close>

fun apply_pending :: "(uuid \<Rightarrow> bytes) \<Rightarrow> instant \<Rightarrow> nat list \<Rightarrow> schema \<Rightarrow> schema" where
  "apply_pending random now [] s = s"
| "apply_pending random now (n # ns) s =
     (if n \<le> ms_version s then apply_pending random now ns s
      else case migration_up random now n s of None \<Rightarrow> s | Some s' \<Rightarrow> apply_pending random now ns s')"

definition migrate_up :: "(uuid \<Rightarrow> bytes) \<Rightarrow> instant \<Rightarrow> schema \<Rightarrow> schema" where
  "migrate_up random now s = apply_pending random now [1, 2, 3, 4, 5, 6, 7] s"

section \<open>Down\<close>

definition down_001 :: "schema \<Rightarrow> schema" where
  "down_001 s = s\<lparr>ms_endpoints := [], ms_events := [], ms_deliveries := [], ms_attempts := []\<rparr>"

definition down_002 :: "schema \<Rightarrow> schema" where
  "down_002 s = s\<lparr>ms_endpoints := map (me_signing_secret_update (\<lambda>_. None)) (ms_endpoints s)\<rparr>"

definition down_003 :: "schema \<Rightarrow> schema" where
  "down_003 s = s\<lparr>ms_records := None\<rparr>"

definition down_004 :: "schema \<Rightarrow> schema" where
  "down_004 s = s\<lparr>ms_tenants := None\<rparr>"

definition down_005 :: "schema \<Rightarrow> schema" where
  "down_005 s = s\<lparr>ms_deliveries := map (md_tenant_id_update (\<lambda>_. None)) (ms_deliveries s),
     ms_events := map (mv_tenant_id_update (\<lambda>_. None)) (ms_events s),
     ms_endpoints := map (me_tenant_id_update (\<lambda>_. None)) (ms_endpoints s),
     ms_tenants := map_option (filter (\<lambda>t. tr_id t \<noteq> default_tenant)) (ms_tenants s)\<rparr>"

definition down_006 :: "schema \<Rightarrow> schema" where
  "down_006 s = s\<lparr>ms_endpoints := map (me_circuit_update (\<lambda>_. None)) (ms_endpoints s)\<rparr>"

definition down_007 :: "schema \<Rightarrow> schema" where
  "down_007 s = s\<lparr>ms_deliveries := map (md_source_delivery_id_update (\<lambda>_. None)) (ms_deliveries s)\<rparr>"

definition migration_down :: "schema \<Rightarrow> schema" where
  "migration_down s =
     (let n = ms_version s; v = s\<lparr>ms_version := n - 1\<rparr> in
      if n = 1 then down_001 v else if n = 2 then down_002 v else if n = 3 then down_003 v
      else if n = 4 then down_004 v else if n = 5 then down_005 v else if n = 6 then down_006 v
      else if n = 7 then down_007 v else s)"
section \<open>The tables the program uses\<close>

text \<open>The rows of a schema with every column, \<open>None\<close> while a table or a column is missing.\<close>

definition endpoint_of :: "m_endpoint \<Rightarrow> endpoint_row option" where
  "endpoint_of e =
     (case (me_signing_secret e, me_tenant_id e, me_circuit e) of
        (Some secret, Some tenant, Some (state, n, until, sensitive, probe)) \<Rightarrow>
          Some \<lparr>er_id = me_id e, er_url = me_url e, er_created_at = me_created_at e,
            er_signing_secret = secret, er_tenant_id = tenant, er_circuit_state = state,
            er_failure_count = n, er_suspended_until = until, er_sensitive_recovery = sensitive,
            er_probe_delivery_id = probe\<rparr>
      | _ \<Rightarrow> None)"

definition event_of :: "m_event \<Rightarrow> event_row option" where
  "event_of v = map_option (\<lambda>tenant. \<lparr>vr_id = mv_id v, vr_endpoint_id = mv_endpoint_id v,
     vr_tenant_id = tenant, vr_payload = mv_payload v, vr_submitted_at = mv_submitted_at v\<rparr>) (mv_tenant_id v)"

definition delivery_of :: "m_delivery \<Rightarrow> delivery_row option" where
  "delivery_of d = map_option (\<lambda>tenant. \<lparr>dr_id = md_id d, dr_event_id = md_event_id d,
     dr_endpoint_id = md_endpoint_id d, dr_tenant_id = tenant, dr_status = md_status d,
     dr_attempt_count = md_attempt_count d, dr_next_attempt_at = md_next_attempt_at d,
     dr_lease_until = md_lease_until d, dr_created_at = md_created_at d, dr_updated_at = md_updated_at d,
     dr_source_delivery_id = md_source_delivery_id d\<rparr>) (md_tenant_id d)"

definition db_of :: "instant \<Rightarrow> (nat \<Rightarrow> uuid) \<Rightarrow> schema \<Rightarrow> db option" where
  "db_of t src s =
     (case (ms_tenants s, ms_records s, those (map endpoint_of (ms_endpoints s)),
            those (map event_of (ms_events s)), those (map delivery_of (ms_deliveries s))) of
        (Some ts, Some rs, Some es, Some vs, Some ds) \<Rightarrow>
          if ms_version s = 7
          then Some ((empty_db t src)\<lparr>tenants := ts, endpoints := es, events := vs, deliveries := ds,
                 attempts := ms_attempts s, idempotency_records := rs\<rparr>)
          else None
      | _ \<Rightarrow> None)"

section \<open>What the migrations leave as it was\<close>

text \<open>The tables as they will be: an absent column has the value its migration gives it.\<close>

definition filled_endpoint :: "(uuid \<Rightarrow> bytes) \<Rightarrow> m_endpoint \<Rightarrow> m_endpoint" where
  "filled_endpoint random e = e\<lparr>
     me_signing_secret := (case me_signing_secret e of None \<Rightarrow> Some (random (me_id e)) | Some b \<Rightarrow> Some b),
     me_tenant_id := (case me_tenant_id e of None \<Rightarrow> Some default_tenant | Some i \<Rightarrow> Some i),
     me_circuit := (case me_circuit e of None \<Rightarrow> Some (CircuitClosed, 0, None, False, None) | Some c \<Rightarrow> Some c)\<rparr>"

definition filled_event :: "m_event \<Rightarrow> m_event" where
  "filled_event v = v\<lparr>mv_tenant_id := (case mv_tenant_id v of None \<Rightarrow> Some default_tenant | Some i \<Rightarrow> Some i)\<rparr>"

definition filled_delivery :: "m_delivery \<Rightarrow> m_delivery" where
  "filled_delivery d = d\<lparr>md_tenant_id := (case md_tenant_id d of None \<Rightarrow> Some default_tenant | Some i \<Rightarrow> Some i)\<rparr>"

definition filled :: "(uuid \<Rightarrow> bytes) \<Rightarrow> instant \<Rightarrow> schema \<Rightarrow> schema" where
  "filled random now s = s\<lparr>ms_version := 7,
     ms_tenants := Some ((case ms_tenants s of None \<Rightarrow> [] | Some ts \<Rightarrow> ts) @
       (if ms_version s < 5 then [default_tenant_row now] else [])),
     ms_records := Some (case ms_records s of None \<Rightarrow> [] | Some rs \<Rightarrow> rs),
     ms_endpoints := map (filled_endpoint random) (ms_endpoints s),
     ms_events := map filled_event (ms_events s),
     ms_deliveries := map filled_delivery (ms_deliveries s)\<rparr>"

text \<open>The columns of version \<open>n\<close>, the references of its rows, and a default tenant that is free.\<close>

definition columns_at :: "nat \<Rightarrow> schema \<Rightarrow> bool" where
  "columns_at n s \<longleftrightarrow> ms_version s = n \<and> n \<le> 7 \<and>
     (n = 0 \<longrightarrow> ms_endpoints s = [] \<and> ms_events s = [] \<and> ms_deliveries s = [] \<and> ms_attempts s = []) \<and>
     (ms_records s = None \<longleftrightarrow> n < 3) \<and> (ms_tenants s = None \<longleftrightarrow> n < 4) \<and>
     (\<forall>e \<in> set (ms_endpoints s). (me_signing_secret e = None \<longleftrightarrow> n < 2) \<and>
        (me_tenant_id e = None \<longleftrightarrow> n < 5) \<and> (me_circuit e = None \<longleftrightarrow> n < 6)) \<and>
     (\<forall>v \<in> set (ms_events s). mv_tenant_id v = None \<longleftrightarrow> n < 5) \<and>
     (\<forall>d \<in> set (ms_deliveries s). (md_tenant_id d = None \<longleftrightarrow> n < 5) \<and>
        (n < 7 \<longrightarrow> md_source_delivery_id d = None))"

definition migratable :: "nat \<Rightarrow> schema \<Rightarrow> bool" where
  "migratable n s \<longleftrightarrow> columns_at n s \<and>
     (\<forall>v \<in> set (ms_events s). mv_endpoint_id v \<in> me_id ` set (ms_endpoints s)) \<and>
     (\<forall>d \<in> set (ms_deliveries s). md_endpoint_id d \<in> me_id ` set (ms_endpoints s)) \<and>
     (n = 4 \<longrightarrow> default_tenant \<notin> tr_id ` set (the (ms_tenants s)))"

lemma filled_row_simps [simp]:
  "me_signing_secret e = None \<Longrightarrow> filled_endpoint r (e\<lparr>me_signing_secret := Some (r (me_id e))\<rparr>) = filled_endpoint r e"
  "me_tenant_id e = None \<Longrightarrow> filled_endpoint r (e\<lparr>me_tenant_id := Some default_tenant\<rparr>) = filled_endpoint r e"
  "me_circuit e = None \<Longrightarrow> filled_endpoint r (e\<lparr>me_circuit := Some (CircuitClosed, 0, None, False, None)\<rparr>) = filled_endpoint r e"
  "mv_tenant_id v = None \<Longrightarrow> filled_event (v\<lparr>mv_tenant_id := Some default_tenant\<rparr>) = filled_event v"
  "md_tenant_id d = None \<Longrightarrow> filled_delivery (d\<lparr>md_tenant_id := Some default_tenant\<rparr>) = filled_delivery d"
  "md_source_delivery_id d = None \<Longrightarrow> d\<lparr>md_source_delivery_id := None\<rparr> = d"
  by (simp_all add: filled_endpoint_def filled_event_def filled_delivery_def split: option.splits)

lemma upd_where_every: "(\<And>r. r \<in> set rows \<Longrightarrow> p r) \<Longrightarrow> upd_where p f rows = map f rows"
  by (simp add: upd_where_def)

lemma tenant_of_filled:
  assumes "\<forall>e \<in> set es. me_tenant_id e = Some i" and "k \<in> me_id ` set es"
  shows "tenant_of es k = Some i"
proof -
  obtain e where "row_by me_id k es = Some e" using assms(2) by (metis row_by_None_iff not_None_eq)
  then show ?thesis using assms(1) by (auto simp: tenant_of_def dest: row_by_SomeD)
qed

lemmas columns_def = columns_at_def migratable_def
lemmas up_defs = migration_up_def up_001_def up_002_def up_003_def up_004_def up_005_def up_006_def up_007_def

lemma below_7: "(n::nat) < 7 \<longleftrightarrow> n = 0 \<or> n = 1 \<or> n = 2 \<or> n = 3 \<or> n = 4 \<or> n = 5 \<or> n = 6"
  by arith

text \<open>The one step with a condition, in closed form.\<close>

lemma up_005_fills:
  assumes "migratable 4 s"
  shows "\<exists>ts. ms_tenants s = Some ts \<and> up_005 now s = Some (s\<lparr>
     ms_tenants := Some (ts @ [default_tenant_row now]),
     ms_endpoints := map (\<lambda>e. e\<lparr>me_tenant_id := Some default_tenant\<rparr>) (ms_endpoints s),
     ms_events := map (\<lambda>v. v\<lparr>mv_tenant_id := Some default_tenant\<rparr>) (ms_events s),
     ms_deliveries := map (\<lambda>d. d\<lparr>md_tenant_id := Some default_tenant\<rparr>) (ms_deliveries s)\<rparr>)"
proof -
  obtain ts where ts: "ms_tenants s = Some ts" "default_tenant \<notin> tr_id ` set ts"
    using assms by (auto simp: columns_def)
  let ?es = "map (\<lambda>e. e\<lparr>me_tenant_id := Some default_tenant\<rparr>) (ms_endpoints s)"
  have es: "upd_where (\<lambda>e. me_tenant_id e = None) (\<lambda>e. e\<lparr>me_tenant_id := Some default_tenant\<rparr>) (ms_endpoints s) = ?es"
    by (rule upd_where_every) (use assms in \<open>simp add: columns_def\<close>)
  have tenant: "tenant_of ?es k = Some default_tenant" if "k \<in> me_id ` set (ms_endpoints s)" for k
    by (rule tenant_of_filled) (use that in \<open>auto simp: image_image\<close>)
  have vs: "map (\<lambda>v. v\<lparr>mv_tenant_id := tenant_of ?es (mv_endpoint_id v)\<rparr>) (ms_events s)
      = map (\<lambda>v. v\<lparr>mv_tenant_id := Some default_tenant\<rparr>) (ms_events s)"
    using assms tenant by (simp add: migratable_def)
  have ds: "map (\<lambda>d. d\<lparr>md_tenant_id := tenant_of ?es (md_endpoint_id d)\<rparr>) (ms_deliveries s)
      = map (\<lambda>d. d\<lparr>md_tenant_id := Some default_tenant\<rparr>) (ms_deliveries s)"
    using assms tenant by (simp add: migratable_def)
  show ?thesis
    unfolding up_005_def es Let_def vs ds using ts by (auto simp: list_all_iff)
qed

lemma up_002_fills:
  assumes "migratable 1 s"
  shows "up_002 random s = Some (s\<lparr>ms_endpoints :=
    map (\<lambda>e. e\<lparr>me_signing_secret := Some (random (me_id e))\<rparr>) (ms_endpoints s)\<rparr>)"
  unfolding up_002_def by (subst upd_where_every) (use assms in \<open>simp_all add: columns_def\<close>)

text \<open>Every migration succeeds, gives the columns of its version and leaves the tables to be.\<close>

lemma up_columns:
  assumes "migratable n s" and "n < 7" and "migration_up random now (Suc n) s = Some s'"
  shows "migratable (Suc n) s'"
  using assms(2) unfolding below_7
proof (elim disjE)
  assume "n = 4"
  with assms show ?thesis
    using up_005_fills [of s now] by (auto simp: migration_up_def columns_def image_image)
next
  assume "n = 1"
  with assms show ?thesis
    using up_002_fills [of s random] by (auto simp: migration_up_def columns_def image_image)
qed (use assms in \<open>auto simp: up_defs columns_def image_image intro!: exI [of Not False] split: option.splits\<close>)

lemma up_succeeds:
  assumes "migratable n s" and "n < 7"
  shows "migration_up random now (Suc n) s \<noteq> None"
  using assms(2) unfolding below_7
proof (elim disjE)
  assume "n = 4"
  with assms show ?thesis using up_005_fills [of s now] by (auto simp: migration_up_def)
qed (use assms in \<open>auto simp: up_defs columns_def\<close>)

lemma filled_eqI:
  assumes "ms_attempts s' = ms_attempts s"
    and "map (filled_endpoint random) (ms_endpoints s') = map (filled_endpoint random) (ms_endpoints s)"
    and "map filled_event (ms_events s') = map filled_event (ms_events s)"
    and "map filled_delivery (ms_deliveries s') = map filled_delivery (ms_deliveries s)"
    and "ms_records (filled random now s') = ms_records (filled random now s)"
    and "ms_tenants (filled random now s') = ms_tenants (filled random now s)"
  shows "filled random now s' = filled random now s"
  using assms by (simp add: filled_def)

lemma up_fills:
  assumes "migratable n s" and "n < 7" and "migration_up random now (Suc n) s = Some s'"
  shows "filled random now s' = filled random now s"
  using assms(2) unfolding below_7
proof (elim disjE)
  assume "n = 1"
  with assms show ?thesis
    using up_002_fills [of s random] by (auto simp: migration_up_def columns_def intro!: filled_eqI) (auto simp: filled_def)
next
  assume "n = 4"
  with assms show ?thesis
    using up_005_fills [of s now] by (auto simp: migration_up_def columns_def intro!: filled_eqI) (auto simp: filled_def)
qed (use assms in \<open>(auto simp: up_defs columns_def intro!: filled_eqI split: option.splits; auto simp: filled_def)+\<close>)

lemma filled_id: "migratable 7 s \<Longrightarrow> filled random now s = s"
  by (auto simp: filled_def columns_def filled_endpoint_def filled_event_def filled_delivery_def
      intro!: schema.equality map_idI split: option.splits)

lemma apply_pending_fills:
  assumes "migratable n s" and "k \<le> n" and "k \<le> 7"
  shows "apply_pending random now [Suc k..<8] s = filled random now s"
  using assms
proof (induction "7 - k" arbitrary: k n s)
  case 0
  then have "k = 7" "n = 7" by (auto simp: columns_def)
  with 0 show ?case by (simp add: filled_id)
next
  case (Suc m)
  have "[Suc k..<8] = Suc k # [Suc (Suc k)..<8]" by (rule upt_conv_Cons) (use Suc(2) in simp)
  moreover have version: "ms_version s = n" using Suc(3) by (simp add: columns_def)
  moreover obtain s' where "k = n \<Longrightarrow> migration_up random now (Suc n) s = Some s'"
    using up_succeeds [OF Suc(3)] Suc(2) by fastforce
  ultimately show ?case
    using Suc.hyps(1) [of "Suc k" n s] Suc.hyps(1) [of "Suc k" "Suc n" s'] Suc.hyps(2) Suc.prems
      up_columns [OF Suc(3)] up_fills [OF Suc(3)] by (cases "k = n") auto
qed

text \<open>Applying what is pending, from whatever version the schema has, fills the missing columns.\<close>

lemma migrate_up_fills:
  assumes "migratable n s"
  shows "migrate_up random now s = filled random now s"
proof -
  have "[1, 2, 3, 4, 5, 6, 7] = [Suc 0..<8]" by (simp add: upt_rec)
  then show ?thesis using apply_pending_fills [OF assms, of 0] by (simp add: migrate_up_def)
qed

lemma migrate_up_again: "migratable 7 s \<Longrightarrow> migrate_up random now s = s"
  by (simp add: migrate_up_fills filled_id)

lemma default_tenant_taken:
  assumes "columns_at 4 s" and "default_tenant \<in> tr_id ` set (the (ms_tenants s))"
  shows "migrate_up random now s = s"
  using assms by (auto simp: migrate_up_def migration_up_def up_005_def columns_at_def)

section \<open>Undoing a migration\<close>

lemmas down_defs = migration_down_def down_001_def down_002_def down_003_def down_004_def down_005_def
  down_006_def down_007_def

lemma absent_columns [simp]:
  "me_signing_secret e = None \<Longrightarrow> e\<lparr>me_signing_secret := None\<rparr> = e"
  "me_tenant_id e = None \<Longrightarrow> e\<lparr>me_tenant_id := None\<rparr> = e"
  "me_circuit e = None \<Longrightarrow> e\<lparr>me_circuit := None\<rparr> = e"
  "mv_tenant_id v = None \<Longrightarrow> v\<lparr>mv_tenant_id := None\<rparr> = v"
  "md_tenant_id d = None \<Longrightarrow> d\<lparr>md_tenant_id := None\<rparr> = d"
  by simp_all

lemma migration_undone:
  assumes "migratable n s" and "n < 7" and "migration_up random now (Suc n) s = Some s'"
  shows "migration_down s' = s"
  using assms(2) unfolding below_7
proof (elim disjE)
  assume "n = 1"
  with assms show ?thesis
    using up_002_fills [of s random]
    by (auto simp: migration_up_def columns_def down_defs intro!: schema.equality map_idI)
next
  assume "n = 4"
  with assms have four: "migratable 4 s" and up: "map_option (ms_version_update (\<lambda>_. 5)) (up_005 now s) = Some s'"
    by (simp_all add: migration_up_def)
  obtain ts where ts: "ms_tenants s = Some ts" "default_tenant \<notin> tr_id ` set ts"
    using four by (auto simp: columns_def)
  have "filter (\<lambda>t. tr_id t \<noteq> default_tenant) ts = ts"
    using ts(2) by (auto simp: filter_id_conv image_iff)
  then show ?thesis
    using up_005_fills [OF four, of now] up ts(1) four
    by (auto simp: columns_at_def migratable_def down_defs default_tenant_row_def
        intro!: schema.equality map_idI)
qed (use assms in \<open>auto simp: up_defs columns_def down_defs intro!: schema.equality map_idI split: option.splits\<close>)

section \<open>From the first version\<close>

text \<open>The constraints of \<open>001\<close>, and of the rows what the program keeps: a delivery has a lease
  exactly while it is in flight, and belongs to the endpoint of its event.\<close>

definition first_version_ok :: "schema \<Rightarrow> bool" where
  "first_version_ok s \<longleftrightarrow> columns_at 1 s \<and>
     distinct (map me_id (ms_endpoints s)) \<and> distinct (map mv_id (ms_events s)) \<and>
     distinct (map md_id (ms_deliveries s)) \<and> distinct (map ar_id (ms_attempts s)) \<and>
     distinct (map (\<lambda>a. (ar_delivery_id a, ar_sequence a)) (ms_attempts s)) \<and>
     list_all (\<lambda>v. mv_endpoint_id v \<in> me_id ` set (ms_endpoints s)) (ms_events s) \<and>
     list_all (\<lambda>d. md_endpoint_id d \<in> me_id ` set (ms_endpoints s) \<and>
       (md_lease_until d \<noteq> None \<longleftrightarrow> md_status d = InFlight) \<and>
       (md_event_id d, md_endpoint_id d) \<in> (\<lambda>v. (mv_id v, mv_endpoint_id v)) ` set (ms_events s)) (ms_deliveries s) \<and>
     list_all (\<lambda>a. ar_delivery_id a \<in> md_id ` set (ms_deliveries s)) (ms_attempts s)"

text \<open>The rows of version 1 as the program finds them.\<close>

definition upgraded_endpoint :: "(uuid \<Rightarrow> bytes) \<Rightarrow> m_endpoint \<Rightarrow> endpoint_row" where
  "upgraded_endpoint random e = \<lparr>er_id = me_id e, er_url = me_url e, er_created_at = me_created_at e,
     er_signing_secret = random (me_id e), er_tenant_id = default_tenant, er_circuit_state = CircuitClosed,
     er_failure_count = 0, er_suspended_until = None, er_sensitive_recovery = False,
     er_probe_delivery_id = None\<rparr>"

definition upgraded_event :: "m_event \<Rightarrow> event_row" where
  "upgraded_event v = \<lparr>vr_id = mv_id v, vr_endpoint_id = mv_endpoint_id v, vr_tenant_id = default_tenant,
     vr_payload = mv_payload v, vr_submitted_at = mv_submitted_at v\<rparr>"

definition upgraded_delivery :: "m_delivery \<Rightarrow> delivery_row" where
  "upgraded_delivery d = \<lparr>dr_id = md_id d, dr_event_id = md_event_id d, dr_endpoint_id = md_endpoint_id d,
     dr_tenant_id = default_tenant, dr_status = md_status d, dr_attempt_count = md_attempt_count d,
     dr_next_attempt_at = md_next_attempt_at d, dr_lease_until = md_lease_until d,
     dr_created_at = md_created_at d, dr_updated_at = md_updated_at d, dr_source_delivery_id = None\<rparr>"

definition upgraded_db :: "(uuid \<Rightarrow> bytes) \<Rightarrow> instant \<Rightarrow> instant \<Rightarrow> (nat \<Rightarrow> uuid) \<Rightarrow> schema \<Rightarrow> db" where
  "upgraded_db random now t src s = (empty_db t src)\<lparr>tenants := [default_tenant_row now],
     endpoints := map (upgraded_endpoint random) (ms_endpoints s),
     events := map upgraded_event (ms_events s), deliveries := map upgraded_delivery (ms_deliveries s),
     attempts := ms_attempts s\<rparr>"

lemma those_map: "(\<And>x. x \<in> set xs \<Longrightarrow> f x = Some (g x)) \<Longrightarrow> those (map f xs) = Some (map g xs)"
  by (induction xs) auto

lemma first_version_migratable: "first_version_ok s \<Longrightarrow> migratable 1 s"
  by (auto simp: first_version_ok_def migratable_def list_all_iff)

lemma db_of_upgraded:
  assumes "first_version_ok s"
  shows "db_of t src (migrate_up random now s) = Some (upgraded_db random now t src s)"
proof -
  note cols = first_version_migratable [OF assms, unfolded columns_def]
  have es: "those (map (endpoint_of \<circ> filled_endpoint random) (ms_endpoints s)) =
      Some (map (upgraded_endpoint random) (ms_endpoints s))"
    using cols by (intro those_map) (simp add: endpoint_of_def filled_endpoint_def upgraded_endpoint_def)
  have vs: "those (map (event_of \<circ> filled_event) (ms_events s)) = Some (map upgraded_event (ms_events s))"
    using cols by (intro those_map) (simp add: event_of_def filled_event_def upgraded_event_def)
  have ds: "those (map (delivery_of \<circ> filled_delivery) (ms_deliveries s)) = Some (map upgraded_delivery (ms_deliveries s))"
    using cols by (intro those_map) (simp add: delivery_of_def filled_delivery_def upgraded_delivery_def)
  show ?thesis
    using cols by (simp add: migrate_up_fills [OF first_version_migratable [OF assms]] db_of_def filled_def
        es vs ds upgraded_db_def empty_db_def)
qed

lemma upgraded_ids:
  "map er_id (map (upgraded_endpoint random) es) = map me_id es"
  "map vr_id (map upgraded_event vs) = map mv_id vs"
  "map dr_id (map upgraded_delivery ds) = map md_id ds"
  by (simp_all add: upgraded_endpoint_def upgraded_event_def upgraded_delivery_def)

lemma upgraded_id_sets:
  "tenant_ids (upgraded_db random now t src s) = {default_tenant}"
  "endpoint_ids (upgraded_db random now t src s) = me_id ` set (ms_endpoints s)"
  "event_ids (upgraded_db random now t src s) = mv_id ` set (ms_events s)"
  "delivery_ids (upgraded_db random now t src s) = md_id ` set (ms_deliveries s)"
  by (simp_all add: upgraded_db_def image_image default_tenant_row_def upgraded_endpoint_def upgraded_event_def
      upgraded_delivery_def)

lemma upgraded_tables:
  "endpoints (upgraded_db random now t src s) = map (upgraded_endpoint random) (ms_endpoints s)"
  "events (upgraded_db random now t src s) = map upgraded_event (ms_events s)"
  "deliveries (upgraded_db random now t src s) = map upgraded_delivery (ms_deliveries s)"
  "attempts (upgraded_db random now t src s) = ms_attempts s"
  "idempotency_records (upgraded_db random now t src s) = []"
  "tenants (upgraded_db random now t src s) = [default_tenant_row now]"
  by (simp_all add: upgraded_db_def empty_db_def)

lemmas upgraded_rows = upgraded_endpoint_def upgraded_event_def upgraded_delivery_def

lemma upgraded_db_ok:
  assumes "first_version_ok s"
  shows "db_ok (upgraded_db random now t src s)"
proof -
  let ?db = "upgraded_db random now t src s"
  have "replay_index_ok (deliveries ?db)"
    by (simp add: upgraded_db_def replay_index_ok_def filter_map active_replay_def o_def upgraded_delivery_def)
  moreover have "keys_ok ?db"
    using assms by (simp add: keys_ok_def upgraded_db_def upgraded_ids empty_db_def first_version_ok_def del: map_map)
  moreover have linked: "md_event_id d \<in> mv_id ` set (ms_events s)" "md_endpoint_id d \<in> me_id ` set (ms_endpoints s)"
      "lease_row_ok (upgraded_delivery d)" "delivery_linked ?db (upgraded_delivery d)"
    if "d \<in> set (ms_deliveries s)" for d
  proof -
    have "(md_event_id d, md_endpoint_id d) \<in> (\<lambda>v. (mv_id v, mv_endpoint_id v)) ` set (ms_events s)"
        and e: "md_endpoint_id d \<in> me_id ` set (ms_endpoints s)"
        and "md_lease_until d \<noteq> None \<longleftrightarrow> md_status d = InFlight"
      using assms that by (simp_all add: first_version_ok_def list_all_iff)
    then show "md_event_id d \<in> mv_id ` set (ms_events s)" "lease_row_ok (upgraded_delivery d)"
        "delivery_linked ?db (upgraded_delivery d)" "md_endpoint_id d \<in> me_id ` set (ms_endpoints s)"
      by (auto simp: lease_row_ok_def delivery_linked_def upgraded_tables upgraded_rows)
  qed
  moreover have "refs_ok ?db"
    unfolding refs_ok_def upgraded_id_sets unfolding upgraded_tables using assms linked(1,2)
    by (simp add: first_version_ok_def list_all_iff upgraded_rows)
  moreover have "\<forall>e \<in> set (endpoints ?db). circuit_ok e"
    by (simp add: upgraded_db_def circuit_ok_def upgraded_endpoint_def)
  ultimately show ?thesis
    using assms by (simp add: db_ok_def schema_ok_def uniques_ok_def consistent_def first_version_ok_def upgraded_tables)
qed

text \<open>Nothing is migrated while deliveries are in flight: then the order of the tenants holds, too.\<close>

lemma upgraded_orderly:
  assumes "list_all (\<lambda>d. md_status d \<noteq> InFlight \<and> md_created_at d \<le> t \<and>
      md_attempt_count d \<le> (if terminal (md_status d) then MaxAttempts else MaxAttempts - 1)) (ms_deliveries s)"
  shows "orderly (upgraded_db random now t src s)"
  using assms by (auto simp: orderly_def in_order_def in_budget_def upgraded_db_def upgraded_delivery_def
      list_all_iff empty_db_def)

lemma no_schema_migrated: "db_of t src (migrate_up random t no_schema) = Some (migrated_db t src)"
proof -
  have "migratable 0 no_schema" by (simp add: columns_def no_schema_def)
  then show ?thesis
    by (simp add: migrate_up_fills filled_def no_schema_def db_of_def migrated_db_def empty_db_def
        default_tenant_row_def default_tenant_def)
qed

text \<open>C29. The migrations bring a database of the first version to the tables the program uses: the tool
  applies all six that are pending, no row is lost or changed in a column it had, every endpoint
  gets the default tenant, a secret of its own and a closed circuit, events and deliveries the tenant
  of their endpoint, and what comes out is a consistent state of the program.\<close>

theorem migrations_upgrade_the_rows:
  assumes "first_version_ok s"
  shows "\<exists>db. db_of t src (migrate_up random now s) = Some db \<and> db_ok db \<and>
      tenants db = [default_tenant_row now] \<and> attempts db = ms_attempts s \<and> idempotency_records db = [] \<and>
      endpoints db = map (upgraded_endpoint random) (ms_endpoints s) \<and>
      events db = map upgraded_event (ms_events s) \<and> deliveries db = map upgraded_delivery (ms_deliveries s)"
  using db_of_upgraded [OF assms, of t src random now] upgraded_db_ok [OF assms, of random now t src]
  by (simp add: upgraded_db_def empty_db_def)

definition first_schema :: schema where
  "first_schema = \<lparr>ms_version = 1, ms_tenants = None,
     ms_endpoints = [\<lparr>me_id = 10, me_url = ''https://a.example/hook'', me_created_at = 5, me_signing_secret = None,
       me_tenant_id = None, me_circuit = None\<rparr>],
     ms_events = [\<lparr>mv_id = 20, mv_endpoint_id = 10, mv_payload = [], mv_submitted_at = 6, mv_tenant_id = None\<rparr>],
     ms_deliveries = [\<lparr>md_id = 30, md_event_id = 20, md_endpoint_id = 10, md_status = InFlight, md_attempt_count = 1,
       md_next_attempt_at = 7, md_lease_until = Some 90, md_created_at = 6, md_updated_at = 8, md_tenant_id = None,
       md_source_delivery_id = None\<rparr>],
     ms_attempts = [\<lparr>ar_id = 40, ar_delivery_id = 30, ar_sequence = 1, ar_started_at = 7, ar_completed_at = None,
       ar_response_status_code = None, ar_outcome = OutcomeTransientFailure, ar_error_reason = None\<rparr>],
     ms_records = None\<rparr>"

lemma first_schema_ok: "first_version_ok first_schema"
  by (simp add: first_schema_def first_version_ok_def columns_at_def)

theorem migrations_upgrade_the_rows_witness:
  "\<exists>db. db_of 100 (\<lambda>_. 0) (migrate_up (\<lambda>_. ''secret'') 99 first_schema) = Some db \<and> db_ok db \<and>
     length (deliveries db) = 1 \<and> map er_signing_secret (endpoints db) = [''secret''] \<and> map vr_tenant_id (events db) = [1]"
proof -
  obtain db where db: "db_of 100 (\<lambda>_. 0) (migrate_up (\<lambda>_. ''secret'') 99 first_schema) = Some db" "db_ok db"
      "endpoints db = map (upgraded_endpoint (\<lambda>_. ''secret'')) (ms_endpoints first_schema)"
      "events db = map upgraded_event (ms_events first_schema)"
      "deliveries db = map upgraded_delivery (ms_deliveries first_schema)"
    using migrations_upgrade_the_rows [OF first_schema_ok, of 100 "\<lambda>_. 0" "\<lambda>_. ''secret''" 99] by blast
  then show ?thesis
    by (auto simp: first_schema_def upgraded_endpoint_def upgraded_event_def default_tenant_def)
qed

end
