(* ===== verification/Commands.thy ===== *)
theory Commands
  imports Processes
begin

text \<open>
  The command line of \<open>cmd/webhookd/main.go\<close>: \<open>flag.FlagSet.Parse\<close> of Go's library for the one
  string flag of every subcommand, in place of the argument \<open>flags\<close> of the commands, and the exit
  code of the program for any command line.
\<close>

section \<open>Flags\<close>

text \<open>A name is cut at its first \<open>=\<close> after the first byte; what follows is the value.\<close>

definition cut_value :: "string \<Rightarrow> string \<times> string option" where
  "cut_value name =
     (case dropWhile (\<lambda>c. c \<noteq> CHR ''='') (tl name) of
        [] \<Rightarrow> (name, None)
      | _ # v \<Rightarrow> (hd name # takeWhile (\<lambda>c. c \<noteq> CHR ''='') (tl name), Some v))"

text \<open>\<open>Parse\<close> of a flag set with the string flag \<open>flag\<close>, whose value so far is \<open>cur\<close>: the value and the
  arguments that are left.  A flag without \<open>=\<close> takes the next argument.\<close>

function Parse :: "string \<Rightarrow> string \<Rightarrow> string list \<Rightarrow> err + (string \<times> string list)" where
  "Parse flag cur [] = Inr (cur, [])"
| "Parse flag cur (s # args) =
     (if length s < 2 \<or> hd s \<noteq> CHR ''-'' then Inr (cur, s # args)
      else if s = ''--'' then Inr (cur, args)
      else
        (let raw = (if s ! 1 = CHR ''-'' then drop 2 s else drop 1 s); (name, value) = cut_value raw in
         if raw = [] \<or> hd raw = CHR ''-'' \<or> hd raw = CHR ''='' then Inl (ErrText (''bad flag syntax: '' @ s))
         else if name \<noteq> flag then
           (if name = ''help'' \<or> name = ''h'' then Inl (ErrText ''flag: help requested'')
            else Inl (ErrText (''flag provided but not defined: -'' @ name)))
         else
           (case value of
              Some v \<Rightarrow> Parse flag v args
            | None \<Rightarrow>
                (case args of
                   [] \<Rightarrow> Inl (ErrText (''flag needs an argument: -'' @ name))
                 | v # args' \<Rightarrow> Parse flag v args'))))"
  by pat_completeness auto
termination Parse
  by (relation "measure (\<lambda>(flag, cur, args). length args)") auto

definition pprofAddr :: "string list \<Rightarrow> err + string" where
  "pprofAddr args = (case Parse ''pprof-addr'' [] args of Inl e \<Rightarrow> Inl e | Inr (v, _) \<Rightarrow> Inr v)"

text \<open>The four ways to give the flag.\<close>

lemma cut_value_simps:
  "CHR ''='' \<notin> set cs \<Longrightarrow> cut_value (c # cs) = (c # cs, None)"
  "CHR ''='' \<notin> set cs \<Longrightarrow> cut_value (c # cs @ CHR ''='' # v) = (c # cs, Some v)"
proof -
  assume *: "CHR ''='' \<notin> set cs"
  have "dropWhile (\<lambda>c. c \<noteq> CHR ''='') cs = []" using * by (auto simp: dropWhile_eq_Nil_conv)
  then show "cut_value (c # cs) = (c # cs, None)" unfolding cut_value_def list.sel by (simp only: list.case)
  have "dropWhile (\<lambda>c. c \<noteq> CHR ''='') (cs @ CHR ''='' # v) = CHR ''='' # v \<and>
      takeWhile (\<lambda>c. c \<noteq> CHR ''='') (cs @ CHR ''='' # v) = cs"
    using * by (induction cs) auto
  then show "cut_value (c # cs @ CHR ''='' # v) = (c # cs, Some v)" by (simp add: cut_value_def)
qed

lemma Parse_spellings:
  assumes "flag = c # cs" and "c \<noteq> CHR ''-''" and "c \<noteq> CHR ''=''" and "CHR ''='' \<notin> set cs"
  shows "Parse flag cur ((''-'' @ flag @ ''='' @ v) # args) = Parse flag v args"
    and "Parse flag cur ((''--'' @ flag @ ''='' @ v) # args) = Parse flag v args"
    and "Parse flag cur ((''-'' @ flag) # v # args) = Parse flag v args"
    and "Parse flag cur ((''--'' @ flag) # v # args) = Parse flag v args"
  using assms cut_value_simps [OF assms(4), of c] by (simp_all del: Parse.simps add: Parse.simps(2))

lemma Parse_operand: "s \<noteq> [] \<Longrightarrow> hd s \<noteq> CHR ''-'' \<Longrightarrow> Parse flag cur (s # args) = Inr (cur, s # args)"
  by simp

section \<open>The program\<close>

text \<open>What the environment gives each command, and what becomes of its goroutines.\<close>

record surroundings =
  su_api :: "err + APIConfig"
  su_worker :: "err + WorkerEnvConfig"
  su_scheduler :: "err + SchedulerEnvConfig"
  su_pool :: "string \<Rightarrow> int \<Rightarrow> err + pool_settings"
  su_apiErr :: "err option"
  su_metricsErr :: "err option"
  su_server :: "server_event list"
  su_runs :: "nat \<Rightarrow> progress"
  su_loops :: "loop_event list"

definition webhookd :: "surroundings \<Rightarrow> string list \<Rightarrow> int option" where
  "webhookd su = main
     (\<lambda>as. api_command pprofAddr (su_api su) (su_pool su) as (su_apiErr su) (su_metricsErr su) (su_server su))
     (\<lambda>as. worker_command pprofAddr (su_worker su) (su_pool su) as (su_runs su))
     (\<lambda>as. scheduler_command pprofAddr (su_scheduler su) (su_pool su) as (su_loops su))"

lemmas command_defs = webhookd_def main_def dispatch_def api_command_def worker_command_def
  scheduler_command_def start_command_def

abbreviation subcommands :: "string set" where "subcommands \<equiv> {''api'', ''worker'', ''scheduler''}"

lemma unknown_subcommand:
  assumes "args = [] \<or> hd args \<notin> subcommands \<union> {''-h'', ''--help'', ''help''}"
  shows "webhookd su args = Some 2"
  using assms by (cases args) (auto simp: command_defs)

lemma refused_flags:
  assumes "sub \<in> subcommands" and "pprofAddr args = Inl e"
  shows "webhookd su (sub # args) = Some 1"
  using assms by (auto simp: command_defs)

lemma refused_configuration:
  assumes "sub \<in> subcommands" and "su_api su = Inl e1" and "su_worker su = Inl e2" and "su_scheduler su = Inl e3"
  shows "webhookd su (sub # args) = Some 1"
  using assms by (auto simp: command_defs split: sum.splits)

text \<open>Operands are ignored: a command is the same with anything after its flags.\<close>

lemma operands_ignored:
  assumes "sub \<in> subcommands" and "hd s \<noteq> CHR ''-''" and "s \<noteq> []"
  shows "webhookd su (sub # s # args) = webhookd su [sub]"
  using assms by (auto simp: command_defs pprofAddr_def)

text \<open>Asking a subcommand for help is an error, asking the program is not.\<close>

lemma help_of_a_subcommand:
  assumes "sub \<in> subcommands"
  shows "webhookd su [sub, ''-h''] = Some 1 \<and> webhookd su [sub, ''--help''] = Some 1 \<and> webhookd su [''-h''] = Some 0"
proof -
  have "pprofAddr [''-h''] = Inl (ErrText ''flag: help requested'')"
      "pprofAddr [''--help''] = Inl (ErrText ''flag: help requested'')"
    by (simp_all add: pprofAddr_def cut_value_def)
  with assms show ?thesis by (auto simp: refused_flags) (simp_all add: command_defs)
qed

text \<open>The profiling server listens only when the flag names an address.\<close>

lemma pprof_only_on_demand:
  "start_command pprofAddr (Inr cfg) pool url_of max_of [] = Inr (cfg', p, srv) \<Longrightarrow> srv = None"
  by (auto simp: start_command_def pprofAddr_def startPprofServer_def split: sum.splits)

end
