(* ===== verification/Spec2Isabelle.thy ===== *)
theory Spec2Isabelle
  imports Processes Recovery Secrecy Messages Responses Threads Submissions Migrations Commands
begin

text \<open>
  \<^bold>\<open>A verification library for the webhook delivery service \<open>webhookd\<close>\<close>

  \<^bold>\<open>The program.\<close>  Producers register tenants and endpoints and submit events over an HTTP API
  (\<open>internal/api\<close>, \<open>internal/service\<close>).  An event and its delivery are rows of a PostgreSQL
  database (\<open>internal/store\<close>).  A scheduler (\<open>internal/scheduler\<close>) claims the deliveries that are
  due, at most one per tenant and in order, and publishes them to Kafka (\<open>internal/queue\<close>).
  Workers (\<open>internal/delivery\<close>) send the signed request (\<open>internal/signing\<close>), record the attempt and
  finish or reschedule the delivery (\<open>internal/domain/retry.go\<close>).  A circuit breaker per endpoint
  suspends failing receivers.  A reaper (\<open>internal/recovery\<close>) returns deliveries whose lease has
  run out.  Permanently failed deliveries are the dead letters, which can be listed and replayed.
  The processes communicate through the database and the topic only.

  \<^bold>\<open>The theories, bottom up.\<close>

  \<^item> \<open>Prelude\<close>: programs as functions from a state to a result or an error and a state (the type
    \<open>prog\<close>), with \<open>bindP\<close> for the early return on an error; the predicate \<open>preserves\<close> and its
    collection of introduction rules; rows of a table (\<open>upd_where\<close>, \<open>row_by\<close>).
  \<^item> \<open>Go_Std\<close>, \<open>Go_Crypto\<close>: what the source uses of Go's library: wrap around of \<open>int\<close>,
    \<open>strconv\<close>, UTF-8, hexadecimal text; SHA-256, HMAC, FNV-64a on machine words.  \<open>Go_URL\<close>:
    \<open>net/url.Parse\<close>, and that an accepted URL satisfies the constraint of its table.  \<open>Go_JSON\<close>,
    \<open>JSON_Text\<close>: \<open>encoding/json\<close>, reading and writing, with the proof that what is written is read
    back.
  \<^item> \<open>Domain\<close> (\<open>internal/domain\<close>): types, errors, the status methods of a delivery, URL
    validation, the retry schedule with its jitter.  \<open>Config\<close> (\<open>internal/config\<close>).
  \<^item> \<open>Database\<close> (\<open>internal/store/migrations\<close>, \<open>postgres.go\<close>): the tables as lists of row
    records, constraints checked by every insertion and update, statements that may be lost or
    lose their answer, transactions; the invariant \<open>db_ok\<close>.  \<open>Sample\<close>: a small database.
  \<^item> \<open>Migrations\<close>: the seven migrations, up and down, on a schema whose later columns are missing; that
    they fill the missing columns and change nothing else (\<open>migrate_up_fills\<close>), can be undone one
    by one (\<open>migration_undone\<close>), and bring the first version to a consistent database.
  \<^item> \<open>Circuit_Store\<close>, \<open>Delivery_Store\<close>, \<open>Entity_Stores\<close>, \<open>Idempotency_Store\<close>: one definition
    per method of the stores; a SQL statement is a selection and a row function.
  \<^item> \<open>Entity_Services\<close>, \<open>Event_Service\<close>, \<open>DLQ_Service\<close> (\<open>internal/service\<close>); \<open>Signing\<close>.
  \<^item> \<open>Queue\<close>, \<open>Scheduler\<close> (with the reaper), \<open>Worker\<close>: the steps of the long running
    processes on the state \<open>world\<close>: the database, the topic, what was committed and sent.
  \<^item> \<open>API\<close>, \<open>Server\<close>: the handlers, the middlewares, the wiring of the three subcommands.
    \<open>Processes\<close>: the loops \<open>Run\<close>, the start and shutdown of the HTTP server, the collectors, and
    the commands with their errors and exit codes.  \<open>Commands\<close>: the flags and the whole command line.
  \<^item> \<open>Requests\<close>, \<open>Responses\<close> (\<open>dto.go\<close> and the handlers): the JSON of the API's bodies, and what a
    client gets for any body it sends.  \<open>Messages\<close>: the Kafka message as JSON, and the composed
    service with the standard library in place of its parameters.
  \<^item> \<open>Secrecy\<close>: no read operation of the API reveals a signing secret.
  \<^item> \<open>Table_Laws\<close>: the locales \<open>attempt_law\<close>, \<open>content_law\<close>, \<open>submission_law\<close>, \<open>service_law\<close>,
    \<open>request_law\<close> and \<open>table_law\<close>, what a
    predicate on the tables must survive to be kept by every operation.
  \<^item> \<open>System\<close>: the whole service as a transition system (\<open>perform\<close>, \<open>step\<close>, \<open>reachable\<close>): a step is
    a request, a tick, a handled message, or a move of the clock, the connection or the broker.
    \<open>Traffic\<close>: what is on the topic and what was sent, and the way of one delivery through
    the processes.  \<open>Probes\<close>, \<open>Recovery\<close>: the circuit breaker in the composed service, how an
    endpoint is starved by a finished probe and how a suspended one is probed.
  \<^item> \<open>Threads\<close> (\<open>internal/delivery/worker.go\<close>, \<open>WORKER_CONCURRENCY\<close>): \<open>ProcessOne\<close> cut at its calls
    (\<open>advance\<close>), and any number of such threads interleaved with the rest (\<open>make\<close>, \<open>interleaved\<close>).
  \<^item> \<open>Submissions\<close> (\<open>internal/service/event_service.go\<close>): \<open>Submit\<close> cut into stages
    (\<open>submit_stage\<close>), and any number of submissions that overlap under the advisory lock
    (\<open>occur\<close>, \<open>overlapping\<close>).

  A method of a type is named \<open>Type_Method\<close>.  A Go interface is a record of its operations or a
  function argument; a service is defined over the record and instantiated with the stores.

  \<^bold>\<open>What the lemmas show.\<close>  Every operation preserves \<open>db_ok\<close> under every pattern of connection
  failures (the \<open>_preserves\<close> lemmas): keys, references, the partial index, a lease exactly while
  in flight, tenant and event of a delivery matching its endpoint, the columns of a breaker, no
  half written idempotency record.  The circuit statements refine the abstract \<open>breaker\<close>, the
  marks of a delivery refine the methods of the domain type.  The functional theorems give the
  whole effect of an operation on each branch.  Interfaces are locales with their laws
  (\<open>tenant_directory\<close>, \<open>endpoint_directory\<close>, \<open>failure_breaker\<close>, \<open>replay_store\<close>), interpreted on
  the stores.  For the composed service: every reachable state satisfies \<open>db_ok\<close>; nothing recorded
  is lost along any run; messages can be read and name deliveries, stored URLs can be requested,
  and requests are signed; and as long as no
  worker is handed a message of a finished delivery (\<open>guarded_run\<close>), deliveries of a tenant
  stay in order and within the budget.  That the condition is needed is a theorem of its own
  (\<open>redelivered_message_revives\<close>).  The same holds when the steps of the workers are interleaved
  (\<open>open_interleaved\<close>), where no two of them work on one delivery; without the condition
  they still never make the same attempt twice (\<open>interleaved\<close>).  Overlapping submissions with one
  idempotency key create one delivery and get the same answer.

  \<^bold>\<open>Bounds.\<close>  \<open>int\<close> values whose overflow matters wrap at 64 bits (\<open>wrap64\<close>); an \<open>instant\<close> or
  \<open>duration\<close> is a count of nanoseconds without bound.  The redirect loop of the HTTP client is a
  partial function; it is shown to return for the client the program builds.  An attempt loop
  ends by the budget of nine attempts.  The loops \<open>Run\<close> are functions of the finite list of
  events seen so far; \<open>Waiting\<close> is the value of a loop that has seen no cancellation.  JSON nests at
  most 10000 levels, the limit of \<open>encoding/json\<close>; the parser needs no other bound, it consumes
  its input (\<open>parse_length\<close>).

  \<^bold>\<open>Parameters.\<close>  \<open>uuid.Parse\<close> and \<open>UUID.String\<close> (with the law \<open>uuid_codec\<close> where a text is read
  back), the texts of errors and of \<open>time.Time\<close>, \<open>crypto/rand\<close>,
  \<open>math/rand\<close>, the parse of a payload into JSONB, the HTTP peer, the Kafka broker, \<open>pgxpool\<close> and
  the reader of the environment are arguments.  \<open>url.Parse\<close> and the decoding of JSON are arguments
  up to \<open>System\<close> and \<open>Traffic\<close> and get their values in \<open>Requests\<close> and \<open>Messages\<close>.  Clock readings are arguments or fields of the state.

  \<^bold>\<open>Not modelled.\<close>  Interleavings inside one statement: statements run one at a time, so that
  \<open>FOR UPDATE SKIP LOCKED\<close> has nothing to do.  Of the transactions only that of a submission is
  interleaved with others (\<open>Submissions\<close>); its writes and its commit are one step.    The order SQL
  leaves open between rows with equal sort keys is table order.  Rounding of timestamps to
  microseconds, \<open>INT\<close> overflow of counters in the database, log texts, Prometheus itself,
  what listeners and the profiling server do, and the
  migration tool (\<open>goose\<close>) beyond the order and the transaction of each file.  A
  step of \<open>System\<close> is a whole request, tick or message; \<open>Threads\<close> interleaves the steps of
  workers, \<open>Submissions\<close> those of submissions, and everything else stays whole in both.
\<close>

end
